theory Spec2Isabelle
  imports Main
begin

section \<open>JavaScript values as the program sees them\<close>

text \<open>
  Everything the servers inspect comes out of \<open>JSON.parse\<close> (provider replies) or out of
  \<open>express.json()\<close> (request bodies), so a value is a JSON value. \<open>undefined\<close>, the result
  of reading a missing property, is \<open>None\<close> of \<open>json option\<close>. A number is carried as
  the text JavaScript prints for it (\<open>7\<close>, \<open>0.5\<close>, \<open>1e+21\<close>): the program only tests numbers for
  truthiness, where the numbers printed \<open>0\<close> (zero and minus zero) are the falsy ones, and
  interpolates them into strings. An object is the list of its own properties (the first
  binding of a key is the property).
\<close>

datatype json =
    JNull
  | JBool bool
  | JNum string
  | JStr string
  | JArr "json list"
  | JObj "(string \<times> json) list"

text \<open>Truthiness, as tested by \<open>if (v)\<close>, \<open>!v\<close>, \<open>a || b\<close> and \<open>a && b\<close>.\<close>

fun truthy :: "json \<Rightarrow> bool" where
  "truthy JNull = False"
| "truthy (JBool b) = b"
| "truthy (JNum n) = (n \<noteq> ''0'')"
| "truthy (JStr s) = (s \<noteq> [])"
| "truthy (JArr xs) = True"
| "truthy (JObj ps) = True"

fun truthy_opt :: "json option \<Rightarrow> bool" where
  "truthy_opt None = False"
| "truthy_opt (Some v) = truthy v"

text \<open>
  \<open>v?.name\<close> and \<open>v.name\<close> on a non-nullish \<open>v\<close>. The names the program reads
  (candidates, content, parts, text, output, message, error, models, model, name, id, mode)
  are on no built-in prototype, so only an object's own property can answer.
\<close>

fun get_prop :: "string \<Rightarrow> json option \<Rightarrow> json option" where
  "get_prop name (Some (JObj ps)) = map_of ps name"
| "get_prop name _ = None"

text \<open>
  \<open>v?.[0]\<close>: the first element of an array, the property \<open>"0"\<close> of an object, the first
  character of a string, \<open>undefined\<close> of anything else.
\<close>

fun idx0 :: "json option \<Rightarrow> json option" where
  "idx0 (Some (JArr xs)) = (case xs of [] \<Rightarrow> None | x # _ \<Rightarrow> Some x)"
| "idx0 (Some (JObj ps)) = map_of ps ''0''"
| "idx0 (Some (JStr s)) = (case s of [] \<Rightarrow> None | c # _ \<Rightarrow> Some (JStr [c]))"
| "idx0 _ = None"

subsection \<open>String conversion\<close>

text \<open>
  \<open>ToString\<close>, as applied by a template literal \<open>`${v}`\<close>, by \<open>RegExp.prototype.test\<close> and
  by \<open>new Error(v)\<close>. An array is joined with commas, \<open>null\<close> elements giving the empty
  string. An object answers \<open>[object Object]\<close> through \<open>Object.prototype.toString\<close>; when
  parsed JSON gave it an own property \<open>toString\<close>, that property is not callable, the
  inherited \<open>valueOf\<close> returns the object itself, and the conversion throws a TypeError
  (\<open>None\<close>).
\<close>

fun join_comma :: "string option list \<Rightarrow> string option" where
  "join_comma [] = Some []"
| "join_comma [x] = x"
| "join_comma (x # y # ys) =
     (case x of None \<Rightarrow> None
      | Some a \<Rightarrow> (case join_comma (y # ys) of None \<Rightarrow> None | Some b \<Rightarrow> Some (a @ '','' @ b)))"

fun ToString :: "json \<Rightarrow> string option" where
  "ToString JNull = Some ''null''"
| "ToString (JBool b) = Some (if b then ''true'' else ''false'')"
| "ToString (JNum n) = Some n"
| "ToString (JStr s) = Some s"
| "ToString (JArr xs) = join_comma (map (\<lambda>x. if x = JNull then Some [] else ToString x) xs)"
| "ToString (JObj ps) = (if map_of ps ''toString'' = None then Some ''[object Object]'' else None)"

text \<open>
  \<open>a || b\<close>: the left operand when it is truthy, the right one otherwise. In every use the
  right operand is a value (a literal, another such chain, or a value already read), while
  the left one may be \<open>undefined\<close>.
\<close>

definition or_else :: "json option \<Rightarrow> json \<Rightarrow> json" where
  "or_else a b = (case a of None \<Rightarrow> b | Some v \<Rightarrow> if truthy v then v else b)"

text \<open>
  \<open>/gemini/i.test(s)\<close>: the string contains \<open>gemini\<close>, ASCII letters compared without
  regard to case.
\<close>

definition lower :: "char \<Rightarrow> char" where
  "lower c =
     (if c = CHR ''G'' then CHR ''g'' else if c = CHR ''E'' then CHR ''e''
      else if c = CHR ''M'' then CHR ''m'' else if c = CHR ''I'' then CHR ''i''
      else if c = CHR ''N'' then CHR ''n'' else c)"

fun starts_with :: "string \<Rightarrow> string \<Rightarrow> bool" where
  "starts_with [] s = True"
| "starts_with (p # ps) [] = False"
| "starts_with (p # ps) (c # cs) = (p = lower c \<and> starts_with ps cs)"

fun test_gemini :: "string \<Rightarrow> bool" where
  "test_gemini [] = False"
| "test_gemini (c # cs) = (starts_with ''gemini'' (c # cs) \<or> test_gemini cs)"

section \<open>The outside world, exceptions and the process state\<close>

text \<open>
  An outbound request is a POST of \<open>{contents: [{parts: [{text: prompt}]}]}\<close> to a URL, or
  a GET of a URL (headers are not modelled). The provider answers each request with a
  status and a raw body, or the request fails (\<open>fetch\<close> or \<open>res.text()\<close> rejects: network
  error, timeout) with an error message. The answer may depend on how many requests
  were sent before, so the same request can be answered differently the second time.
  \<open>JSON.parse\<close> is the platform's: it yields a value or throws a SyntaxError with a message.
\<close>

datatype request = Post string string | Get string

datatype reply = Threw string | Response nat string

record world =
  API_KEY :: string
  fetch :: "nat \<Rightarrow> request \<Rightarrow> reply"
  JSON_parse :: "string \<Rightarrow> string + json"

datatype exn = Error string | TypeError | SyntaxError string | FetchError string

text \<open>\<open>err.message\<close> (the TypeError's text is V8's for a failed string conversion).\<close>

fun message :: "exn \<Rightarrow> string" where
  "message (Error m) = m"
| "message TypeError = ''Cannot convert object to primitive value''"
| "message (SyntaxError m) = m"
| "message (FetchError m) = m"

text \<open>What the servers write to the console, one constructor for each logging statement.\<close>

datatype logline =
    TriedModel string nat
  | RawResponse string
  | WorkingModelFound string
  | ModelFailed string json
  | ModelsResponse string
  | ModelsListed json
  | NonJSONModels string string
  | CouldNotList string string
  | CouldNotFetchList
  | TryingListed string
  | WorkingModelFromList string
  | RouteError string json
  | GeminiRawResponse string string
  | NetworkErrorWith string exn
  | HandlerError string exn

text \<open>
  The process state: the module variable \<open>cachedModel\<close> (\<open>null\<close> at start), the requests
  sent so far in order, and the console.
\<close>

record state =
  cachedModel :: json
  sent :: "request list"
  console :: "logline list"

definition initial_state :: state where
  "initial_state = \<lparr>cachedModel = JNull, sent = [], console = []\<rparr>"

definition do_fetch :: "world \<Rightarrow> request \<Rightarrow> state \<Rightarrow> reply \<times> state" where
  "do_fetch w r s = (fetch w (length (sent s)) r, s\<lparr>sent := sent s @ [r]\<rparr>)"

definition log :: "logline \<Rightarrow> state \<Rightarrow> state" where
  "log l s = s\<lparr>console := console s @ [l]\<rparr>"

text \<open>\<open>res.ok\<close>: the status is in the range 200 to 299.\<close>

definition res_ok :: "nat \<Rightarrow> bool" where
  "res_ok status = (200 \<le> status \<and> status \<le> 299)"

section \<open>The server with model resolution (part 000)\<close>

text \<open>
  The functions of this section follow one call from its start to its end, with nothing
  else running in between. Calls that overlap at an \<open>await\<close> are the subject of the
  section on overlapping calls, which cuts the same code at its awaits.
\<close>

definition CANDIDATE_MODELS :: "string list" where
  "CANDIDATE_MODELS =
     [''gemini-2.5-pro'', ''gemini-2.5-flash'', ''gemini-1.5-pro'', ''gemini-1.5-flash'',
      ''gemini-1.0'']"

subsection \<open>tryModelGenerate\<close>

text \<open>The object \<open>{ ok, text, error, raw, data }\<close> that \<open>tryModelGenerate\<close> returns.\<close>

record attempt =
  ok :: bool
  text' :: "json option"
  error :: "json option"
  raw :: "string option"
  data :: "json option"

definition generate_url :: "world \<Rightarrow> string \<Rightarrow> string" where
  "generate_url w m =
     ''https://generativelanguage.googleapis.com/v1beta/models/'' @ m @
     '':generateContent?key='' @ API_KEY w"

text \<open>
  The seven paths tried for the output text, in the source's order (\<open>alt3\<close> repeats
  \<open>alt1\<close>), and \<open>alt1 || alt2 || ... || alt7 || null\<close>.
\<close>

definition extract_text :: "json \<Rightarrow> json" where
  "extract_text d =
     (let c0 = idx0 (get_prop ''candidates'' (Some d));
          alt1 = get_prop ''text'' (idx0 (get_prop ''parts'' (get_prop ''content'' c0)));
          alt2 = get_prop ''text'' (idx0 (get_prop ''content'' c0));
          alt3 = get_prop ''text'' (idx0 (get_prop ''parts'' (get_prop ''content'' c0)));
          alt4 = get_prop ''text'' c0;
          alt5 = get_prop ''text'' (idx0 (get_prop ''content'' (idx0 (get_prop ''output'' (Some d)))));
          alt6 = get_prop ''text'' (idx0 (get_prop ''parts'' (idx0 (get_prop ''content'' (Some d)))));
          alt7 = get_prop ''text''
                   (idx0 (get_prop ''parts'' (get_prop ''content'' (get_prop ''message'' c0))))
      in or_else alt1 (or_else alt2 (or_else alt3 (or_else alt4 (or_else alt5
           (or_else alt6 (or_else alt7 JNull)))))))"

text \<open>The body of the \<open>try\<close> block, from \<open>fetch\<close> on: it returns an attempt or throws.\<close>

definition tryModelGenerate_try ::
  "world \<Rightarrow> string \<Rightarrow> string \<Rightarrow> state \<Rightarrow> (exn + attempt) \<times> state" where
  "tryModelGenerate_try w m prompt s =
     (case do_fetch w (Post (generate_url w m) prompt) s of
        (Threw msg, s1) \<Rightarrow> (Inl (FetchError msg), s1)
      | (Response status r, s1) \<Rightarrow>
          (let s2 = log (RawResponse (take 800 r)) (log (TriedModel m status) s1)
           in case JSON_parse w r of
                Inl e \<Rightarrow>
                  (Inr \<lparr>ok = False, text' = None, error = Some (JStr ''Invalid JSON response''),
                        raw = Some r, data = None\<rparr>, s2)
              | Inr d \<Rightarrow>
                  (let t = extract_text d in
                   if res_ok status \<and> truthy t then
                     (Inr \<lparr>ok = True, text' = Some t, error = None, raw = Some r,
                           data = Some d\<rparr>, s2)
                   else if truthy_opt (get_prop ''error'' (Some d)) then
                     (Inr \<lparr>ok = False, text' = None, error = get_prop ''error'' (Some d),
                           raw = Some r, data = Some d\<rparr>, s2)
                   else
                     (Inr \<lparr>ok = False, text' = None,
                           error = Some (JStr ''No text found in response''), raw = Some r,
                           data = Some d\<rparr>, s2))))"

text \<open>
  The whole function: the URL is built before the \<open>try\<close> (the template literal converts
  the model identifier to a string, which is the one step that can throw out of
  the function), and the \<open>catch\<close> turns whatever the block threw into
  \<open>{ ok: false, error: err.message }\<close>.
\<close>

definition tryModelGenerate ::
  "world \<Rightarrow> json \<Rightarrow> string \<Rightarrow> state \<Rightarrow> (exn + attempt) \<times> state" where
  "tryModelGenerate w modelId prompt s =
     (case ToString modelId of
        None \<Rightarrow> (Inl TypeError, s)
      | Some m \<Rightarrow>
          (case tryModelGenerate_try w m prompt s of
             (Inl err, s1) \<Rightarrow>
               (Inr \<lparr>ok = False, text' = None, error = Some (JStr (message err)), raw = None,
                     data = None\<rparr>, s1)
           | (Inr a, s1) \<Rightarrow> (Inr a, s1)))"

subsection \<open>listAvailableModels\<close>

definition endpoints :: "string list" where
  "endpoints =
     [''https://generativelanguage.googleapis.com/v1beta/models'',
      ''https://generativelanguage.googleapis.com/v1/models'']"

text \<open>
  The loop over the two endpoints. \<open>Some r\<close> is the \<open>return\<close> inside the loop, \<open>None\<close> is
  the loop running to its end. Both \<open>catch\<close> blocks log and let the loop go on; a parsed
  body with neither \<open>models\<close> nor \<open>model\<close> goes on without a word.
\<close>

fun list_endpoints :: "world \<Rightarrow> string list \<Rightarrow> state \<Rightarrow> json option \<times> state" where
  "list_endpoints w [] s = (None, s)"
| "list_endpoints w (url # rest) s =
     (case do_fetch w (Get url) s of
        (Threw msg, s1) \<Rightarrow> list_endpoints w rest (log (CouldNotList url msg) s1)
      | (Response status body, s1) \<Rightarrow>
          (case JSON_parse w body of
             Inl e \<Rightarrow> list_endpoints w rest (log (NonJSONModels url (take 300 body)) s1)
           | Inr d \<Rightarrow>
               if truthy_opt (get_prop ''models'' (Some d)) \<or> truthy_opt (get_prop ''model'' (Some d))
               then (Some (or_else (get_prop ''models'' (Some d)) d),
                     log (ModelsListed (or_else (get_prop ''models'' (Some d)) d))
                       (log (ModelsResponse url) s1))
               else list_endpoints w rest s1))"

definition listAvailableModels :: "world \<Rightarrow> state \<Rightarrow> json \<times> state" where
  "listAvailableModels w s =
     (case list_endpoints w endpoints s of
        (Some r, s1) \<Rightarrow> (r, s1)
      | (None, s1) \<Rightarrow> (JNull, log CouldNotFetchList s1))"

subsection \<open>ensureWorkingModel\<close>

text \<open>
  The \<open>for\<close> loop over the candidates. \<open>Inr (Some m)\<close> is \<open>return model\<close>, \<open>Inr None\<close> is the
  loop running to its end, \<open>Inl\<close> an exception of \<open>tryModelGenerate\<close> passing through
  (the loop has no \<open>try\<close> of its own).
\<close>

fun try_candidates ::
  "world \<Rightarrow> string \<Rightarrow> string list \<Rightarrow> state \<Rightarrow> (exn + json option) \<times> state" where
  "try_candidates w promptForTest [] s = (Inr None, s)"
| "try_candidates w promptForTest (model # rest) s =
     (case tryModelGenerate w (JStr model) promptForTest s of
        (Inl e, s1) \<Rightarrow> (Inl e, s1)
      | (Inr a, s1) \<Rightarrow>
          if ok a then
            (Inr (Some (JStr model)), (log (WorkingModelFound model) s1)\<lparr>cachedModel := JStr model\<rparr>)
          else
            try_candidates w promptForTest rest
              (log (ModelFailed model (or_else (error a) (JStr ''no-text''))) s1))"

text \<open>\<open>m?.name || m?.model || m?.id || dflt\<close>.\<close>

definition name_model_id :: "json \<Rightarrow> json \<Rightarrow> json" where
  "name_model_id m dflt =
     or_else (get_prop ''name'' (Some m))
       (or_else (get_prop ''model'' (Some m)) (or_else (get_prop ''id'' (Some m)) dflt))"

text \<open>
  \<open>listed.find(m => /gemini/i.test(m?.name || m?.model || m?.id || ""))\<close>: the first entry
  whose name matches, \<open>undefined\<close> when none does; the test converts its argument to a
  string and so may throw.
\<close>

fun find_gemini :: "json list \<Rightarrow> exn + json option" where
  "find_gemini [] = Inr None"
| "find_gemini (m # ms) =
     (case ToString (name_model_id m (JStr [])) of
        None \<Rightarrow> Inl TypeError
      | Some str \<Rightarrow> if test_gemini str then Inr (Some m) else find_gemini ms)"

definition no_usable_model :: exn where
  "no_usable_model =
     Error ''No usable Gemini model found for generateContent with this API key.''"

text \<open>The last resort, after the loop: list the models and try the first Gemini-like one.\<close>

definition try_listed :: "world \<Rightarrow> string \<Rightarrow> state \<Rightarrow> (exn + json) \<times> state" where
  "try_listed w promptForTest s =
     (case listAvailableModels w s of
        (JArr (x # xs), s1) \<Rightarrow>
          (case find_gemini (x # xs) of
             Inl e \<Rightarrow> (Inl e, s1)
           | Inr found \<Rightarrow>
               (let geminiModel = or_else found x in
                if truthy geminiModel then
                  (let ident = name_model_id geminiModel geminiModel in
                   case ToString ident of
                     None \<Rightarrow> (Inl TypeError, s1)
                   | Some i \<Rightarrow>
                       (case tryModelGenerate w ident promptForTest (log (TryingListed i) s1) of
                          (Inl e, s2) \<Rightarrow> (Inl e, s2)
                        | (Inr attempt2, s2) \<Rightarrow>
                            if ok attempt2 then
                              (Inr ident, log (WorkingModelFromList i) (s2\<lparr>cachedModel := ident\<rparr>))
                            else (Inl no_usable_model, s2)))
                else (Inl no_usable_model, s1)))
      | (listed, s1) \<Rightarrow> (Inl no_usable_model, s1))"

definition ensureWorkingModel :: "world \<Rightarrow> string \<Rightarrow> state \<Rightarrow> (exn + json) \<times> state" where
  "ensureWorkingModel w promptForTest s =
     (if truthy (cachedModel s) then (Inr (cachedModel s), s)
      else
        (case try_candidates w promptForTest CANDIDATE_MODELS s of
           (Inl e, s1) \<Rightarrow> (Inl e, s1)
         | (Inr (Some model), s1) \<Rightarrow> (Inr model, s1)
         | (Inr None, s1) \<Rightarrow> try_listed w promptForTest s1))"

subsection \<open>callGemini\<close>

text \<open>
  \<open>new Error(result.error || "Gemini call failed")\<close> converts its argument to a string,
  which throws a TypeError instead when the conversion fails.
\<close>

definition new_Error :: "json \<Rightarrow> exn" where
  "new_Error v = (case ToString v of None \<Rightarrow> TypeError | Some m \<Rightarrow> Error m)"

definition callGemini :: "world \<Rightarrow> string \<Rightarrow> state \<Rightarrow> (exn + json option) \<times> state" where
  "callGemini w prompt s =
     (case ensureWorkingModel w prompt s of
        (Inl e, s1) \<Rightarrow> (Inl e, s1)
      | (Inr modelId, s1) \<Rightarrow>
          (case tryModelGenerate w modelId prompt s1 of
             (Inl e, s2) \<Rightarrow> (Inl e, s2)
           | (Inr result, s2) \<Rightarrow>
               if ok result then (Inr (text' result), s2)
               else (Inl (new_Error (or_else (error result) (JStr ''Gemini call failed''))), s2)))"

subsection \<open>The routes\<close>

text \<open>
  A handler receives \<open>req.body\<close> as \<open>express.json()\<close> left it (an object or an array, \<open>{}\<close>
  when the request carries no JSON) and answers with a status and a JSON body. \<open>res.json\<close>
  serialises the object it is given, which drops the properties whose value is
  \<open>undefined\<close>. Destructuring \<open>req.body\<close> would throw a TypeError if it were nullish; in this
  server the destructuring stands before the \<open>try\<close>, so that exception would leave the
  handler.
\<close>

record http_response =
  status_code :: nat
  json_body :: json

definition js_object :: "(string \<times> json option) list \<Rightarrow> json" where
  "js_object props = JObj (List.map_filter (\<lambda>(k, v). map_option (Pair k) v) props)"

text \<open>\<open>err.message || err\<close>; an Error object itself serialises as \<open>{}\<close>.\<close>

definition message_or_err :: "exn \<Rightarrow> json" where
  "message_or_err err = (if message err \<noteq> [] then JStr (message err) else JObj [])"

definition route_catch :: "string \<Rightarrow> exn \<Rightarrow> state \<Rightarrow> (exn + http_response) \<times> state" where
  "route_catch route err s =
     (Inr \<lparr>status_code = 500,
           json_body = js_object [(''error'', Some (JStr ''Gemini request failed'')),
                                  (''details'', Some (message_or_err err))]\<rparr>,
      log (RouteError route (message_or_err err)) s)"

text \<open>
  The part the three handlers share once the prompt template is chosen: the template
  literal converts \<open>text\<close> to a string, \<open>callGemini\<close> runs, and the answer carries the
  output under the handler's own key.
\<close>

definition route_try ::
  "world \<Rightarrow> string \<Rightarrow> string \<Rightarrow> string \<Rightarrow> json \<Rightarrow> state \<Rightarrow> (exn + http_response) \<times> state"
where
  "route_try w route template key txt s =
     (case ToString txt of
        None \<Rightarrow> route_catch route TypeError s
      | Some t \<Rightarrow>
          (case callGemini w (template @ t) s of
             (Inl err, s1) \<Rightarrow> route_catch route err s1
           | (Inr output, s1) \<Rightarrow>
               (Inr \<lparr>status_code = 200,
                     json_body = js_object [(''original'', Some txt), (key, output)]\<rparr>, s1)))"

definition humanize :: "world \<Rightarrow> json \<Rightarrow> state \<Rightarrow> (exn + http_response) \<times> state" where
  "humanize w req_body s =
     (if req_body = JNull then (Inl TypeError, s)
      else case get_prop ''text'' (Some req_body) of
        None \<Rightarrow>
          (Inr \<lparr>status_code = 400, json_body = js_object [(''error'', Some (JStr ''Text required''))]\<rparr>, s)
      | Some txt \<Rightarrow>
          if \<not> truthy txt then
            (Inr \<lparr>status_code = 400,
                  json_body = js_object [(''error'', Some (JStr ''Text required''))]\<rparr>, s)
          else
            route_try w ''/api/humanize''
              ''Make this text sound natural and human-like:\<newline>\<newline>'' ''humanized'' txt s)"

definition summarize :: "world \<Rightarrow> json \<Rightarrow> state \<Rightarrow> (exn + http_response) \<times> state" where
  "summarize w req_body s =
     (if req_body = JNull then (Inl TypeError, s)
      else case get_prop ''text'' (Some req_body) of
        None \<Rightarrow>
          (Inr \<lparr>status_code = 400, json_body = js_object [(''error'', Some (JStr ''Text required''))]\<rparr>, s)
      | Some txt \<Rightarrow>
          if \<not> truthy txt then
            (Inr \<lparr>status_code = 400,
                  json_body = js_object [(''error'', Some (JStr ''Text required''))]\<rparr>, s)
          else
            route_try w ''/api/summarize''
              ''Summarize this in 3-4 concise sentences:\<newline>\<newline>'' ''summary'' txt s)"

definition tone :: "world \<Rightarrow> json \<Rightarrow> state \<Rightarrow> (exn + http_response) \<times> state" where
  "tone w req_body s =
     (if req_body = JNull then (Inl TypeError, s)
      else if \<not> truthy_opt (get_prop ''text'' (Some req_body))
              \<or> \<not> truthy_opt (get_prop ''mode'' (Some req_body)) then
        (Inr \<lparr>status_code = 400,
              json_body = js_object [(''error'', Some (JStr ''Text and mode required''))]\<rparr>, s)
      else
        (case get_prop ''text'' (Some req_body) of
           None \<Rightarrow>
             (Inr \<lparr>status_code = 400,
                   json_body = js_object [(''error'', Some (JStr ''Text and mode required''))]\<rparr>, s)
         | Some txt \<Rightarrow>
             (let tone = (if get_prop ''mode'' (Some req_body) = Some (JStr ''formal'')
                          then ''Formal'' else ''Casual'')
              in route_try w ''/api/tone''
                   (''Rewrite the following text in a '' @ tone @ '' tone:\<newline>\<newline>'')
                   ''toned'' txt s)))"

text \<open>The callback of \<open>app.listen\<close> lists the models once, for the log only.\<close>

definition startup :: "world \<Rightarrow> state \<Rightarrow> state" where
  "startup w s = snd (listAvailableModels w s)"

section \<open>The backend server without a cache (backend/server.js)\<close>

definition GEMINI_MODELS :: "string list" where
  "GEMINI_MODELS = [''gemini-pro:generateContent'', ''gemini-1.5-flash:generateContent'']"

definition api_url :: "world \<Rightarrow> string \<Rightarrow> string" where
  "api_url w model =
     ''https://generativelanguage.googleapis.com/v1beta/models/'' @ model @ ''?key='' @ API_KEY w"

definition all_models_failed :: exn where
  "all_models_failed =
     Error (''All Gemini models failed or returned no result. '' @
            ''Check your API key and internet connection.'')"

text \<open>
  \<open>callGeminiAPI\<close> is the loop over a model list followed by the \<open>throw\<close>. A failed request and
  an unparseable body land in the \<open>catch\<close>, a status outside 200 to 299 in the \<open>if\<close>; all
  three log and \<open>continue\<close>. A parsed body with no text falls out of the \<open>try\<close> and the
  loop goes on with nothing logged.
\<close>

fun api_loop :: "world \<Rightarrow> string \<Rightarrow> string list \<Rightarrow> state \<Rightarrow> (exn + json) \<times> state" where
  "api_loop w prompt [] s = (Inl all_models_failed, s)"
| "api_loop w prompt (model # rest) s =
     (case do_fetch w (Post (api_url w model) prompt) s of
        (Threw msg, s1) \<Rightarrow>
          api_loop w prompt rest (log (NetworkErrorWith model (FetchError msg)) s1)
      | (Response status r, s1) \<Rightarrow>
          if \<not> res_ok status then api_loop w prompt rest (log (GeminiRawResponse model r) s1)
          else
            (case JSON_parse w r of
               Inl e \<Rightarrow> api_loop w prompt rest (log (NetworkErrorWith model (SyntaxError e)) s1)
             | Inr d \<Rightarrow>
                 (case get_prop ''text'' (idx0 (get_prop ''parts'' (get_prop ''content''
                         (idx0 (get_prop ''candidates'' (Some d)))))) of
                    None \<Rightarrow> api_loop w prompt rest s1
                  | Some result \<Rightarrow>
                      if truthy result then (Inr result, s1) else api_loop w prompt rest s1)))"

definition callGeminiAPI :: "world \<Rightarrow> string \<Rightarrow> state \<Rightarrow> (exn + json) \<times> state" where
  "callGeminiAPI w prompt s = api_loop w prompt GEMINI_MODELS s"

text \<open>
  In this server the whole handler body, destructuring included, is inside the \<open>try\<close>, and
  the \<open>catch\<close> answers 500 with an \<open>error\<close> property only.
\<close>

definition backend_catch :: "string \<Rightarrow> exn \<Rightarrow> state \<Rightarrow> http_response \<times> state" where
  "backend_catch label err s =
     (\<lparr>status_code = 500,
       json_body = js_object [(''error'', Some (JStr ''Error contacting Gemini API''))]\<rparr>,
      log (HandlerError label err) s)"

definition backend_try ::
  "world \<Rightarrow> string \<Rightarrow> string \<Rightarrow> json \<Rightarrow> state \<Rightarrow> http_response \<times> state" where
  "backend_try w label template txt s =
     (case ToString txt of
        None \<Rightarrow> backend_catch label TypeError s
      | Some t \<Rightarrow>
          (case callGeminiAPI w (template @ t) s of
             (Inl err, s1) \<Rightarrow> backend_catch label err s1
           | (Inr result, s1) \<Rightarrow>
               (\<lparr>status_code = 200, json_body = js_object [(''result'', Some result)]\<rparr>, s1)))"

definition backend_humanize :: "world \<Rightarrow> json \<Rightarrow> state \<Rightarrow> http_response \<times> state" where
  "backend_humanize w req_body s =
     (if req_body = JNull then backend_catch ''Humanize Error:'' TypeError s
      else if \<not> truthy_opt (get_prop ''text'' (Some req_body)) then
        (\<lparr>status_code = 400,
          json_body = js_object [(''error'', Some (JStr ''Text is required''))]\<rparr>, s)
      else
        (case get_prop ''text'' (Some req_body) of
           None \<Rightarrow>
             (\<lparr>status_code = 400,
               json_body = js_object [(''error'', Some (JStr ''Text is required''))]\<rparr>, s)
         | Some txt \<Rightarrow>
             backend_try w ''Humanize Error:''
               ''Paraphrase this text to sound natural:\<newline>'' txt s))"

definition backend_summarize :: "world \<Rightarrow> json \<Rightarrow> state \<Rightarrow> http_response \<times> state" where
  "backend_summarize w req_body s =
     (if req_body = JNull then backend_catch ''Summarize Error:'' TypeError s
      else if \<not> truthy_opt (get_prop ''text'' (Some req_body)) then
        (\<lparr>status_code = 400,
          json_body = js_object [(''error'', Some (JStr ''Text is required''))]\<rparr>, s)
      else
        (case get_prop ''text'' (Some req_body) of
           None \<Rightarrow>
             (\<lparr>status_code = 400,
               json_body = js_object [(''error'', Some (JStr ''Text is required''))]\<rparr>, s)
         | Some txt \<Rightarrow>
             backend_try w ''Summarize Error:''
               ''Summarize this text in 3-4 concise sentences:\<newline>'' txt s))"

definition backend_tone :: "world \<Rightarrow> json \<Rightarrow> state \<Rightarrow> http_response \<times> state" where
  "backend_tone w req_body s =
     (if req_body = JNull then backend_catch ''Tone Error:'' TypeError s
      else if \<not> truthy_opt (get_prop ''text'' (Some req_body))
              \<or> \<not> truthy_opt (get_prop ''mode'' (Some req_body)) then
        (\<lparr>status_code = 400,
          json_body = js_object [(''error'', Some (JStr ''Text and mode required''))]\<rparr>, s)
      else
        (case get_prop ''text'' (Some req_body) of
           None \<Rightarrow>
             (\<lparr>status_code = 400,
               json_body = js_object [(''error'', Some (JStr ''Text and mode required''))]\<rparr>, s)
         | Some txt \<Rightarrow>
             (let tone = (if get_prop ''mode'' (Some req_body) = Some (JStr ''formal'')
                          then ''formal'' else ''casual'')
              in backend_try w ''Tone Error:''
                   (''Rewrite this text in a '' @ tone @ '' tone:\<newline>'') txt s)))"

section \<open>One attempt, read off the provider's reply\<close>

text \<open>
  What \<open>tryModelGenerate\<close> makes of a reply, without the state: the attempt object, the
  two console lines, and whether the attempt counts as a success (a status in 200 to 299,
  a body that parses, and a truthy extracted text).
\<close>

definition attempt_of :: "world \<Rightarrow> reply \<Rightarrow> attempt" where
  "attempt_of w rep =
     (case rep of
        Threw msg \<Rightarrow>
          \<lparr>ok = False, text' = None, error = Some (JStr msg), raw = None, data = None\<rparr>
      | Response status r \<Rightarrow>
          (case JSON_parse w r of
             Inl e \<Rightarrow>
               \<lparr>ok = False, text' = None, error = Some (JStr ''Invalid JSON response''),
                raw = Some r, data = None\<rparr>
           | Inr d \<Rightarrow>
               if res_ok status \<and> truthy (extract_text d) then
                 \<lparr>ok = True, text' = Some (extract_text d), error = None, raw = Some r,
                  data = Some d\<rparr>
               else if truthy_opt (get_prop ''error'' (Some d)) then
                 \<lparr>ok = False, text' = None, error = get_prop ''error'' (Some d), raw = Some r,
                  data = Some d\<rparr>
               else
                 \<lparr>ok = False, text' = None, error = Some (JStr ''No text found in response''),
                  raw = Some r, data = Some d\<rparr>))"

definition reply_logs :: "string \<Rightarrow> reply \<Rightarrow> logline list" where
  "reply_logs m rep =
     (case rep of Threw msg \<Rightarrow> []
      | Response status r \<Rightarrow> [TriedModel m status, RawResponse (take 800 r)])"

definition reply_success :: "world \<Rightarrow> reply \<Rightarrow> bool" where
  "reply_success w rep =
     (case rep of Threw msg \<Rightarrow> False
      | Response status r \<Rightarrow>
          res_ok status \<and> (case JSON_parse w r of Inl e \<Rightarrow> False | Inr d \<Rightarrow> truthy (extract_text d)))"

text \<open>The console lines of a run of failed candidates, the first request being number \<open>n\<close>.\<close>

fun failure_log :: "world \<Rightarrow> string \<Rightarrow> nat \<Rightarrow> string list \<Rightarrow> logline list" where
  "failure_log w p n [] = []"
| "failure_log w p n (m # ms) =
     reply_logs m (fetch w n (Post (generate_url w m) p)) @
     [ModelFailed m
        (or_else (error (attempt_of w (fetch w n (Post (generate_url w m) p)))) (JStr ''no-text''))] @
     failure_log w p (Suc n) ms"

section \<open>The extraction paths as a list\<close>

text \<open>
  The seven paths of \<open>extract_text\<close> in order, the first truthy value of a list (what the
  chain of \<open>||\<close> ending in \<open>null\<close> computes), and the first non-empty string of a list (what
  the specification describes).
\<close>

definition shapes :: "json \<Rightarrow> json option list" where
  "shapes d =
     (let c0 = idx0 (get_prop ''candidates'' (Some d)) in
      [get_prop ''text'' (idx0 (get_prop ''parts'' (get_prop ''content'' c0))),
       get_prop ''text'' (idx0 (get_prop ''content'' c0)),
       get_prop ''text'' (idx0 (get_prop ''parts'' (get_prop ''content'' c0))),
       get_prop ''text'' c0,
       get_prop ''text'' (idx0 (get_prop ''content'' (idx0 (get_prop ''output'' (Some d))))),
       get_prop ''text'' (idx0 (get_prop ''parts'' (idx0 (get_prop ''content'' (Some d))))),
       get_prop ''text''
         (idx0 (get_prop ''parts'' (get_prop ''content'' (get_prop ''message'' c0))))])"

fun first_nonempty_string :: "json option list \<Rightarrow> string option" where
  "first_nonempty_string [] = None"
| "first_nonempty_string (Some (JStr t) # xs) = (if t \<noteq> [] then Some t else first_nonempty_string xs)"
| "first_nonempty_string (x # xs) = first_nonempty_string xs"

fun first_truthy :: "json option list \<Rightarrow> json" where
  "first_truthy [] = JNull"
| "first_truthy (None # xs) = first_truthy xs"
| "first_truthy (Some v # xs) = (if truthy v then v else first_truthy xs)"

section \<open>Example providers\<close>

text \<open>
  Concrete worlds on which the theorems below are run: a provider whose bodies carry no
  text, the scenario of a 503 followed by a 200 with text, and a provider whose text
  field is a number.
\<close>

definition no_text_world :: world where
  "no_text_world =
     \<lparr>API_KEY = ''k'', fetch = (\<lambda>n r. Response 200 ''{}''),
       JSON_parse = (\<lambda>r. if r = ''{}'' then Inr (JObj []) else Inl ''Unexpected token'')\<rparr>"

definition scenario_world :: world where
  "scenario_world =
     \<lparr>API_KEY = ''k'',
       fetch = (\<lambda>n r. if n = 0 then Response 503 ''busy'' else Response 200 ''fine''),
       JSON_parse = (\<lambda>r.
          if r = ''busy'' then Inr (JObj [(''error'', JObj [(''code'', JNum ''503'')])])
          else if r = ''fine'' then
            Inr (JObj [(''candidates'', JArr [JObj [(''content'',
                   JObj [(''parts'', JArr [JObj [(''text'', JStr ''Hi there'')]])])]])])
          else Inl ''Unexpected token'')\<rparr>"

definition numeric_text_world :: world where
  "numeric_text_world =
     \<lparr>API_KEY = ''k'', fetch = (\<lambda>n r. Response 200 ''seven''),
       JSON_parse = (\<lambda>r.
          if r = ''seven'' then Inr (JObj [(''candidates'', JArr [JObj [(''text'', JNum ''7'')]])])
          else Inl ''Unexpected token'')\<rparr>"

text \<open>
  A provider that gives the same reply to every request, with the parser to go with it:
  one that rejects every body, one that reads every body as \<open>{}\<close>.
\<close>

definition const_world :: "reply \<Rightarrow> (string \<Rightarrow> string + json) \<Rightarrow> world" where
  "const_world rep parse = \<lparr>API_KEY = ''k'', fetch = (\<lambda>n r. rep), JSON_parse = parse\<rparr>"

definition no_json :: "string \<Rightarrow> string + json" where
  "no_json r = Inl ''Unexpected token < in JSON at position 0''"

definition empty_object :: "string \<Rightarrow> string + json" where
  "empty_object r = Inr (JObj [])"

text \<open>
  A body with text at the first path, a provider that answers the second request with a
  different text than the first, and one that answers the first request and drops the
  second.
\<close>

definition text_body :: "string \<Rightarrow> json" where
  "text_body t =
     JObj [(''candidates'', JArr [JObj [(''content'',
             JObj [(''parts'', JArr [JObj [(''text'', JStr t)]])])]])]"

definition changing_world :: world where
  "changing_world =
     \<lparr>API_KEY = ''k'',
       fetch = (\<lambda>n r. if n = 0 then Response 200 ''first'' else Response 200 ''second''),
       JSON_parse = (\<lambda>r.
          if r = ''first'' then Inr (text_body ''Hi there'')
          else if r = ''second'' then Inr (text_body ''Bye'')
          else Inl ''Unexpected token'')\<rparr>"

definition flaky_world :: world where
  "flaky_world =
     \<lparr>API_KEY = ''k'',
       fetch = (\<lambda>n r. if n = 0 then Response 200 ''fine'' else Threw ''socket hang up''),
       JSON_parse = (\<lambda>r.
          if r = ''fine'' then Inr (text_body ''Hi there'') else Inl ''Unexpected token'')\<rparr>"

section \<open>What a call sends and when the cache is written\<close>

text \<open>
  \<open>grows p s s'\<close>: the requests of \<open>s'\<close> are those of \<open>s\<close> followed by new ones, and every new
  POST carries the prompt \<open>p\<close>. \<open>set_by_success w p s s'\<close>: the cache of \<open>s'\<close> holds a truthy
  identifier, and among the requests sent since \<open>s\<close> is a generation request for that
  identifier which the provider answered with a success.
\<close>

definition grows :: "string \<Rightarrow> state \<Rightarrow> state \<Rightarrow> bool" where
  "grows p s s' = (\<exists>new. sent s' = sent s @ new \<and> (\<forall>u q. Post u q \<in> set new \<longrightarrow> q = p))"

definition set_by_success :: "world \<Rightarrow> string \<Rightarrow> state \<Rightarrow> state \<Rightarrow> bool" where
  "set_by_success w p s s' =
     (truthy (cachedModel s') \<and>
      (\<exists>m n. ToString (cachedModel s') = Some m \<and> length (sent s) \<le> n \<and> n < length (sent s') \<and>
             sent s' ! n = Post (generate_url w m) p \<and>
             reply_success w (fetch w n (Post (generate_url w m) p))))"

text \<open>
  \<open>sends_nonempty_prompts s s'\<close>: the requests of \<open>s'\<close> are those of \<open>s\<close> followed by new ones,
  and no new POST carries an empty prompt. \<open>cache_inv\<close>: the cache is \<open>null\<close> or a truthy
  identifier that converts to a string.
\<close>

definition sends_nonempty_prompts :: "state \<Rightarrow> state \<Rightarrow> bool" where
  "sends_nonempty_prompts s s' =
     (\<exists>new. sent s' = sent s @ new \<and> (\<forall>u q. Post u q \<in> set new \<longrightarrow> q \<noteq> []))"

definition cache_inv :: "state \<Rightarrow> bool" where
  "cache_inv s =
     (cachedModel s = JNull \<or> (truthy (cachedModel s) \<and> (\<exists>m. ToString (cachedModel s) = Some m)))"

text \<open>A provider that cannot be reached at all.\<close>

definition down_world :: world where
  "down_world =
     \<lparr>API_KEY = ''k'', fetch = (\<lambda>n r. Threw ''connect ECONNREFUSED''),
       JSON_parse = (\<lambda>r. Inl ''Unexpected end of JSON input'')\<rparr>"

section \<open>The listing fallback\<close>

text \<open>
  The state in which \<open>ensureWorkingModel\<close> reaches the listing, every candidate having
  failed; the test that \<open>find\<close> applies to a listed entry; and a provider that rejects every
  generation request and lists two models, the second one Gemini-like.
\<close>

definition after_candidates :: "world \<Rightarrow> string \<Rightarrow> state \<Rightarrow> state" where
  "after_candidates w p s =
     s\<lparr>sent := sent s @ map (\<lambda>m. Post (generate_url w m) p) CANDIDATE_MODELS,
       console := console s @ failure_log w p (length (sent s)) CANDIDATE_MODELS\<rparr>"

definition gemini_like :: "json \<Rightarrow> bool" where
  "gemini_like m =
     (case ToString (name_model_id m (JStr [])) of None \<Rightarrow> False | Some str \<Rightarrow> test_gemini str)"

definition listing_world :: world where
  "listing_world =
     \<lparr>API_KEY = ''k'',
       fetch = (\<lambda>n r. case r of Get u \<Rightarrow> Response 200 ''models''
                        | Post u q \<Rightarrow> Threw ''fetch failed''),
       JSON_parse = (\<lambda>r.
          if r = ''models'' then
            Inr (JObj [(''models'', JArr [JObj [(''name'', JStr ''models/text-bison'')],
                                          JObj [(''name'', JStr ''models/Gemini-pro'')]])])
          else Inl ''Unexpected token'')\<rparr>"

section \<open>Success in the backend server\<close>

text \<open>
  What \<open>callGeminiAPI\<close> takes for a success: a status in 200 to 299, a body that parses, and
  a truthy value at the one path it reads.
\<close>

definition backend_success :: "world \<Rightarrow> reply \<Rightarrow> bool" where
  "backend_success w rep =
     (case rep of Threw msg \<Rightarrow> False
      | Response status r \<Rightarrow>
          res_ok status \<and>
          (case JSON_parse w r of Inl e \<Rightarrow> False
           | Inr d \<Rightarrow> truthy_opt (get_prop ''text'' (idx0 (get_prop ''parts''
                        (get_prop ''content'' (idx0 (get_prop ''candidates'' (Some d)))))))))"

section \<open>Calls that overlap\<close>

text \<open>
  The functions of the model so far follow one call of \<open>callGemini\<close> from its start to
  its end. In the running server a call gives way at each \<open>await\<close>, and while it waits for
  the provider another request may start a call of its own; all calls share the one
  variable \<open>cachedModel\<close>. This section cuts the same code at the awaits that wait for
  the provider: the \<open>await fetch(...)\<close> of \<open>tryModelGenerate\<close> and of
  \<open>listAvailableModels\<close>, each with the \<open>await res.text()\<close> that follows it (nothing is
  read or written between the two). The code between two cuts runs without
  interruption. The other awaits wait for an async function of the program itself and
  go on in the same turn of the event loop, before a new request or reply is handled;
  they are not cuts.

  A \<open>task\<close> is a call stopped at a cut. It holds the local variables the rest of the call
  reads and the number of the request it waits for; the reply to request number \<open>n\<close> is
  \<open>fetch w n\<close> of that request, as before.
  \<^item> \<open>AwaitCandidate prompt model rest n\<close>: in the loop of \<open>ensureWorkingModel\<close>, at the
    attempt of \<open>model\<close>, with the candidates \<open>rest\<close> still to come;
  \<^item> \<open>AwaitListing prompt url rest n\<close>: in the loop of \<open>listAvailableModels\<close> called from
    \<open>ensureWorkingModel\<close>, at the request to \<open>url\<close>;
  \<^item> \<open>AwaitListed prompt id i n\<close>: at the attempt of the listed identifier \<open>id\<close>, whose
    string is \<open>i\<close>;
  \<^item> \<open>AwaitFinal prompt m n\<close>: at the request of \<open>callGemini\<close> itself, to the model \<open>m\<close>
    that \<open>ensureWorkingModel\<close> returned;
  \<^item> \<open>AwaitStartup url rest n\<close>: in the loop of \<open>listAvailableModels\<close> called from the
    callback of \<open>app.listen\<close>;
  \<^item> \<open>Done r\<close>: the call has returned or thrown; \<open>Started\<close>: the start-up listing is over.
\<close>

datatype task =
    AwaitCandidate string string "string list" nat
  | AwaitListing string string "string list" nat
  | AwaitListed string json string nat
  | AwaitFinal string string nat
  | AwaitStartup string "string list" nat
  | Done "exn + json option"
  | Started

definition send :: "request \<Rightarrow> state \<Rightarrow> state" where
  "send r s = s\<lparr>sent := sent s @ [r]\<rparr>"

text \<open>
  \<open>callGemini\<close> after \<open>ensureWorkingModel\<close> has returned \<open>modelId\<close>: \<open>tryModelGenerate\<close> builds
  the URL, which converts the identifier to a string, and sends the request.
\<close>

definition final_call :: "world \<Rightarrow> string \<Rightarrow> json \<Rightarrow> state \<Rightarrow> task \<times> state" where
  "final_call w prompt modelId s =
     (case ToString modelId of
        None \<Rightarrow> (Done (Inl TypeError), s)
      | Some m \<Rightarrow> (AwaitFinal prompt m (length (sent s)), send (Post (generate_url w m) prompt) s))"

text \<open>
  \<open>ensureWorkingModel\<close> after \<open>listAvailableModels\<close> has returned \<open>listed\<close>: the choice of the
  entry and the request of its attempt.
\<close>

definition call_listed :: "world \<Rightarrow> string \<Rightarrow> json \<Rightarrow> state \<Rightarrow> task \<times> state" where
  "call_listed w prompt listed s =
     (case listed of
        JArr (x # xs) \<Rightarrow>
          (case find_gemini (x # xs) of
             Inl e \<Rightarrow> (Done (Inl e), s)
           | Inr found \<Rightarrow>
               (let geminiModel = or_else found x in
                if truthy geminiModel then
                  (let ident = name_model_id geminiModel geminiModel in
                   case ToString ident of
                     None \<Rightarrow> (Done (Inl TypeError), s)
                   | Some i \<Rightarrow>
                       (AwaitListed prompt ident i (length (sent s)),
                        send (Post (generate_url w i) prompt) (log (TryingListed i) s)))
                else (Done (Inl no_usable_model), s)))
      | _ \<Rightarrow> (Done (Inl no_usable_model), s))"

text \<open>
  The head of an iteration of the loop over the listing endpoints, of the loop over the
  candidates, and the start of a call; after the last candidate comes the listing, after
  the last endpoint the warning and the value \<open>null\<close>.
\<close>

definition next_endpoint :: "world \<Rightarrow> string \<Rightarrow> string list \<Rightarrow> state \<Rightarrow> task \<times> state" where
  "next_endpoint w prompt urls s =
     (case urls of
        [] \<Rightarrow> call_listed w prompt JNull (log CouldNotFetchList s)
      | url # rest \<Rightarrow> (AwaitListing prompt url rest (length (sent s)), send (Get url) s))"

definition next_candidate :: "world \<Rightarrow> string \<Rightarrow> string list \<Rightarrow> state \<Rightarrow> task \<times> state" where
  "next_candidate w prompt cands s =
     (case cands of
        [] \<Rightarrow> next_endpoint w prompt endpoints s
      | model # rest \<Rightarrow>
          (AwaitCandidate prompt model rest (length (sent s)),
           send (Post (generate_url w model) prompt) s))"

definition begin_call :: "world \<Rightarrow> string \<Rightarrow> state \<Rightarrow> task \<times> state" where
  "begin_call w prompt s =
     (if truthy (cachedModel s) then final_call w prompt (cachedModel s) s
      else next_candidate w prompt CANDIDATE_MODELS s)"

definition startup_endpoint :: "string list \<Rightarrow> state \<Rightarrow> task \<times> state" where
  "startup_endpoint urls s =
     (case urls of
        [] \<Rightarrow> (Started, log CouldNotFetchList s)
      | url # rest \<Rightarrow> (AwaitStartup url rest (length (sent s)), send (Get url) s))"

text \<open>
  What the reply of one listing endpoint gives: the value that \<open>listAvailableModels\<close>
  returns, or nothing, and then the loop goes on. What the reply of one generation request
  gives: the attempt object and the two log lines.
\<close>

definition endpoint_reply :: "world \<Rightarrow> string \<Rightarrow> reply \<Rightarrow> state \<Rightarrow> json option \<times> state" where
  "endpoint_reply w url rep s =
     (case rep of
        Threw msg \<Rightarrow> (None, log (CouldNotList url msg) s)
      | Response status body \<Rightarrow>
          (case JSON_parse w body of
             Inl e \<Rightarrow> (None, log (NonJSONModels url (take 300 body)) s)
           | Inr d \<Rightarrow>
               if truthy_opt (get_prop ''models'' (Some d)) \<or> truthy_opt (get_prop ''model'' (Some d))
               then (Some (or_else (get_prop ''models'' (Some d)) d),
                     log (ModelsListed (or_else (get_prop ''models'' (Some d)) d))
                       (log (ModelsResponse url) s))
               else (None, s)))"

definition attempt_reply :: "world \<Rightarrow> string \<Rightarrow> string \<Rightarrow> nat \<Rightarrow> state \<Rightarrow> attempt \<times> state" where
  "attempt_reply w m prompt n s =
     (attempt_of w (fetch w n (Post (generate_url w m) prompt)),
      s\<lparr>console := console s @ reply_logs m (fetch w n (Post (generate_url w m) prompt))\<rparr>)"

text \<open>
  \<open>resume w t s\<close>: the reply that task \<open>t\<close> waits for has arrived; the call runs on to its
  next cut or to its end. The two assignments to \<open>cachedModel\<close> are here, in the first and
  the third equation: neither looks at the variable again, the test of line 121 was made
  when the call started.
\<close>

fun resume :: "world \<Rightarrow> task \<Rightarrow> state \<Rightarrow> task \<times> state" where
  "resume w (AwaitCandidate prompt model rest n) s =
     (case attempt_reply w model prompt n s of
        (a, s1) \<Rightarrow>
          if ok a then
            final_call w prompt (JStr model)
              ((log (WorkingModelFound model) s1)\<lparr>cachedModel := JStr model\<rparr>)
          else
            next_candidate w prompt rest
              (log (ModelFailed model (or_else (error a) (JStr ''no-text''))) s1))"
| "resume w (AwaitListing prompt url rest n) s =
     (case endpoint_reply w url (fetch w n (Get url)) s of
        (Some listed, s1) \<Rightarrow> call_listed w prompt listed s1
      | (None, s1) \<Rightarrow> next_endpoint w prompt rest s1)"
| "resume w (AwaitListed prompt ident i n) s =
     (case attempt_reply w i prompt n s of
        (attempt2, s1) \<Rightarrow>
          if ok attempt2 then
            final_call w prompt ident (log (WorkingModelFromList i) (s1\<lparr>cachedModel := ident\<rparr>))
          else (Done (Inl no_usable_model), s1))"
| "resume w (AwaitFinal prompt m n) s =
     (case attempt_reply w m prompt n s of
        (result, s1) \<Rightarrow>
          if ok result then (Done (Inr (text' result)), s1)
          else (Done (Inl (new_Error (or_else (error result) (JStr ''Gemini call failed'')))), s1))"
| "resume w (AwaitStartup url rest n) s =
     (case endpoint_reply w url (fetch w n (Get url)) s of
        (Some listed, s1) \<Rightarrow> (Started, s1)
      | (None, s1) \<Rightarrow> startup_endpoint rest s1)"
| "resume w (Done r) s = (Done r, s)"
| "resume w Started s = (Started, s)"

text \<open>
  What happens in the process, one event at a time. \<open>Call prompt\<close>: a route handler whose
  body passed the validation calls \<open>callGemini\<close>; \<open>Listen\<close>: the callback of \<open>app.listen\<close>
  starts its listing; \<open>Reply k\<close>: the reply arrives that the task number \<open>k\<close> waits for
  (tasks are numbered in the order they started; for a task that is over, or a number
  not in use, nothing happens). What a handler does with the outcome of its call, the
  response and a line on the console, is left out here. \<open>exec\<close> runs a list of events.
\<close>

datatype event = Call string | Listen | Reply nat

fun handle :: "world \<Rightarrow> event \<Rightarrow> state \<times> task list \<Rightarrow> state \<times> task list" where
  "handle w (Call prompt) (s, ts) = (case begin_call w prompt s of (t, s1) \<Rightarrow> (s1, ts @ [t]))"
| "handle w Listen (s, ts) = (case startup_endpoint endpoints s of (t, s1) \<Rightarrow> (s1, ts @ [t]))"
| "handle w (Reply k) (s, ts) =
     (if k < length ts then (case resume w (ts ! k) s of (t, s1) \<Rightarrow> (s1, ts[k := t]))
      else (s, ts))"

fun exec :: "world \<Rightarrow> event list \<Rightarrow> state \<times> task list \<Rightarrow> state \<times> task list" where
  "exec w [] c = c"
| "exec w (e # es) c = exec w es (handle w e c)"

text \<open>
  \<open>finish w n\<close> lets a task receive \<open>n\<close> replies while nothing else happens, and
  \<open>completes w c r\<close> says that some number of replies takes \<open>c\<close> to \<open>r\<close>. \<open>after_model\<close> is
  the part of \<open>callGemini\<close> after \<open>ensureWorkingModel\<close>, \<open>listed_part\<close> the part of
  \<open>ensureWorkingModel\<close> after \<open>listAvailableModels\<close>, and \<open>listing_result\<close> the end of
  \<open>listAvailableModels\<close>, all three as the functions of the model run them.
\<close>

fun finish :: "world \<Rightarrow> nat \<Rightarrow> task \<times> state \<Rightarrow> task \<times> state" where
  "finish w 0 c = c"
| "finish w (Suc n) (t, s) = finish w n (resume w t s)"

definition completes :: "world \<Rightarrow> task \<times> state \<Rightarrow> task \<times> state \<Rightarrow> bool" where
  "completes w c r = (\<exists>n. finish w n c = r)"

definition after_model :: "world \<Rightarrow> string \<Rightarrow> (exn + json) \<times> state \<Rightarrow> task \<times> state" where
  "after_model w prompt r =
     (case r of
        (Inl e, s1) \<Rightarrow> (Done (Inl e), s1)
      | (Inr modelId, s1) \<Rightarrow>
          (case tryModelGenerate w modelId prompt s1 of
             (Inl e, s2) \<Rightarrow> (Done (Inl e), s2)
           | (Inr result, s2) \<Rightarrow>
               if ok result then (Done (Inr (text' result)), s2)
               else (Done (Inl (new_Error (or_else (error result) (JStr ''Gemini call failed'')))),
                     s2)))"

definition listed_part :: "world \<Rightarrow> string \<Rightarrow> json \<times> state \<Rightarrow> (exn + json) \<times> state" where
  "listed_part w promptForTest r =
     (case r of
        (JArr (x # xs), s1) \<Rightarrow>
          (case find_gemini (x # xs) of
             Inl e \<Rightarrow> (Inl e, s1)
           | Inr found \<Rightarrow>
               (let geminiModel = or_else found x in
                if truthy geminiModel then
                  (let ident = name_model_id geminiModel geminiModel in
                   case ToString ident of
                     None \<Rightarrow> (Inl TypeError, s1)
                   | Some i \<Rightarrow>
                       (case tryModelGenerate w ident promptForTest (log (TryingListed i) s1) of
                          (Inl e, s2) \<Rightarrow> (Inl e, s2)
                        | (Inr attempt2, s2) \<Rightarrow>
                            if ok attempt2 then
                              (Inr ident, log (WorkingModelFromList i) (s2\<lparr>cachedModel := ident\<rparr>))
                            else (Inl no_usable_model, s2)))
                else (Inl no_usable_model, s1)))
      | (listed, s1) \<Rightarrow> (Inl no_usable_model, s1))"

definition listing_result :: "json option \<times> state \<Rightarrow> json \<times> state" where
  "listing_result r = (case r of (Some l, s1) \<Rightarrow> (l, s1) | (None, s1) \<Rightarrow> (JNull, log CouldNotFetchList s1))"

text \<open>
  \<open>writes w t\<close>: the identifier that task \<open>t\<close> assigns to \<open>cachedModel\<close> when its reply
  arrives, if it assigns one: \<open>t\<close> waits for an attempt made to resolve a model and the
  provider answers that attempt with a success. \<open>resolving t\<close>: the call is still inside
  \<open>ensureWorkingModel\<close>. \<open>quiet ts\<close>: no task is. \<open>wf_task\<close> and \<open>task_inv\<close> hold of every
  task and state the process can reach: identifiers under attempt are truthy and have a
  string, and the cache is \<open>null\<close> or such an identifier.
\<close>

fun writes :: "world \<Rightarrow> task \<Rightarrow> json option" where
  "writes w (AwaitCandidate prompt model rest n) =
     (if reply_success w (fetch w n (Post (generate_url w model) prompt)) then Some (JStr model)
      else None)"
| "writes w (AwaitListed prompt ident i n) =
     (if reply_success w (fetch w n (Post (generate_url w i) prompt)) then Some ident else None)"
| "writes w t = None"

fun resolving :: "task \<Rightarrow> bool" where
  "resolving (AwaitCandidate prompt model rest n) = True"
| "resolving (AwaitListing prompt url rest n) = True"
| "resolving (AwaitListed prompt ident i n) = True"
| "resolving t = False"

fun wf_task :: "task \<Rightarrow> bool" where
  "wf_task (AwaitCandidate prompt model rest n) = (model \<noteq> [] \<and> (\<forall>m\<in>set rest. m \<noteq> []))"
| "wf_task (AwaitListed prompt ident i n) = (truthy ident \<and> ToString ident = Some i)"
| "wf_task t = True"

definition quiet :: "task list \<Rightarrow> bool" where
  "quiet ts = list_all (\<lambda>t. \<not> resolving t) ts"

definition task_inv :: "state \<times> task list \<Rightarrow> bool" where
  "task_inv c = (cache_inv (fst c) \<and> list_all wf_task (snd c))"

text \<open>
  A provider that is busy once: it answers the second request it receives with 503 and
  every other request with a text.
\<close>

definition overlap_world :: world where
  "overlap_world =
     \<lparr>API_KEY = ''k'',
       fetch = (\<lambda>n r. if n = 1 then Response 503 ''busy'' else Response 200 ''fine''),
       JSON_parse = (\<lambda>r.
          if r = ''fine'' then Inr (text_body ''Hi there'') else Inl ''Unexpected token'')\<rparr>"

lemma tryModelGenerate_Some:
  assumes "ToString modelId = Some m"
  shows "tryModelGenerate w modelId prompt s =
           (Inr (attempt_of w (fetch w (length (sent s)) (Post (generate_url w m) prompt))),
            s\<lparr>sent := sent s @ [Post (generate_url w m) prompt],
              console := console s @
                reply_logs m (fetch w (length (sent s)) (Post (generate_url w m) prompt))\<rparr>)"
  using assms
  by (simp add: tryModelGenerate_def tryModelGenerate_try_def do_fetch_def log_def attempt_of_def
      reply_logs_def Let_def split: reply.splits sum.splits)

lemma ok_attempt_of: "ok (attempt_of w rep) = reply_success w rep"
  by (simp add: attempt_of_def reply_success_def split: reply.splits sum.splits)

lemma try_candidates_failures:
  "(\<forall>i<length pre. \<not> reply_success w
        (fetch w (length (sent s) + i) (Post (generate_url w (pre ! i)) p))) \<Longrightarrow>
   try_candidates w p (pre @ rest) s =
     try_candidates w p rest
       (s\<lparr>sent := sent s @ map (\<lambda>m. Post (generate_url w m) p) pre,
          console := console s @ failure_log w p (length (sent s)) pre\<rparr>)"
proof (induction pre arbitrary: s)
  case Nil
  then show ?case by simp
next
  case (Cons m pre)
  let ?rq = "Post (generate_url w m) p"
  let ?rep = "fetch w (length (sent s)) ?rq"
  let ?s1 = "log (ModelFailed m (or_else (error (attempt_of w ?rep)) (JStr ''no-text'')))
               (s\<lparr>sent := sent s @ [?rq], console := console s @ reply_logs m ?rep\<rparr>)"
  from Cons.prems have fail: "\<not> reply_success w ?rep"
    by (metis add.right_neutral length_greater_0_conv list.distinct(1) nth_Cons_0)
  have later: "\<forall>i<length pre. \<not> reply_success w
        (fetch w (length (sent ?s1) + i) (Post (generate_url w (pre ! i)) p))"
  proof (intro allI impI)
    fix i assume "i < length pre"
    then have "Suc i < length (m # pre)" by simp
    with Cons.prems have "\<not> reply_success w
        (fetch w (length (sent s) + Suc i) (Post (generate_url w ((m # pre) ! Suc i)) p))"
      by blast
    then show "\<not> reply_success w
        (fetch w (length (sent ?s1) + i) (Post (generate_url w (pre ! i)) p))"
      by (simp add: log_def)
  qed
  have step: "try_candidates w p ((m # pre) @ rest) s = try_candidates w p (pre @ rest) ?s1"
    using fail by (simp add: tryModelGenerate_Some ok_attempt_of)
  show ?case
    unfolding step Cons.IH [OF later]
    by (simp add: log_def)
qed

lemma try_candidates_success:
  "reply_success w (fetch w (length (sent s)) (Post (generate_url w m) p)) \<Longrightarrow>
   try_candidates w p (m # rest) s =
     (Inr (Some (JStr m)),
      s\<lparr>cachedModel := JStr m,
        sent := sent s @ [Post (generate_url w m) p],
        console := console s @ reply_logs m (fetch w (length (sent s)) (Post (generate_url w m) p))
                     @ [WorkingModelFound m]\<rparr>)"
  by (simp add: tryModelGenerate_Some ok_attempt_of log_def)

section \<open>tryModelGenerate never throws\<close>

text \<open>
  Claim C10. For every model identifier that converts to a string (every string does)
  and every prompt, \<open>tryModelGenerate\<close> returns an attempt object and throws nothing: a
  failed request comes back as \<open>{ ok: false, error: err.message }\<close>, and a body that
  \<open>JSON.parse\<close> rejects comes back as \<open>{ ok: false, error: "Invalid JSON response" }\<close>.
\<close>

theorem tryModelGenerate_total:
  assumes "ToString modelId = Some m"
  shows "\<exists>a s'. tryModelGenerate w modelId prompt s = (Inr a, s') \<and>
           (\<forall>msg. fetch w (length (sent s)) (Post (generate_url w m) prompt) = Threw msg \<longrightarrow>
                  \<not> ok a \<and> error a = Some (JStr msg)) \<and>
           (\<forall>st r e. fetch w (length (sent s)) (Post (generate_url w m) prompt) = Response st r \<and>
                     JSON_parse w r = Inl e \<longrightarrow>
                  \<not> ok a \<and> error a = Some (JStr ''Invalid JSON response''))"
  unfolding tryModelGenerate_Some [OF assms]
  by (auto simp: attempt_of_def)

theorem tryModelGenerate_total_witness:
  "(\<exists>a s'. tryModelGenerate (const_world (Threw ''socket hang up'') no_json)
             (JStr ''gemini-1.0'') ''Say hello'' initial_state = (Inr a, s') \<and>
           \<not> ok a \<and> error a = Some (JStr ''socket hang up'')) \<and>
   (\<exists>a s'. tryModelGenerate (const_world (Response 200 ''<html>'') no_json)
             (JStr ''gemini-1.0'') ''Say hello'' initial_state = (Inr a, s') \<and>
           \<not> ok a \<and> error a = Some (JStr ''Invalid JSON response''))"
  using tryModelGenerate_total [of "JStr ''gemini-1.0''" "''gemini-1.0''"
      "const_world (Threw ''socket hang up'') no_json" "''Say hello''" initial_state]
    tryModelGenerate_total [of "JStr ''gemini-1.0''" "''gemini-1.0''"
      "const_world (Response 200 ''<html>'') no_json" "''Say hello''" initial_state]
  by (simp add: const_world_def no_json_def)

section \<open>A failed candidate does not stop the loop\<close>

text \<open>
  Claim C4, as amended. In both servers a failed attempt of one candidate (the request
  throwing, a status outside 200 to 299, a body that does not parse, a parsed body with no
  text) throws nothing and leaves the loop running: the loop over \<open>model # rest\<close> is the
  loop over \<open>rest\<close> from the state after the one request. The server with model resolution
  logs the reason of every such failure (\<open>ModelFailed\<close>). The backend server logs the
  thrown request, the bad status and the unparseable body, and goes on silently after a
  parsed body with no text.
\<close>

theorem candidate_failure_advances:
  "(fetch w (length (sent s)) (Post (generate_url w model) p) = Threw msg \<longrightarrow>
      try_candidates w p (model # rest) s =
        try_candidates w p rest
          (log (ModelFailed model (if msg = [] then JStr ''no-text'' else JStr msg))
             (s\<lparr>sent := sent s @ [Post (generate_url w model) p]\<rparr>))) \<and>
   (fetch w (length (sent s)) (Post (generate_url w model) p) = Response st r \<and>
    JSON_parse w r = Inl e \<longrightarrow>
      try_candidates w p (model # rest) s =
        try_candidates w p rest
          (log (ModelFailed model (JStr ''Invalid JSON response''))
             (log (RawResponse (take 800 r)) (log (TriedModel model st)
                (s\<lparr>sent := sent s @ [Post (generate_url w model) p]\<rparr>))))) \<and>
   (fetch w (length (sent s)) (Post (generate_url w model) p) = Response st r \<and>
    JSON_parse w r = Inr d \<and> \<not> (res_ok st \<and> truthy (extract_text d)) \<longrightarrow>
      try_candidates w p (model # rest) s =
        try_candidates w p rest
          (log (ModelFailed model
                  (or_else (get_prop ''error'' (Some d)) (JStr ''No text found in response'')))
             (log (RawResponse (take 800 r)) (log (TriedModel model st)
                (s\<lparr>sent := sent s @ [Post (generate_url w model) p]\<rparr>))))) \<and>
   (fetch w (length (sent s)) (Post (api_url w model) p) = Threw msg \<longrightarrow>
      api_loop w p (model # rest) s =
        api_loop w p rest
          (log (NetworkErrorWith model (FetchError msg))
             (s\<lparr>sent := sent s @ [Post (api_url w model) p]\<rparr>))) \<and>
   (fetch w (length (sent s)) (Post (api_url w model) p) = Response st r \<and> \<not> res_ok st \<longrightarrow>
      api_loop w p (model # rest) s =
        api_loop w p rest
          (log (GeminiRawResponse model r) (s\<lparr>sent := sent s @ [Post (api_url w model) p]\<rparr>))) \<and>
   (fetch w (length (sent s)) (Post (api_url w model) p) = Response st r \<and> res_ok st \<and>
    JSON_parse w r = Inl e \<longrightarrow>
      api_loop w p (model # rest) s =
        api_loop w p rest
          (log (NetworkErrorWith model (SyntaxError e))
             (s\<lparr>sent := sent s @ [Post (api_url w model) p]\<rparr>))) \<and>
   (fetch w (length (sent s)) (Post (api_url w model) p) = Response st r \<and> res_ok st \<and>
    JSON_parse w r = Inr d \<and>
    \<not> truthy_opt (get_prop ''text'' (idx0 (get_prop ''parts'' (get_prop ''content''
          (idx0 (get_prop ''candidates'' (Some d))))))) \<longrightarrow>
      api_loop w p (model # rest) s =
        api_loop w p rest (s\<lparr>sent := sent s @ [Post (api_url w model) p]\<rparr>))"
proof (intro conjI impI)
  assume "fetch w (length (sent s)) (Post (generate_url w model) p) = Threw msg"
  then show "try_candidates w p (model # rest) s =
        try_candidates w p rest
          (log (ModelFailed model (if msg = [] then JStr ''no-text'' else JStr msg))
             (s\<lparr>sent := sent s @ [Post (generate_url w model) p]\<rparr>))"
    by (simp add: tryModelGenerate_def tryModelGenerate_try_def do_fetch_def or_else_def)
next
  assume "fetch w (length (sent s)) (Post (generate_url w model) p) = Response st r \<and>
    JSON_parse w r = Inl e"
  then show "try_candidates w p (model # rest) s =
        try_candidates w p rest
          (log (ModelFailed model (JStr ''Invalid JSON response''))
             (log (RawResponse (take 800 r)) (log (TriedModel model st)
                (s\<lparr>sent := sent s @ [Post (generate_url w model) p]\<rparr>))))"
    by (simp add: tryModelGenerate_def tryModelGenerate_try_def do_fetch_def or_else_def)
next
  assume "fetch w (length (sent s)) (Post (generate_url w model) p) = Response st r \<and>
    JSON_parse w r = Inr d \<and> \<not> (res_ok st \<and> truthy (extract_text d))"
  then show "try_candidates w p (model # rest) s =
        try_candidates w p rest
          (log (ModelFailed model
                  (or_else (get_prop ''error'' (Some d)) (JStr ''No text found in response'')))
             (log (RawResponse (take 800 r)) (log (TriedModel model st)
                (s\<lparr>sent := sent s @ [Post (generate_url w model) p]\<rparr>))))"
    by (auto simp: tryModelGenerate_def tryModelGenerate_try_def do_fetch_def or_else_def
        split: option.splits)
next
  assume "fetch w (length (sent s)) (Post (api_url w model) p) = Threw msg"
  then show "api_loop w p (model # rest) s =
        api_loop w p rest
          (log (NetworkErrorWith model (FetchError msg))
             (s\<lparr>sent := sent s @ [Post (api_url w model) p]\<rparr>))"
    by (simp add: do_fetch_def)
next
  assume "fetch w (length (sent s)) (Post (api_url w model) p) = Response st r \<and> \<not> res_ok st"
  then show "api_loop w p (model # rest) s =
        api_loop w p rest
          (log (GeminiRawResponse model r) (s\<lparr>sent := sent s @ [Post (api_url w model) p]\<rparr>))"
    by (simp add: do_fetch_def)
next
  assume "fetch w (length (sent s)) (Post (api_url w model) p) = Response st r \<and> res_ok st \<and>
    JSON_parse w r = Inl e"
  then show "api_loop w p (model # rest) s =
        api_loop w p rest
          (log (NetworkErrorWith model (SyntaxError e))
             (s\<lparr>sent := sent s @ [Post (api_url w model) p]\<rparr>))"
    by (simp add: do_fetch_def)
next
  assume "fetch w (length (sent s)) (Post (api_url w model) p) = Response st r \<and> res_ok st \<and>
    JSON_parse w r = Inr d \<and>
    \<not> truthy_opt (get_prop ''text'' (idx0 (get_prop ''parts'' (get_prop ''content''
          (idx0 (get_prop ''candidates'' (Some d)))))))"
  then show "api_loop w p (model # rest) s =
        api_loop w p rest (s\<lparr>sent := sent s @ [Post (api_url w model) p]\<rparr>)"
    by (auto simp: do_fetch_def split: option.splits)
qed

theorem candidate_failure_advances_witness:
  "try_candidates (const_world (Threw ''socket hang up'') no_json) ''Hello world''
       [''modelA'', ''modelB''] initial_state =
     try_candidates (const_world (Threw ''socket hang up'') no_json) ''Hello world'' [''modelB'']
       (log (ModelFailed ''modelA'' (JStr ''socket hang up''))
          (initial_state\<lparr>sent := [Post (generate_url (const_world (Threw ''socket hang up'') no_json)
                                          ''modelA'') ''Hello world'']\<rparr>)) \<and>
   try_candidates (const_world (Response 200 ''<html>'') no_json) ''Hello world''
       [''modelA'', ''modelB''] initial_state =
     try_candidates (const_world (Response 200 ''<html>'') no_json) ''Hello world'' [''modelB'']
       (log (ModelFailed ''modelA'' (JStr ''Invalid JSON response''))
          (log (RawResponse ''<html>'') (log (TriedModel ''modelA'' 200)
             (initial_state\<lparr>sent := [Post (generate_url (const_world (Response 200 ''<html>'') no_json)
                                             ''modelA'') ''Hello world'']\<rparr>)))) \<and>
   try_candidates scenario_world ''Hello world'' [''modelA'', ''modelB''] initial_state =
     try_candidates scenario_world ''Hello world'' [''modelB'']
       (log (ModelFailed ''modelA'' (JObj [(''code'', JNum ''503'')]))
          (log (RawResponse ''busy'') (log (TriedModel ''modelA'' 503)
             (initial_state\<lparr>sent := [Post (generate_url scenario_world ''modelA'') ''Hello world'']\<rparr>)))) \<and>
   api_loop (const_world (Threw ''socket hang up'') no_json) ''Hello world''
       [''modelA'', ''modelB''] initial_state =
     api_loop (const_world (Threw ''socket hang up'') no_json) ''Hello world'' [''modelB'']
       (log (NetworkErrorWith ''modelA'' (FetchError ''socket hang up''))
          (initial_state\<lparr>sent := [Post (api_url (const_world (Threw ''socket hang up'') no_json)
                                          ''modelA'') ''Hello world'']\<rparr>)) \<and>
   api_loop (const_world (Response 503 ''busy'') no_json) ''Hello world''
       [''modelA'', ''modelB''] initial_state =
     api_loop (const_world (Response 503 ''busy'') no_json) ''Hello world'' [''modelB'']
       (log (GeminiRawResponse ''modelA'' ''busy'')
          (initial_state\<lparr>sent := [Post (api_url (const_world (Response 503 ''busy'') no_json)
                                          ''modelA'') ''Hello world'']\<rparr>)) \<and>
   api_loop (const_world (Response 200 ''<html>'') no_json) ''Hello world''
       [''modelA'', ''modelB''] initial_state =
     api_loop (const_world (Response 200 ''<html>'') no_json) ''Hello world'' [''modelB'']
       (log (NetworkErrorWith ''modelA''
               (SyntaxError ''Unexpected token < in JSON at position 0''))
          (initial_state\<lparr>sent := [Post (api_url (const_world (Response 200 ''<html>'') no_json)
                                          ''modelA'') ''Hello world'']\<rparr>)) \<and>
   api_loop (const_world (Response 200 ''{}'') empty_object) ''Hello world''
       [''modelA'', ''modelB''] initial_state =
     api_loop (const_world (Response 200 ''{}'') empty_object) ''Hello world'' [''modelB'']
       (initial_state\<lparr>sent := [Post (api_url (const_world (Response 200 ''{}'') empty_object)
                                       ''modelA'') ''Hello world'']\<rparr>)"
  using candidate_failure_advances [of "const_world (Threw ''socket hang up'') no_json"
      initial_state "''modelA''" "''Hello world''" "''socket hang up''" "[''modelB'']"]
    candidate_failure_advances [of "const_world (Response 200 ''<html>'') no_json"
      initial_state "''modelA''" "''Hello world''" _ "[''modelB'']" 200 "''<html>''"
      "''Unexpected token < in JSON at position 0''"]
    candidate_failure_advances [of scenario_world initial_state "''modelA''" "''Hello world''" _
      "[''modelB'']" 503 "''busy''" _ "JObj [(''error'', JObj [(''code'', JNum ''503'')])]"]
    candidate_failure_advances [of "const_world (Response 503 ''busy'') no_json"
      initial_state "''modelA''" "''Hello world''" _ "[''modelB'']" 503 "''busy''"]
    candidate_failure_advances [of "const_world (Response 200 ''{}'') empty_object"
      initial_state "''modelA''" "''Hello world''" _ "[''modelB'']" 200 "''{}''" _ "JObj []"]
  by (simp add: const_world_def no_json_def empty_object_def scenario_world_def
      initial_state_def res_ok_def or_else_def)

text \<open>
  Claim C4 as stated fails on the backend server: with a provider that answers 200 and a
  body without text, both models fail and the console stays empty, so no reason was
  recorded.
\<close>

theorem backend_no_text_not_logged:
  "callGeminiAPI no_text_world ''Hello world'' initial_state =
     (Inl all_models_failed,
      \<lparr>cachedModel = JNull,
        sent = [Post (api_url no_text_world ''gemini-pro:generateContent'') ''Hello world'',
                Post (api_url no_text_world ''gemini-1.5-flash:generateContent'') ''Hello world''],
        console = []\<rparr>)"
  by (simp add: callGeminiAPI_def GEMINI_MODELS_def no_text_world_def initial_state_def
      do_fetch_def res_ok_def)

section \<open>Text extraction\<close>

lemma extract_text_shapes: "extract_text d = first_truthy (shapes d)"
  by (simp add: extract_text_def shapes_def Let_def or_else_def split: option.splits)

lemma first_truthy_falsy: "(\<forall>x\<in>set xs. \<not> truthy_opt x) \<Longrightarrow> \<not> truthy (first_truthy xs)"
  by (induction xs rule: first_truthy.induct) auto

lemma first_truthy_strings:
  "(\<forall>x\<in>set xs. x = None \<or> (\<exists>t. x = Some (JStr t))) \<Longrightarrow>
   first_truthy xs = (case first_nonempty_string xs of None \<Rightarrow> JNull | Some t \<Rightarrow> JStr t)"
  by (induction xs rule: first_nonempty_string.induct) auto

text \<open>
  Claim C5, as amended. The extracted text is the first truthy value among the seven
  paths, \<open>null\<close> when there is none; when every path yields a string or nothing, that is
  the first non-empty string. When the status is a success and every path yields a falsy
  value, the candidate counts as failed and the loop goes on with the next candidate.
\<close>

theorem extraction_first_truthy:
  "extract_text d = first_truthy (shapes d) \<and>
   ((\<forall>x\<in>set (shapes d). x = None \<or> (\<exists>t. x = Some (JStr t))) \<longrightarrow>
      extract_text d = (case first_nonempty_string (shapes d) of None \<Rightarrow> JNull | Some t \<Rightarrow> JStr t)) \<and>
   (fetch w (length (sent s)) (Post (generate_url w model) p) = Response st r \<and> res_ok st \<and>
    JSON_parse w r = Inr d \<and> (\<forall>x\<in>set (shapes d). \<not> truthy_opt x) \<longrightarrow>
      try_candidates w p (model # rest) s =
        try_candidates w p rest
          (log (ModelFailed model
                  (or_else (get_prop ''error'' (Some d)) (JStr ''No text found in response'')))
             (log (RawResponse (take 800 r)) (log (TriedModel model st)
                (s\<lparr>sent := sent s @ [Post (generate_url w model) p]\<rparr>)))))"
proof (intro conjI impI)
  show "extract_text d = first_truthy (shapes d)"
    by (rule extract_text_shapes)
next
  assume "\<forall>x\<in>set (shapes d). x = None \<or> (\<exists>t. x = Some (JStr t))"
  then show "extract_text d =
      (case first_nonempty_string (shapes d) of None \<Rightarrow> JNull | Some t \<Rightarrow> JStr t)"
    unfolding extract_text_shapes by (rule first_truthy_strings)
next
  assume a: "fetch w (length (sent s)) (Post (generate_url w model) p) = Response st r \<and> res_ok st \<and>
    JSON_parse w r = Inr d \<and> (\<forall>x\<in>set (shapes d). \<not> truthy_opt x)"
  then have "\<not> truthy (extract_text d)"
    unfolding extract_text_shapes by (simp add: first_truthy_falsy)
  with a show "try_candidates w p (model # rest) s =
        try_candidates w p rest
          (log (ModelFailed model
                  (or_else (get_prop ''error'' (Some d)) (JStr ''No text found in response'')))
             (log (RawResponse (take 800 r)) (log (TriedModel model st)
                (s\<lparr>sent := sent s @ [Post (generate_url w model) p]\<rparr>))))"
    by (auto simp: tryModelGenerate_def tryModelGenerate_try_def do_fetch_def or_else_def
        split: option.splits)
qed

theorem extraction_first_truthy_witness:
  "try_candidates no_text_world ''Hello world'' [''modelA'', ''modelB''] initial_state =
     try_candidates no_text_world ''Hello world'' [''modelB'']
       (log (ModelFailed ''modelA'' (JStr ''No text found in response''))
          (log (RawResponse ''{}'') (log (TriedModel ''modelA'' 200)
             (initial_state\<lparr>sent := [Post (generate_url no_text_world ''modelA'') ''Hello world'']\<rparr>)))) \<and>
   extract_text (JObj [(''candidates'', JArr [JObj [(''text'', JStr []), (''content'',
       JArr [JObj [(''text'', JStr ''second shape'')]])]])]) = JStr ''second shape''"
proof -
  let ?d = "JObj [(''candidates'', JArr [JObj [(''text'', JStr []), (''content'',
       JArr [JObj [(''text'', JStr ''second shape'')]])]])]"
  have a: "try_candidates no_text_world ''Hello world'' [''modelA'', ''modelB''] initial_state =
     try_candidates no_text_world ''Hello world'' [''modelB'']
       (log (ModelFailed ''modelA'' (JStr ''No text found in response''))
          (log (RawResponse ''{}'') (log (TriedModel ''modelA'' 200)
             (initial_state\<lparr>sent := [Post (generate_url no_text_world ''modelA'') ''Hello world'']\<rparr>))))"
    using extraction_first_truthy [of "JObj []" no_text_world initial_state "''modelA''"
        "''Hello world''" 200 "''{}''" "[''modelB'']"]
    by (simp add: no_text_world_def initial_state_def res_ok_def or_else_def shapes_def)
  have strings: "\<forall>x\<in>set (shapes ?d). x = None \<or> (\<exists>t. x = Some (JStr t))"
    by (simp add: shapes_def)
  have fns: "first_nonempty_string (shapes ?d) = Some ''second shape''"
    by (simp add: shapes_def)
  have "extract_text ?d =
      (case first_nonempty_string (shapes ?d) of None \<Rightarrow> JNull | Some t \<Rightarrow> JStr t)"
    using extraction_first_truthy [of ?d] strings by blast
  then have "extract_text ?d = JStr ''second shape''"
    unfolding fns by simp
  with a show ?thesis by blast
qed

text \<open>
  Claim C5 as stated fails where a path yields a truthy value that is not a string: no
  path yields a non-empty string, the status is 200, and the candidate is accepted.
\<close>

theorem numeric_text_accepted:
  "first_nonempty_string
     (shapes (JObj [(''candidates'', JArr [JObj [(''text'', JNum ''7'')]])])) = None \<and>
   try_candidates numeric_text_world ''Hello world'' [''modelA'', ''modelB''] initial_state =
     (Inr (Some (JStr ''modelA'')),
      \<lparr>cachedModel = JStr ''modelA'',
        sent = [Post (generate_url numeric_text_world ''modelA'') ''Hello world''],
        console = [TriedModel ''modelA'' 200, RawResponse ''seven'', WorkingModelFound ''modelA'']\<rparr>)"
  by (simp add: shapes_def numeric_text_world_def initial_state_def tryModelGenerate_Some
      attempt_of_def reply_logs_def log_def res_ok_def extract_text_def or_else_def)

section \<open>Resolution and the request that follows it\<close>

lemma try_candidates_first_success:
  assumes k: "k < length cands"
    and fails: "\<forall>i<k. \<not> reply_success w
        (fetch w (length (sent s) + i) (Post (generate_url w (cands ! i)) p))"
    and succ: "reply_success w
        (fetch w (length (sent s) + k) (Post (generate_url w (cands ! k)) p))"
  shows "try_candidates w p cands s =
     (Inr (Some (JStr (cands ! k))),
      s\<lparr>cachedModel := JStr (cands ! k),
        sent := sent s @ map (\<lambda>m. Post (generate_url w m) p) (take (Suc k) cands),
        console := console s @ failure_log w p (length (sent s)) (take k cands) @
           reply_logs (cands ! k) (fetch w (length (sent s) + k) (Post (generate_url w (cands ! k)) p)) @
           [WorkingModelFound (cands ! k)]\<rparr>)"
proof -
  let ?pre = "take k cands"
  let ?s1 = "s\<lparr>sent := sent s @ map (\<lambda>m. Post (generate_url w m) p) ?pre,
          console := console s @ failure_log w p (length (sent s)) ?pre\<rparr>"
  have split: "cands = ?pre @ cands ! k # drop (Suc k) cands"
    using k by (rule id_take_nth_drop)
  have len: "length ?pre = k" using k by simp
  have "\<forall>i<length ?pre. \<not> reply_success w
        (fetch w (length (sent s) + i) (Post (generate_url w (?pre ! i)) p))"
    using fails len by simp
  then have "try_candidates w p (?pre @ cands ! k # drop (Suc k) cands) s =
      try_candidates w p (cands ! k # drop (Suc k) cands) ?s1"
    by (rule try_candidates_failures)
  moreover have "reply_success w
      (fetch w (length (sent ?s1)) (Post (generate_url w (cands ! k)) p))"
    using succ len by simp
  then have "try_candidates w p (cands ! k # drop (Suc k) cands) ?s1 =
     (Inr (Some (JStr (cands ! k))),
      ?s1\<lparr>cachedModel := JStr (cands ! k),
        sent := sent ?s1 @ [Post (generate_url w (cands ! k)) p],
        console := console ?s1 @
           reply_logs (cands ! k) (fetch w (length (sent ?s1)) (Post (generate_url w (cands ! k)) p)) @
           [WorkingModelFound (cands ! k)]\<rparr>)"
    by (rule try_candidates_success)
  ultimately have "try_candidates w p cands s =
     (Inr (Some (JStr (cands ! k))),
      ?s1\<lparr>cachedModel := JStr (cands ! k),
        sent := sent ?s1 @ [Post (generate_url w (cands ! k)) p],
        console := console ?s1 @
           reply_logs (cands ! k) (fetch w (length (sent ?s1)) (Post (generate_url w (cands ! k)) p)) @
           [WorkingModelFound (cands ! k)]\<rparr>)"
    using split by simp
  then show ?thesis
    using k len by (simp add: take_Suc_conv_app_nth)
qed

lemma ensureWorkingModel_first_success:
  assumes "\<not> truthy (cachedModel s)"
    and "k < length CANDIDATE_MODELS"
    and "\<forall>i<k. \<not> reply_success w
        (fetch w (length (sent s) + i) (Post (generate_url w (CANDIDATE_MODELS ! i)) p))"
    and "reply_success w
        (fetch w (length (sent s) + k) (Post (generate_url w (CANDIDATE_MODELS ! k)) p))"
  shows "ensureWorkingModel w p s =
     (Inr (JStr (CANDIDATE_MODELS ! k)),
      s\<lparr>cachedModel := JStr (CANDIDATE_MODELS ! k),
        sent := sent s @ map (\<lambda>m. Post (generate_url w m) p) (take (Suc k) CANDIDATE_MODELS),
        console := console s @ failure_log w p (length (sent s)) (take k CANDIDATE_MODELS) @
           reply_logs (CANDIDATE_MODELS ! k)
             (fetch w (length (sent s) + k) (Post (generate_url w (CANDIDATE_MODELS ! k)) p)) @
           [WorkingModelFound (CANDIDATE_MODELS ! k)]\<rparr>)"
  unfolding ensureWorkingModel_def
  using assms(1) by (simp add: try_candidates_first_success [OF assms(2-4)])

lemma callGemini_after_resolution:
  assumes "\<not> truthy (cachedModel s)"
    and "k < length CANDIDATE_MODELS"
    and "\<forall>i<k. \<not> reply_success w
        (fetch w (length (sent s) + i) (Post (generate_url w (CANDIDATE_MODELS ! i)) p))"
    and "reply_success w
        (fetch w (length (sent s) + k) (Post (generate_url w (CANDIDATE_MODELS ! k)) p))"
  shows "fst (callGemini w p s) =
           (let a = attempt_of w
                  (fetch w (length (sent s) + Suc k) (Post (generate_url w (CANDIDATE_MODELS ! k)) p))
            in if ok a then Inr (text' a)
               else Inl (new_Error (or_else (error a) (JStr ''Gemini call failed''))))"
    and "cachedModel (snd (callGemini w p s)) = JStr (CANDIDATE_MODELS ! k)"
    and "sent (snd (callGemini w p s)) =
           sent s @ map (\<lambda>m. Post (generate_url w m) p) (take (Suc k) CANDIDATE_MODELS) @
           [Post (generate_url w (CANDIDATE_MODELS ! k)) p]"
proof -
  from assms(2) have m: "min (length CANDIDATE_MODELS) (Suc k) = Suc k" by simp
  show "fst (callGemini w p s) =
           (let a = attempt_of w
                  (fetch w (length (sent s) + Suc k) (Post (generate_url w (CANDIDATE_MODELS ! k)) p))
            in if ok a then Inr (text' a)
               else Inl (new_Error (or_else (error a) (JStr ''Gemini call failed''))))"
    unfolding callGemini_def ensureWorkingModel_first_success [OF assms]
    by (simp add: tryModelGenerate_Some Let_def m)
  show "cachedModel (snd (callGemini w p s)) = JStr (CANDIDATE_MODELS ! k)"
    unfolding callGemini_def ensureWorkingModel_first_success [OF assms]
    by (simp add: tryModelGenerate_Some Let_def m)
  show "sent (snd (callGemini w p s)) =
           sent s @ map (\<lambda>m. Post (generate_url w m) p) (take (Suc k) CANDIDATE_MODELS) @
           [Post (generate_url w (CANDIDATE_MODELS ! k)) p]"
    unfolding callGemini_def ensureWorkingModel_first_success [OF assms]
    by (simp add: tryModelGenerate_Some Let_def m)
qed

section \<open>Requests sent and cache written, function by function\<close>

lemma grows_refl: "grows p s s"
  by (simp add: grows_def)

lemma grows_trans: "grows p s s1 \<Longrightarrow> grows p s1 s2 \<Longrightarrow> grows p s s2"
  unfolding grows_def by (elim exE conjE) (rename_tac n1 n2, rule_tac x = "n1 @ n2" in exI, auto)

lemma grows_log: "grows p s s1 \<Longrightarrow> grows p s (log l s1)"
  by (simp add: grows_def log_def)

lemma grows_cache: "grows p s s1 \<Longrightarrow> grows p s (s1\<lparr>cachedModel := c\<rparr>)"
  by (simp add: grows_def)

lemma grows_tryModelGenerate: "grows p s (snd (tryModelGenerate w modelId p s))"
proof (cases "ToString modelId")
  case None
  then show ?thesis by (simp add: tryModelGenerate_def grows_def)
next
  case (Some m)
  then show ?thesis by (simp add: tryModelGenerate_Some grows_def)
qed

lemma cache_tryModelGenerate: "cachedModel (snd (tryModelGenerate w modelId p s)) = cachedModel s"
proof (cases "ToString modelId")
  case None
  then show ?thesis by (simp add: tryModelGenerate_def)
next
  case (Some m)
  then show ?thesis by (simp add: tryModelGenerate_Some)
qed

lemma list_endpoints_sent:
  "\<exists>j\<le>length urls. (urls \<noteq> [] \<longrightarrow> 0 < j) \<and>
     sent (snd (list_endpoints w urls s)) = sent s @ map Get (take j urls)"
proof (induction urls arbitrary: s)
  case Nil
  then show ?case by simp
next
  case (Cons url rest)
  let ?s1 = "s\<lparr>sent := sent s @ [Get url]\<rparr>"
  have here: "\<exists>j\<le>length (url # rest). 0 < j \<and> sent ?s1 = sent s @ map Get (take j (url # rest))"
    by (rule exI [of _ 1]) simp
  have later: "\<exists>j\<le>length (url # rest). 0 < j \<and>
      sent (snd (list_endpoints w rest s')) = sent s @ map Get (take j (url # rest))"
    if "sent s' = sent s @ [Get url]" for s'
  proof -
    from Cons.IH [of s'] obtain j where "j \<le> length rest"
      and "sent (snd (list_endpoints w rest s')) = sent s' @ map Get (take j rest)" by blast
    with that show ?thesis by (intro exI [of _ "Suc j"]) simp
  qed
  show ?case
  proof (cases "fetch w (length (sent s)) (Get url)")
    case (Threw msg)
    then show ?thesis using later [of "log (CouldNotList url msg) ?s1"]
      by (simp add: do_fetch_def log_def)
  next
    case (Response status body)
    show ?thesis
    proof (cases "JSON_parse w body")
      case (Inl e)
      with Response show ?thesis using later [of "log (NonJSONModels url (take 300 body)) ?s1"]
        by (simp add: do_fetch_def log_def)
    next
      case (Inr d)
      with Response show ?thesis using later [of ?s1] here
        by (simp add: do_fetch_def log_def)
    qed
  qed
qed

lemma list_endpoints_cache: "cachedModel (snd (list_endpoints w urls s)) = cachedModel s"
  by (induction urls arbitrary: s)
     (auto simp: do_fetch_def log_def split: reply.splits sum.splits)

lemma listAvailableModels_sent:
  "\<exists>j\<le>2. 0 < j \<and> sent (snd (listAvailableModels w s)) = sent s @ map Get (take j endpoints)"
proof -
  from list_endpoints_sent [of endpoints w s] obtain j where j: "j \<le> length endpoints" "0 < j"
    "sent (snd (list_endpoints w endpoints s)) = sent s @ map Get (take j endpoints)"
    by (auto simp: endpoints_def)
  have "sent (snd (listAvailableModels w s)) = sent (snd (list_endpoints w endpoints s))"
    by (cases "list_endpoints w endpoints s")
       (simp add: listAvailableModels_def log_def split: option.splits)
  with j show ?thesis by (intro exI [of _ j]) (simp add: endpoints_def)
qed

lemma listAvailableModels_cache: "cachedModel (snd (listAvailableModels w s)) = cachedModel s"
  using list_endpoints_cache [of w endpoints s]
  by (cases "list_endpoints w endpoints s")
     (simp add: listAvailableModels_def log_def split: option.splits)

lemma grows_listAvailableModels: "grows p s (snd (listAvailableModels w s))"
  using listAvailableModels_sent [of w s] by (auto simp: grows_def)

lemma set_by_success_earlier:
  "set_by_success w p s1 s' \<Longrightarrow> length (sent s) \<le> length (sent s1) \<Longrightarrow> set_by_success w p s s'"
  unfolding set_by_success_def by (meson le_trans)

lemma set_by_success_later:
  assumes "set_by_success w p s s1" and "grows q s1 s2" and "cachedModel s2 = cachedModel s1"
  shows "set_by_success w p s s2"
proof -
  from assms(1) obtain m n where mn: "truthy (cachedModel s1)" "ToString (cachedModel s1) = Some m"
    "length (sent s) \<le> n" "n < length (sent s1)" "sent s1 ! n = Post (generate_url w m) p"
    "reply_success w (fetch w n (Post (generate_url w m) p))"
    unfolding set_by_success_def by blast
  from assms(2) obtain new where new: "sent s2 = sent s1 @ new"
    unfolding grows_def by blast
  from mn(4) new have "n < length (sent s2)" "sent s2 ! n = sent s1 ! n"
    by (simp_all add: nth_append)
  with mn assms(3) show ?thesis
    unfolding set_by_success_def by (intro conjI exI [of _ m] exI [of _ n]) simp_all
qed

lemma set_by_success_here:
  assumes "ToString c = Some m" and "truthy c"
    and "reply_success w (fetch w (length (sent s1)) (Post (generate_url w m) p))"
    and "length (sent s) \<le> length (sent s1)"
    and "sent s' = sent s1 @ [Post (generate_url w m) p]" and "cachedModel s' = c"
  shows "set_by_success w p s s'"
  unfolding set_by_success_def using assms
  by (intro conjI exI [of _ m] exI [of _ "length (sent s1)"]) simp_all

lemma grows_length: "grows p s s' \<Longrightarrow> length (sent s) \<le> length (sent s')"
  by (auto simp: grows_def)

lemma grows_try_candidates: "grows p s (snd (try_candidates w p cands s))"
proof (induction cands arbitrary: s)
  case Nil
  then show ?case by (simp add: grows_refl)
next
  case (Cons m cands)
  obtain res s1 where t: "tryModelGenerate w (JStr m) p s = (res, s1)" by (cases "tryModelGenerate w (JStr m) p s")
  have g1: "grows p s s1" using grows_tryModelGenerate [of p s w "JStr m"] t by simp
  show ?case
  proof (cases res)
    case (Inl e)
    with t g1 show ?thesis by simp
  next
    case (Inr a)
    show ?thesis
    proof (cases "ok a")
      case True
      with t Inr g1 show ?thesis by (simp add: grows_log grows_cache)
    next
      case False
      have "grows p s (log (ModelFailed m (or_else (error a) (JStr ''no-text''))) s1)"
        using g1 by (rule grows_log)
      then have "grows p s (snd (try_candidates w p cands
          (log (ModelFailed m (or_else (error a) (JStr ''no-text''))) s1)))"
        using Cons.IH grows_trans by blast
      with t Inr False show ?thesis by simp
    qed
  qed
qed

lemma cache_try_candidates:
  assumes "\<forall>m\<in>set cands. m \<noteq> []"
  shows "(cachedModel (snd (try_candidates w p cands s)) = cachedModel s \<and>
          (\<forall>c. fst (try_candidates w p cands s) \<noteq> Inr (Some c))) \<or>
         (set_by_success w p s (snd (try_candidates w p cands s)) \<and>
          fst (try_candidates w p cands s) = Inr (Some (cachedModel (snd (try_candidates w p cands s)))))"
  using assms
proof (induction cands arbitrary: s)
  case Nil
  then show ?case by simp
next
  case (Cons m cands)
  let ?rq = "Post (generate_url w m) p"
  let ?rep = "fetch w (length (sent s)) ?rq"
  let ?s1 = "s\<lparr>sent := sent s @ [?rq], console := console s @ reply_logs m ?rep\<rparr>"
  have t: "tryModelGenerate w (JStr m) p s = (Inr (attempt_of w ?rep), ?s1)"
    by (simp add: tryModelGenerate_Some)
  show ?case
  proof (cases "reply_success w ?rep")
    case True
    let ?s' = "(log (WorkingModelFound m) ?s1)\<lparr>cachedModel := JStr m\<rparr>"
    have "set_by_success w p s ?s'"
      using True Cons.prems
      by (intro set_by_success_here [of "JStr m" m w s p s ?s']) (simp_all add: log_def)
    with True t show ?thesis by (simp add: ok_attempt_of)
  next
    case False
    let ?s2 = "log (ModelFailed m (or_else (error (attempt_of w ?rep)) (JStr ''no-text''))) ?s1"
    have eq: "try_candidates w p (m # cands) s = try_candidates w p cands ?s2"
      using False t by (simp add: ok_attempt_of)
    have c2: "cachedModel ?s2 = cachedModel s" by (simp add: log_def)
    have l2: "length (sent s) \<le> length (sent ?s2)" by (simp add: log_def)
    from Cons.prems have "\<forall>m\<in>set cands. m \<noteq> []" by simp
    from Cons.IH [OF this, of ?s2] show ?thesis
      unfolding eq c2 using set_by_success_earlier [OF _ l2] by blast
  qed
qed

lemma truthy_or_else: "truthy b \<Longrightarrow> truthy (or_else a b)"
  by (simp add: or_else_def split: option.splits)

lemma truthy_name_model_id: "truthy g \<Longrightarrow> truthy (name_model_id g g)"
  by (simp add: name_model_id_def truthy_or_else)

lemma find_gemini_Inl: "find_gemini ms = Inl e \<Longrightarrow> e = TypeError"
  by (induction ms) (auto split: option.splits if_splits)

lemma try_listed_outcome:
  fixes w p s
  defines "s2 \<equiv> snd (listAvailableModels w s)"
  shows "(\<exists>e. (e = no_usable_model \<or> e = TypeError) \<and> fst (try_listed w p s) = Inl e \<and>
            sent (snd (try_listed w p s)) = sent s2 \<and>
            cachedModel (snd (try_listed w p s)) = cachedModel s) \<or>
         (\<exists>ident i. ToString ident = Some i \<and> truthy ident \<and>
            sent (snd (try_listed w p s)) = sent s2 @ [Post (generate_url w i) p] \<and>
            (if reply_success w (fetch w (length (sent s2)) (Post (generate_url w i) p))
             then fst (try_listed w p s) = Inr ident \<and> cachedModel (snd (try_listed w p s)) = ident
             else fst (try_listed w p s) = Inl no_usable_model \<and>
                  cachedModel (snd (try_listed w p s)) = cachedModel s))"
proof -
  obtain listed where l: "listAvailableModels w s = (listed, s2)"
    unfolding s2_def by (cases "listAvailableModels w s") simp
  have c2: "cachedModel s2 = cachedModel s"
    unfolding s2_def by (rule listAvailableModels_cache)
  have none: ?thesis if "try_listed w p s = (Inl e, s2)" "e = no_usable_model \<or> e = TypeError" for e
    using that c2 by auto
  show ?thesis
  proof (cases "\<exists>x xs. listed = JArr (x # xs)")
    case False
    then have "try_listed w p s = (Inl no_usable_model, s2)"
      using l by (auto simp: try_listed_def split: json.splits list.splits)
    then show ?thesis by (rule none) simp
  next
    case True
    then obtain x xs where lx: "listed = JArr (x # xs)" by blast
    show ?thesis
    proof (cases "find_gemini (x # xs)")
      case (Inl e)
      then have "e = TypeError" by (rule find_gemini_Inl)
      with Inl l lx have "try_listed w p s = (Inl TypeError, s2)"
        by (simp add: try_listed_def)
      then show ?thesis by (rule none) simp
    next
      case (Inr found)
      let ?g = "or_else found x"
      let ?ident = "name_model_id ?g ?g"
      show ?thesis
      proof (cases "truthy ?g")
        case False
        with Inr l lx have "try_listed w p s = (Inl no_usable_model, s2)"
          by (simp add: try_listed_def)
        then show ?thesis by (rule none) simp
      next
        case True
        show ?thesis
        proof (cases "ToString ?ident")
          case None
          with True Inr l lx have "try_listed w p s = (Inl TypeError, s2)"
            by (simp add: try_listed_def)
          then show ?thesis by (rule none) simp
        next
          case (Some i)
          have "truthy ?ident" using True by (rule truthy_name_model_id)
          moreover have "sent (snd (try_listed w p s)) = sent s2 @ [Post (generate_url w i) p]"
            using True Inr l lx Some
            by (simp add: try_listed_def tryModelGenerate_Some log_def ok_attempt_of Let_def
                del: find_gemini.simps)
          moreover have "if reply_success w (fetch w (length (sent s2)) (Post (generate_url w i) p))
             then fst (try_listed w p s) = Inr ?ident \<and> cachedModel (snd (try_listed w p s)) = ?ident
             else fst (try_listed w p s) = Inl no_usable_model \<and>
                  cachedModel (snd (try_listed w p s)) = cachedModel s"
            using True Inr l lx Some c2
            by (simp add: try_listed_def tryModelGenerate_Some log_def ok_attempt_of Let_def
                del: find_gemini.simps)
          ultimately show ?thesis using Some by blast
        qed
      qed
    qed
  qed
qed

lemma grows_try_listed: "grows p s (snd (try_listed w p s))"
proof -
  from listAvailableModels_sent [of w s] obtain j where
    j: "sent (snd (listAvailableModels w s)) = sent s @ map Get (take j endpoints)" by blast
  from try_listed_outcome [of w p s] show ?thesis
    unfolding grows_def j by (elim disjE exE conjE) auto
qed

lemma ensureWorkingModel_cached:
  "truthy (cachedModel s) \<Longrightarrow> ensureWorkingModel w p s = (Inr (cachedModel s), s)"
  by (simp add: ensureWorkingModel_def)

lemma CANDIDATE_MODELS_nonempty: "\<forall>m\<in>set CANDIDATE_MODELS. m \<noteq> []"
  by (simp add: CANDIDATE_MODELS_def)

lemma ensureWorkingModel_uncached:
  assumes "\<not> truthy (cachedModel s)"
  shows "grows p s (snd (ensureWorkingModel w p s)) \<and>
         ((cachedModel (snd (ensureWorkingModel w p s)) = cachedModel s \<and>
           (\<exists>e. fst (ensureWorkingModel w p s) = Inl e)) \<or>
          (set_by_success w p s (snd (ensureWorkingModel w p s)) \<and>
           fst (ensureWorkingModel w p s) = Inr (cachedModel (snd (ensureWorkingModel w p s)))))"
proof -
  obtain res s1 where t: "try_candidates w p CANDIDATE_MODELS s = (res, s1)"
    by (cases "try_candidates w p CANDIDATE_MODELS s")
  have g1: "grows p s s1" using grows_try_candidates [of p s w CANDIDATE_MODELS] t by simp
  from cache_try_candidates [OF CANDIDATE_MODELS_nonempty, of w p s] t
  have c1: "(cachedModel s1 = cachedModel s \<and> (\<forall>c. res \<noteq> Inr (Some c))) \<or>
            (set_by_success w p s s1 \<and> res = Inr (Some (cachedModel s1)))" by simp
  show ?thesis
  proof (cases res)
    case (Inl e)
    with t assms g1 c1 show ?thesis by (auto simp: ensureWorkingModel_def)
  next
    case (Inr r)
    show ?thesis
    proof (cases r)
      case (Some c)
      with Inr t assms g1 c1 show ?thesis by (auto simp: ensureWorkingModel_def)
    next
      case None
      with Inr c1 have cs1: "cachedModel s1 = cachedModel s" by auto
      have e: "ensureWorkingModel w p s = try_listed w p s1"
        using None Inr t assms by (simp add: ensureWorkingModel_def)
      have g2: "grows p s1 (snd (try_listed w p s1))" by (rule grows_try_listed)
      let ?s2 = "snd (listAvailableModels w s1)"
      have l2: "length (sent s) \<le> length (sent ?s2)"
        using grows_length [OF g1] grows_length [OF grows_listAvailableModels [of p s1 w]] by simp
      from try_listed_outcome [of w p s1] consider
        (none) e where "fst (try_listed w p s1) = Inl e"
          "cachedModel (snd (try_listed w p s1)) = cachedModel s1"
      | (tried) ident i where "ToString ident = Some i" "truthy ident"
          "sent (snd (try_listed w p s1)) = sent ?s2 @ [Post (generate_url w i) p]"
          "if reply_success w (fetch w (length (sent ?s2)) (Post (generate_url w i) p))
           then fst (try_listed w p s1) = Inr ident \<and> cachedModel (snd (try_listed w p s1)) = ident
           else fst (try_listed w p s1) = Inl no_usable_model \<and>
                cachedModel (snd (try_listed w p s1)) = cachedModel s1"
        by blast
      then have "(cachedModel (snd (try_listed w p s1)) = cachedModel s \<and>
              (\<exists>e. fst (try_listed w p s1) = Inl e)) \<or>
            (set_by_success w p s (snd (try_listed w p s1)) \<and>
              fst (try_listed w p s1) = Inr (cachedModel (snd (try_listed w p s1))))"
      proof cases
        case none
        then show ?thesis using cs1 by simp
      next
        case tried
        show ?thesis
        proof (cases "reply_success w (fetch w (length (sent ?s2)) (Post (generate_url w i) p))")
          case True
          with tried have r: "fst (try_listed w p s1) = Inr ident"
            "cachedModel (snd (try_listed w p s1)) = ident" by simp_all
          have "set_by_success w p s (snd (try_listed w p s1))"
            using tried(1,2) True l2 tried(3) r(2) by (rule set_by_success_here)
          with r show ?thesis by simp
        next
          case False
          with tried cs1 show ?thesis by simp
        qed
      qed
      with e g1 g2 show ?thesis using grows_trans by auto
    qed
  qed
qed

lemma grows_ensureWorkingModel: "grows p s (snd (ensureWorkingModel w p s))"
  using ensureWorkingModel_uncached [of s p w] ensureWorkingModel_cached [of s w p]
  by (cases "truthy (cachedModel s)") (simp_all add: grows_refl)

lemma grows_callGemini: "grows p s (snd (callGemini w p s))"
proof -
  obtain res s1 where e: "ensureWorkingModel w p s = (res, s1)"
    by (cases "ensureWorkingModel w p s")
  have g1: "grows p s s1" using grows_ensureWorkingModel [of p s w] e by simp
  show ?thesis
  proof (cases res)
    case (Inl err)
    with e g1 show ?thesis by (simp add: callGemini_def)
  next
    case (Inr modelId)
    have "grows p s1 (snd (tryModelGenerate w modelId p s1))" by (rule grows_tryModelGenerate)
    with g1 have "grows p s (snd (tryModelGenerate w modelId p s1))" by (rule grows_trans)
    with e Inr show ?thesis
      by (cases "tryModelGenerate w modelId p s1") (auto simp: callGemini_def split: sum.splits)
  qed
qed

lemma cache_callGemini_snd:
  "cachedModel (snd (callGemini w p s)) = cachedModel (snd (ensureWorkingModel w p s))"
proof -
  obtain res s1 where e: "ensureWorkingModel w p s = (res, s1)"
    by (cases "ensureWorkingModel w p s")
  show ?thesis
  proof (cases res)
    case (Inl err)
    with e show ?thesis by (simp add: callGemini_def)
  next
    case (Inr modelId)
    with e show ?thesis using cache_tryModelGenerate [of w modelId p s1]
      by (cases "tryModelGenerate w modelId p s1") (auto simp: callGemini_def split: sum.splits)
  qed
qed

lemma callGemini_cached:
  assumes "truthy (cachedModel s)"
  shows "cachedModel (snd (callGemini w p s)) = cachedModel s"
  unfolding cache_callGemini_snd by (simp add: ensureWorkingModel_cached [OF assms])

lemma callGemini_cached_sent:
  assumes "truthy (cachedModel s)" and "ToString (cachedModel s) = Some m"
  shows "sent (snd (callGemini w p s)) = sent s @ [Post (generate_url w m) p]"
  by (simp add: callGemini_def ensureWorkingModel_cached [OF assms(1)]
      tryModelGenerate_Some [OF assms(2)])

lemma callGemini_uncached:
  assumes "\<not> truthy (cachedModel s)"
  shows "cachedModel (snd (callGemini w p s)) = cachedModel s \<or>
         set_by_success w p s (snd (callGemini w p s))"
proof -
  obtain res s1 where e: "ensureWorkingModel w p s = (res, s1)"
    by (cases "ensureWorkingModel w p s")
  from ensureWorkingModel_uncached [OF assms, of p w] e
  have "cachedModel s1 = cachedModel s \<or> set_by_success w p s s1" by auto
  then show ?thesis
  proof
    assume "cachedModel s1 = cachedModel s"
    then show ?thesis unfolding cache_callGemini_snd using e by simp
  next
    assume sb: "set_by_success w p s s1"
    have c: "cachedModel (snd (callGemini w p s)) = cachedModel s1"
      unfolding cache_callGemini_snd using e by simp
    have g: "grows p s1 (snd (callGemini w p s))"
    proof (cases res)
      case (Inl err)
      with e show ?thesis by (simp add: callGemini_def grows_refl)
    next
      case (Inr modelId)
      with e grows_tryModelGenerate [of p s1 w modelId] show ?thesis
        by (cases "tryModelGenerate w modelId p s1") (auto simp: callGemini_def split: sum.splits)
    qed
    from set_by_success_later [OF sb g c] show ?thesis ..
  qed
qed

section \<open>What callGemini returns after resolution\<close>

lemma callGemini_after_any_resolution:
  assumes "\<not> truthy (cachedModel s)"
    and "ensureWorkingModel w p s = (Inr m, s1)"
  shows "\<exists>ms. ToString m = Some ms \<and> cachedModel s1 = m \<and>
           sent (snd (callGemini w p s)) = sent s1 @ [Post (generate_url w ms) p] \<and>
           (\<forall>st r d. fetch w (length (sent s1)) (Post (generate_url w ms) p) = Response st r \<and>
              res_ok st \<and> JSON_parse w r = Inr d \<and> truthy (extract_text d) \<longrightarrow>
              fst (callGemini w p s) = Inr (Some (extract_text d))) \<and>
           (\<not> reply_success w (fetch w (length (sent s1)) (Post (generate_url w ms) p)) \<longrightarrow>
              (\<exists>e. fst (callGemini w p s) = Inl e))"
proof -
  from ensureWorkingModel_uncached [OF assms(1), of p w] assms(2)
  have sb: "set_by_success w p s s1" and m: "m = cachedModel s1" by auto
  then obtain ms where ms: "ToString m = Some ms"
    unfolding set_by_success_def by auto
  have c: "callGemini w p s =
      (let a = attempt_of w (fetch w (length (sent s1)) (Post (generate_url w ms) p));
           s2 = s1\<lparr>sent := sent s1 @ [Post (generate_url w ms) p],
                   console := console s1 @
                     reply_logs ms (fetch w (length (sent s1)) (Post (generate_url w ms) p))\<rparr>
       in if ok a then (Inr (text' a), s2)
          else (Inl (new_Error (or_else (error a) (JStr ''Gemini call failed''))), s2))"
    by (simp add: callGemini_def assms(2) tryModelGenerate_Some [OF ms] Let_def)
  have 1: "sent (snd (callGemini w p s)) = sent s1 @ [Post (generate_url w ms) p]"
    unfolding c by (simp add: Let_def)
  have 2: "fst (callGemini w p s) = Inr (Some (extract_text d))"
    if "fetch w (length (sent s1)) (Post (generate_url w ms) p) = Response st r \<and>
        res_ok st \<and> JSON_parse w r = Inr d \<and> truthy (extract_text d)" for st r d
    unfolding c using that by (simp add: Let_def attempt_of_def)
  have 3: "\<exists>e. fst (callGemini w p s) = Inl e"
    if "\<not> reply_success w (fetch w (length (sent s1)) (Post (generate_url w ms) p))"
    unfolding c using that by (simp add: Let_def ok_attempt_of)
  from ms m 1 2 3 show ?thesis by blast
qed

text \<open>
  Claim C8. With no model cached, \<open>callGemini\<close> resolves with the caller's own prompt: the
  candidates up to the first one that succeeds each receive one request carrying it.
  Then one more request with the same prompt goes to the resolved model. The value
  returned is the text of that further request, and when that request fails \<open>callGemini\<close>
  throws, although the candidate succeeded a moment before. The same holds however the
  model was resolved, from the candidates or from the listing.
\<close>

theorem callGemini_repeats_request:
  assumes "\<not> truthy (cachedModel s)"
  shows "(\<forall>k. k < length CANDIDATE_MODELS \<and>
            (\<forall>i<k. \<not> reply_success w
               (fetch w (length (sent s) + i) (Post (generate_url w (CANDIDATE_MODELS ! i)) prompt))) \<and>
            reply_success w
               (fetch w (length (sent s) + k) (Post (generate_url w (CANDIDATE_MODELS ! k)) prompt)) \<longrightarrow>
            sent (snd (callGemini w prompt s)) =
              sent s @ map (\<lambda>m. Post (generate_url w m) prompt) (take (Suc k) CANDIDATE_MODELS) @
              [Post (generate_url w (CANDIDATE_MODELS ! k)) prompt] \<and>
            (\<forall>st r d.
               fetch w (length (sent s) + Suc k) (Post (generate_url w (CANDIDATE_MODELS ! k)) prompt)
                 = Response st r \<and>
               res_ok st \<and> JSON_parse w r = Inr d \<and> truthy (extract_text d) \<longrightarrow>
               fst (callGemini w prompt s) = Inr (Some (extract_text d))) \<and>
            (\<not> reply_success w
                 (fetch w (length (sent s) + Suc k)
                    (Post (generate_url w (CANDIDATE_MODELS ! k)) prompt)) \<longrightarrow>
               (\<exists>e. fst (callGemini w prompt s) = Inl e))) \<and>
         (\<forall>m s1. ensureWorkingModel w prompt s = (Inr m, s1) \<longrightarrow>
            (\<exists>ms. ToString m = Some ms \<and> cachedModel s1 = m \<and>
               sent (snd (callGemini w prompt s)) = sent s1 @ [Post (generate_url w ms) prompt] \<and>
               (\<forall>st r d.
                  fetch w (length (sent s1)) (Post (generate_url w ms) prompt) = Response st r \<and>
                  res_ok st \<and> JSON_parse w r = Inr d \<and> truthy (extract_text d) \<longrightarrow>
                  fst (callGemini w prompt s) = Inr (Some (extract_text d))) \<and>
               (\<not> reply_success w (fetch w (length (sent s1)) (Post (generate_url w ms) prompt)) \<longrightarrow>
                  (\<exists>e. fst (callGemini w prompt s) = Inl e))))"
proof (intro conjI allI impI)
  fix k
  assume a: "k < length CANDIDATE_MODELS \<and>
            (\<forall>i<k. \<not> reply_success w
               (fetch w (length (sent s) + i) (Post (generate_url w (CANDIDATE_MODELS ! i)) prompt))) \<and>
            reply_success w
               (fetch w (length (sent s) + k) (Post (generate_url w (CANDIDATE_MODELS ! k)) prompt))"
  then have k: "k < length CANDIDATE_MODELS"
    and fails: "\<forall>i<k. \<not> reply_success w
               (fetch w (length (sent s) + i) (Post (generate_url w (CANDIDATE_MODELS ! i)) prompt))"
    and succ: "reply_success w
               (fetch w (length (sent s) + k) (Post (generate_url w (CANDIDATE_MODELS ! k)) prompt))"
    by blast+
  note R = callGemini_after_resolution [OF assms k fails succ]
  show "sent (snd (callGemini w prompt s)) =
           sent s @ map (\<lambda>m. Post (generate_url w m) prompt) (take (Suc k) CANDIDATE_MODELS) @
           [Post (generate_url w (CANDIDATE_MODELS ! k)) prompt]"
    by (rule R(3))
  {
    fix st r d
    assume "fetch w (length (sent s) + Suc k) (Post (generate_url w (CANDIDATE_MODELS ! k)) prompt)
              = Response st r \<and>
            res_ok st \<and> JSON_parse w r = Inr d \<and> truthy (extract_text d)"
    then show "fst (callGemini w prompt s) = Inr (Some (extract_text d))"
      unfolding R(1) by (simp add: attempt_of_def)
  }
  {
    assume "\<not> reply_success w
              (fetch w (length (sent s) + Suc k)
                 (Post (generate_url w (CANDIDATE_MODELS ! k)) prompt))"
    then show "\<exists>e. fst (callGemini w prompt s) = Inl e"
      unfolding R(1) by (simp add: ok_attempt_of Let_def)
  }
next
  fix m s1
  assume "ensureWorkingModel w prompt s = (Inr m, s1)"
  with assms show "\<exists>ms. ToString m = Some ms \<and> cachedModel s1 = m \<and>
               sent (snd (callGemini w prompt s)) = sent s1 @ [Post (generate_url w ms) prompt] \<and>
               (\<forall>st r d.
                  fetch w (length (sent s1)) (Post (generate_url w ms) prompt) = Response st r \<and>
                  res_ok st \<and> JSON_parse w r = Inr d \<and> truthy (extract_text d) \<longrightarrow>
                  fst (callGemini w prompt s) = Inr (Some (extract_text d))) \<and>
               (\<not> reply_success w (fetch w (length (sent s1)) (Post (generate_url w ms) prompt)) \<longrightarrow>
                  (\<exists>e. fst (callGemini w prompt s) = Inl e))"
    by (rule callGemini_after_any_resolution)
qed

theorem callGemini_repeats_request_witness:
  "sent (snd (callGemini flaky_world ''Hello world'' initial_state)) =
     [Post (generate_url flaky_world ''gemini-2.5-pro'') ''Hello world'',
      Post (generate_url flaky_world ''gemini-2.5-pro'') ''Hello world''] \<and>
   (\<exists>e. fst (callGemini flaky_world ''Hello world'' initial_state) = Inl e) \<and>
   sent (snd (callGemini changing_world ''Hello world'' initial_state)) =
     [Post (generate_url changing_world ''gemini-2.5-pro'') ''Hello world'',
      Post (generate_url changing_world ''gemini-2.5-pro'') ''Hello world''] \<and>
   fst (callGemini changing_world ''Hello world'' initial_state) = Inr (Some (JStr ''Bye''))"
proof -
  have nc: "\<not> truthy (cachedModel initial_state)" by (simp add: initial_state_def)
  have f: "sent (snd (callGemini flaky_world ''Hello world'' initial_state)) =
     [Post (generate_url flaky_world ''gemini-2.5-pro'') ''Hello world'',
      Post (generate_url flaky_world ''gemini-2.5-pro'') ''Hello world''] \<and>
   (\<exists>e. fst (callGemini flaky_world ''Hello world'' initial_state) = Inl e)"
    using callGemini_repeats_request [OF nc, of flaky_world "''Hello world''",
        THEN conjunct1, rule_format, of 0]
    by (simp add: initial_state_def flaky_world_def CANDIDATE_MODELS_def res_ok_def
        reply_success_def extract_text_def or_else_def text_body_def)
  have c: "sent (snd (callGemini changing_world ''Hello world'' initial_state)) =
     [Post (generate_url changing_world ''gemini-2.5-pro'') ''Hello world'',
      Post (generate_url changing_world ''gemini-2.5-pro'') ''Hello world''] \<and>
   fst (callGemini changing_world ''Hello world'' initial_state) = Inr (Some (JStr ''Bye''))"
    using callGemini_repeats_request [OF nc, of changing_world "''Hello world''",
        THEN conjunct1, rule_format, of 0]
    by (simp add: initial_state_def changing_world_def CANDIDATE_MODELS_def res_ok_def
        reply_success_def extract_text_def or_else_def text_body_def)
  from f c show ?thesis by blast
qed

text \<open>
  Claim C1, as amended. With no model cached, when a candidate's attempt returns a success
  status with a non-empty text and the candidates before it failed, \<open>callGemini\<close> records
  that candidate in \<open>cachedModel\<close>, sends nothing to any later candidate, and repeats the
  request to that candidate, whatever the repeat brings. When the repeat returns a success
  status with a non-empty text as well, the value returned is the text of the repeat.
\<close>

theorem callGemini_first_success:
  assumes "\<not> truthy (cachedModel s)"
    and "k < length CANDIDATE_MODELS"
    and "\<forall>i<k. \<not> reply_success w
        (fetch w (length (sent s) + i) (Post (generate_url w (CANDIDATE_MODELS ! i)) prompt))"
    and "fetch w (length (sent s) + k) (Post (generate_url w (CANDIDATE_MODELS ! k)) prompt)
           = Response st r"
    and "res_ok st" and "JSON_parse w r = Inr d" and "extract_text d = JStr t" and "t \<noteq> []"
  shows "cachedModel (snd (callGemini w prompt s)) = JStr (CANDIDATE_MODELS ! k) \<and>
         sent (snd (callGemini w prompt s)) =
           sent s @ map (\<lambda>m. Post (generate_url w m) prompt) (take (Suc k) CANDIDATE_MODELS) @
           [Post (generate_url w (CANDIDATE_MODELS ! k)) prompt] \<and>
         (\<forall>st2 r2 d2 t2.
            fetch w (length (sent s) + Suc k) (Post (generate_url w (CANDIDATE_MODELS ! k)) prompt)
              = Response st2 r2 \<and>
            res_ok st2 \<and> JSON_parse w r2 = Inr d2 \<and> extract_text d2 = JStr t2 \<and> t2 \<noteq> [] \<longrightarrow>
            fst (callGemini w prompt s) = Inr (Some (JStr t2)))"
proof -
  have succ: "reply_success w
        (fetch w (length (sent s) + k) (Post (generate_url w (CANDIDATE_MODELS ! k)) prompt))"
    using assms(4-8) by (simp add: reply_success_def)
  note R = callGemini_after_resolution [OF assms(1-3) succ]
  have "fst (callGemini w prompt s) = Inr (Some (JStr t2))"
    if "fetch w (length (sent s) + Suc k) (Post (generate_url w (CANDIDATE_MODELS ! k)) prompt)
          = Response st2 r2 \<and>
        res_ok st2 \<and> JSON_parse w r2 = Inr d2 \<and> extract_text d2 = JStr t2 \<and> t2 \<noteq> []"
    for st2 r2 d2 t2
    unfolding R(1) using that by (simp add: attempt_of_def)
  with R(2,3) show ?thesis by blast
qed

theorem callGemini_first_success_witness:
  "fst (callGemini changing_world ''Hello world'' initial_state) = Inr (Some (JStr ''Bye'')) \<and>
   cachedModel (snd (callGemini changing_world ''Hello world'' initial_state)) = JStr ''gemini-2.5-pro'' \<and>
   sent (snd (callGemini changing_world ''Hello world'' initial_state)) =
     [Post (generate_url changing_world ''gemini-2.5-pro'') ''Hello world'',
      Post (generate_url changing_world ''gemini-2.5-pro'') ''Hello world''] \<and>
   cachedModel (snd (callGemini flaky_world ''Hello world'' initial_state)) = JStr ''gemini-2.5-pro'' \<and>
   sent (snd (callGemini flaky_world ''Hello world'' initial_state)) =
     [Post (generate_url flaky_world ''gemini-2.5-pro'') ''Hello world'',
      Post (generate_url flaky_world ''gemini-2.5-pro'') ''Hello world'']"
proof -
  have c: "fst (callGemini changing_world ''Hello world'' initial_state) = Inr (Some (JStr ''Bye'')) \<and>
   cachedModel (snd (callGemini changing_world ''Hello world'' initial_state)) = JStr ''gemini-2.5-pro'' \<and>
   sent (snd (callGemini changing_world ''Hello world'' initial_state)) =
     [Post (generate_url changing_world ''gemini-2.5-pro'') ''Hello world'',
      Post (generate_url changing_world ''gemini-2.5-pro'') ''Hello world'']"
    using callGemini_first_success [of initial_state 0 changing_world "''Hello world''" 200
        "''first''" "text_body ''Hi there''" "''Hi there''"]
    by (simp add: initial_state_def changing_world_def CANDIDATE_MODELS_def res_ok_def
        text_body_def extract_text_def or_else_def)
  have f: "cachedModel (snd (callGemini flaky_world ''Hello world'' initial_state)) = JStr ''gemini-2.5-pro'' \<and>
   sent (snd (callGemini flaky_world ''Hello world'' initial_state)) =
     [Post (generate_url flaky_world ''gemini-2.5-pro'') ''Hello world'',
      Post (generate_url flaky_world ''gemini-2.5-pro'') ''Hello world'']"
    using callGemini_first_success [of initial_state 0 flaky_world "''Hello world''" 200
        "''fine''" "text_body ''Hi there''" "''Hi there''"]
    by (simp add: initial_state_def flaky_world_def CANDIDATE_MODELS_def res_ok_def
        text_body_def extract_text_def or_else_def)
  from c f show ?thesis by blast
qed

text \<open>
  Claim C1 as stated fails: the first successful attempt extracted \<open>Hi there\<close>, the value
  returned is the text of the repeated request, \<open>Bye\<close>.
\<close>

theorem callGemini_returns_repeat_text:
  "fst (tryModelGenerate changing_world (JStr ''gemini-2.5-pro'') ''Hello world'' initial_state) =
     Inr \<lparr>ok = True, text' = Some (JStr ''Hi there''), error = None, raw = Some ''first'',
          data = Some (text_body ''Hi there'')\<rparr> \<and>
   fst (callGemini changing_world ''Hello world'' initial_state) = Inr (Some (JStr ''Bye''))"
  by (simp add: callGemini_def ensureWorkingModel_def tryModelGenerate_Some attempt_of_def
      initial_state_def changing_world_def CANDIDATE_MODELS_def res_ok_def text_body_def
      extract_text_def or_else_def log_def)

section \<open>The route handlers\<close>

lemma js_object_error [simp]: "js_object [(k, Some v)] = JObj [(k, v)]"
  by (simp add: js_object_def)

lemma grows_nonempty: "grows p s s' \<Longrightarrow> p \<noteq> [] \<Longrightarrow> sends_nonempty_prompts s s'"
  unfolding grows_def sends_nonempty_prompts_def by blast

lemma sends_nonempty_refl: "sends_nonempty_prompts s s"
  by (simp add: sends_nonempty_prompts_def)

lemma route_try_cases:
  "(ToString txt = None \<and>
      route_try w route template key txt s = route_catch route TypeError s) \<or>
   (\<exists>t. ToString txt = Some t \<and>
      route_try w route template key txt s =
        (case callGemini w (template @ t) s of
           (Inl err, s1) \<Rightarrow> route_catch route err s1
         | (Inr output, s1) \<Rightarrow>
             (Inr \<lparr>status_code = 200,
                   json_body = js_object [(''original'', Some txt), (key, output)]\<rparr>, s1)))"
  by (cases "ToString txt") (simp_all add: route_try_def)

lemma route_try_state:
  "snd (route_try w route template key txt s) = s \<or>
   (\<exists>l. snd (route_try w route template key txt s) = log l s) \<or>
   (\<exists>t. snd (route_try w route template key txt s) = snd (callGemini w (template @ t) s)) \<or>
   (\<exists>t l. snd (route_try w route template key txt s) = log l (snd (callGemini w (template @ t) s)))"
proof (cases "ToString txt")
  case None
  then show ?thesis by (simp add: route_try_def route_catch_def) blast
next
  case (Some t)
  obtain res s1 where c: "callGemini w (template @ t) s = (res, s1)"
    by (cases "callGemini w (template @ t) s")
  show ?thesis
  proof (cases res)
    case (Inl err)
    with Some c have "snd (route_try w route template key txt s) =
        log (RouteError route (message_or_err err)) (snd (callGemini w (template @ t) s))"
      by (simp add: route_try_def route_catch_def)
    then show ?thesis by blast
  next
    case (Inr outp)
    with Some c have "snd (route_try w route template key txt s) =
        snd (callGemini w (template @ t) s)"
      by (simp add: route_try_def)
    then show ?thesis by blast
  qed
qed

lemma sends_nonempty_log: "sends_nonempty_prompts s s1 \<Longrightarrow> sends_nonempty_prompts s (log l s1)"
  by (simp add: sends_nonempty_prompts_def log_def)

lemma route_try_sends:
  assumes "template \<noteq> []"
  shows "sends_nonempty_prompts s (snd (route_try w route template key txt s))"
proof -
  have "sends_nonempty_prompts s (snd (callGemini w (template @ t) s))" for t
    using assms by (intro grows_nonempty [OF grows_callGemini]) simp
  with route_try_state [of w route template key "txt" s] show ?thesis
    by (auto simp: sends_nonempty_refl sends_nonempty_log)
qed

lemma route_try_cache:
  assumes "truthy (cachedModel s)"
  shows "cachedModel (snd (route_try w route template key txt s)) = cachedModel s"
  using route_try_state [of w route template key "txt" s] callGemini_cached [OF assms]
  by (auto simp: log_def)

lemma cache_inv_callGemini:
  assumes "cache_inv s"
  shows "cache_inv (snd (callGemini w p s))"
proof (cases "truthy (cachedModel s)")
  case True
  with assms show ?thesis by (simp add: cache_inv_def callGemini_cached)
next
  case False
  from callGemini_uncached [OF False, of w p] assms show ?thesis
    by (auto simp: cache_inv_def set_by_success_def)
qed

lemma cache_inv_log: "cache_inv (log l s) = cache_inv s"
  by (simp add: cache_inv_def log_def)

lemma route_try_inv:
  assumes "cache_inv s"
  shows "cache_inv (snd (route_try w route template key txt s))"
  using route_try_state [of w route template key "txt" s] cache_inv_callGemini [OF assms] assms
  by (auto simp: cache_inv_log)

lemma humanize_sends: "sends_nonempty_prompts s (snd (humanize w req_body s))"
  by (simp add: humanize_def route_try_sends sends_nonempty_refl split: option.splits)

lemma summarize_sends: "sends_nonempty_prompts s (snd (summarize w req_body s))"
  by (simp add: summarize_def route_try_sends sends_nonempty_refl split: option.splits)

lemma tone_sends: "sends_nonempty_prompts s (snd (tone w req_body s))"
  by (simp add: tone_def route_try_sends sends_nonempty_refl Let_def split: option.splits)

lemma grows_api_loop: "grows p s (snd (api_loop w p models s))"
proof (induction models arbitrary: s)
  case Nil
  then show ?case by (simp add: grows_refl)
next
  case (Cons model models)
  let ?s1 = "s\<lparr>sent := sent s @ [Post (api_url w model) p]\<rparr>"
  have g1: "grows p s ?s1" by (simp add: grows_def)
  have later: "grows p s (snd (api_loop w p models s'))" if "grows p s s'" for s'
    using that Cons.IH grows_trans by blast
  have l1: "grows p s (snd (api_loop w p models ?s1))" using g1 by (rule later)
  have l2: "grows p s (snd (api_loop w p models (log l ?s1)))" for l
    using grows_log [OF g1] by (rule later)
  show ?case
    using g1 l1 l2
    by (simp add: do_fetch_def split: reply.splits sum.splits option.splits)
qed

lemma backend_try_sends:
  assumes "template \<noteq> []"
  shows "sends_nonempty_prompts s (snd (backend_try w label template tx s))"
proof (cases "ToString tx")
  case None
  then show ?thesis
    by (simp add: backend_try_def backend_catch_def sends_nonempty_log sends_nonempty_refl)
next
  case (Some t)
  have "sends_nonempty_prompts s (snd (callGeminiAPI w (template @ t) s))"
    unfolding callGeminiAPI_def using assms by (intro grows_nonempty [OF grows_api_loop]) simp
  with Some show ?thesis
    by (cases "callGeminiAPI w (template @ t) s")
       (auto simp: backend_try_def backend_catch_def sends_nonempty_log split: sum.splits)
qed

lemma backend_humanize_sends: "sends_nonempty_prompts s (snd (backend_humanize w req_body s))"
  by (simp add: backend_humanize_def backend_try_sends backend_catch_def sends_nonempty_log
      sends_nonempty_refl split: option.splits)

lemma backend_summarize_sends: "sends_nonempty_prompts s (snd (backend_summarize w req_body s))"
  by (simp add: backend_summarize_def backend_try_sends backend_catch_def sends_nonempty_log
      sends_nonempty_refl split: option.splits)

lemma backend_tone_sends: "sends_nonempty_prompts s (snd (backend_tone w req_body s))"
  by (simp add: backend_tone_def backend_try_sends backend_catch_def sends_nonempty_log
      sends_nonempty_refl Let_def split: option.splits)

lemma route_try_status:
  "\<exists>r s'. route_try w route template key tx s = (Inr r, s') \<and> status_code r \<noteq> 400"
  by (cases "ToString tx"; cases "callGemini w (template @ the (ToString tx)) s")
     (auto simp: route_try_def route_catch_def split: sum.splits)

lemma backend_try_status: "status_code (fst (backend_try w label template tx s)) \<noteq> 400"
  by (cases "ToString tx"; cases "callGeminiAPI w (template @ the (ToString tx)) s")
     (auto simp: backend_try_def backend_catch_def split: sum.splits)

text \<open>
  Claim C7. A request body (not nullish, as \<open>express.json()\<close> supplies it) whose \<open>text\<close> is
  missing or falsy gets 400 from the humanize and summarize handlers of both servers, and
  one whose \<open>text\<close> or \<open>mode\<close> is missing or falsy gets 400 from the tone handlers; the
  state is as before, so nothing was sent and the resolver did not run. Whatever the
  body, no handler sends a generation request with an empty prompt.
\<close>

theorem missing_fields_rejected:
  assumes "req_body \<noteq> JNull"
  shows "(\<not> truthy_opt (get_prop ''text'' (Some req_body)) \<longrightarrow>
            humanize w req_body s =
              (Inr \<lparr>status_code = 400, json_body = JObj [(''error'', JStr ''Text required'')]\<rparr>, s) \<and>
            summarize w req_body s =
              (Inr \<lparr>status_code = 400, json_body = JObj [(''error'', JStr ''Text required'')]\<rparr>, s) \<and>
            backend_humanize w req_body s =
              (\<lparr>status_code = 400, json_body = JObj [(''error'', JStr ''Text is required'')]\<rparr>, s) \<and>
            backend_summarize w req_body s =
              (\<lparr>status_code = 400, json_body = JObj [(''error'', JStr ''Text is required'')]\<rparr>, s)) \<and>
         (\<not> truthy_opt (get_prop ''text'' (Some req_body)) \<or>
          \<not> truthy_opt (get_prop ''mode'' (Some req_body)) \<longrightarrow>
            tone w req_body s =
              (Inr \<lparr>status_code = 400,
                    json_body = JObj [(''error'', JStr ''Text and mode required'')]\<rparr>, s) \<and>
            backend_tone w req_body s =
              (\<lparr>status_code = 400,
                json_body = JObj [(''error'', JStr ''Text and mode required'')]\<rparr>, s)) \<and>
         sends_nonempty_prompts s (snd (humanize w req_body s)) \<and>
         sends_nonempty_prompts s (snd (summarize w req_body s)) \<and>
         sends_nonempty_prompts s (snd (tone w req_body s)) \<and>
         sends_nonempty_prompts s (snd (backend_humanize w req_body s)) \<and>
         sends_nonempty_prompts s (snd (backend_summarize w req_body s)) \<and>
         sends_nonempty_prompts s (snd (backend_tone w req_body s))"
proof (intro conjI impI)
  assume "\<not> truthy_opt (get_prop ''text'' (Some req_body))"
  then show "humanize w req_body s =
      (Inr \<lparr>status_code = 400, json_body = JObj [(''error'', JStr ''Text required'')]\<rparr>, s)"
    and "summarize w req_body s =
      (Inr \<lparr>status_code = 400, json_body = JObj [(''error'', JStr ''Text required'')]\<rparr>, s)"
    and "backend_humanize w req_body s =
      (\<lparr>status_code = 400, json_body = JObj [(''error'', JStr ''Text is required'')]\<rparr>, s)"
    and "backend_summarize w req_body s =
      (\<lparr>status_code = 400, json_body = JObj [(''error'', JStr ''Text is required'')]\<rparr>, s)"
    using assms
    by (auto simp: humanize_def summarize_def backend_humanize_def backend_summarize_def
        split: option.splits)
next
  assume "\<not> truthy_opt (get_prop ''text'' (Some req_body)) \<or>
          \<not> truthy_opt (get_prop ''mode'' (Some req_body))"
  then show "tone w req_body s =
      (Inr \<lparr>status_code = 400, json_body = JObj [(''error'', JStr ''Text and mode required'')]\<rparr>, s)"
    and "backend_tone w req_body s =
      (\<lparr>status_code = 400, json_body = JObj [(''error'', JStr ''Text and mode required'')]\<rparr>, s)"
    using assms by (auto simp: tone_def backend_tone_def)
qed (rule humanize_sends summarize_sends tone_sends backend_humanize_sends
       backend_summarize_sends backend_tone_sends)+

theorem missing_fields_rejected_witness:
  "humanize scenario_world (JObj [(''text'', JStr [])]) initial_state =
     (Inr \<lparr>status_code = 400, json_body = JObj [(''error'', JStr ''Text required'')]\<rparr>,
      initial_state) \<and>
   tone scenario_world (JObj [(''text'', JStr ''ok'')]) initial_state =
     (Inr \<lparr>status_code = 400, json_body = JObj [(''error'', JStr ''Text and mode required'')]\<rparr>,
      initial_state)"
  using missing_fields_rejected [of "JObj [(''text'', JStr [])]" scenario_world initial_state]
    missing_fields_rejected [of "JObj [(''text'', JStr ''ok'')]" scenario_world initial_state]
  by simp

text \<open>
  Claim C9. The tone handlers answer 400 exactly when \<open>text\<close> or \<open>mode\<close> is falsy. With a
  non-empty string as text and any truthy mode the request goes to the resolver, the
  prompt naming the formal tone when the mode is exactly \<open>"formal"\<close> and the casual tone
  for every other mode; a request with any other truthy mode is handled as the same
  request with mode \<open>"casual"\<close>.
\<close>

theorem tone_accepts_any_mode:
  assumes "req_body \<noteq> JNull"
  shows "(\<exists>r s'. tone w req_body s = (Inr r, s') \<and>
            (status_code r = 400 \<longleftrightarrow>
               \<not> truthy_opt (get_prop ''text'' (Some req_body)) \<or>
               \<not> truthy_opt (get_prop ''mode'' (Some req_body)))) \<and>
         (status_code (fst (backend_tone w req_body s)) = 400 \<longleftrightarrow>
            \<not> truthy_opt (get_prop ''text'' (Some req_body)) \<or>
            \<not> truthy_opt (get_prop ''mode'' (Some req_body))) \<and>
         (\<forall>t md. get_prop ''text'' (Some req_body) = Some (JStr t) \<and> t \<noteq> [] \<and>
                 get_prop ''mode'' (Some req_body) = Some md \<and> truthy md \<longrightarrow>
            tone w req_body s =
              (case callGemini w
                      (''Rewrite the following text in a '' @
                       (if md = JStr ''formal'' then ''Formal'' else ''Casual'') @
                       '' tone:\<newline>\<newline>'' @ t) s of
                 (Inl err, s1) \<Rightarrow> route_catch ''/api/tone'' err s1
               | (Inr outp, s1) \<Rightarrow>
                   (Inr \<lparr>status_code = 200,
                         json_body = js_object [(''original'', Some (JStr t)), (''toned'', outp)]\<rparr>,
                    s1)) \<and>
            backend_tone w req_body s =
              (case callGeminiAPI w
                      (''Rewrite this text in a '' @
                       (if md = JStr ''formal'' then ''formal'' else ''casual'') @
                       '' tone:\<newline>'' @ t) s of
                 (Inl err, s1) \<Rightarrow> backend_catch ''Tone Error:'' err s1
               | (Inr result, s1) \<Rightarrow>
                   (\<lparr>status_code = 200, json_body = js_object [(''result'', Some result)]\<rparr>, s1))) \<and>
         (\<forall>tx md. get_prop ''text'' (Some req_body) = Some tx \<and> truthy tx \<and>
                  get_prop ''mode'' (Some req_body) = Some md \<and> truthy md \<and>
                  md \<noteq> JStr ''formal'' \<longrightarrow>
            tone w req_body s =
              tone w (JObj [(''text'', tx), (''mode'', JStr ''casual'')]) s \<and>
            backend_tone w req_body s =
              backend_tone w (JObj [(''text'', tx), (''mode'', JStr ''casual'')]) s)"
proof (intro conjI allI impI)
  show "\<exists>r s'. tone w req_body s = (Inr r, s') \<and>
            (status_code r = 400 \<longleftrightarrow>
               \<not> truthy_opt (get_prop ''text'' (Some req_body)) \<or>
               \<not> truthy_opt (get_prop ''mode'' (Some req_body)))"
  proof (cases "\<not> truthy_opt (get_prop ''text'' (Some req_body)) \<or>
               \<not> truthy_opt (get_prop ''mode'' (Some req_body))")
    case True
    then show ?thesis using assms by (auto simp: tone_def)
  next
    case False
    then obtain tx where tx: "get_prop ''text'' (Some req_body) = Some tx"
      by (cases "get_prop ''text'' (Some req_body)") auto
    from route_try_status obtain r s' where
      "route_try w ''/api/tone''
         (''Rewrite the following text in a '' @
          (if get_prop ''mode'' (Some req_body) = Some (JStr ''formal'') then ''Formal''
           else ''Casual'') @ '' tone:\<newline>\<newline>'') ''toned'' tx s = (Inr r, s')"
      "status_code r \<noteq> 400" by blast
    with False tx assms show ?thesis by (simp add: tone_def Let_def)
  qed
next
  show "status_code (fst (backend_tone w req_body s)) = 400 \<longleftrightarrow>
            \<not> truthy_opt (get_prop ''text'' (Some req_body)) \<or>
            \<not> truthy_opt (get_prop ''mode'' (Some req_body))"
    using assms backend_try_status
    by (auto simp: backend_tone_def Let_def split: option.splits)
next
  fix t md
  assume a: "get_prop ''text'' (Some req_body) = Some (JStr t) \<and> t \<noteq> [] \<and>
                 get_prop ''mode'' (Some req_body) = Some md \<and> truthy md"
  then show "tone w req_body s =
              (case callGemini w
                      (''Rewrite the following text in a '' @
                       (if md = JStr ''formal'' then ''Formal'' else ''Casual'') @
                       '' tone:\<newline>\<newline>'' @ t) s of
                 (Inl err, s1) \<Rightarrow> route_catch ''/api/tone'' err s1
               | (Inr outp, s1) \<Rightarrow>
                   (Inr \<lparr>status_code = 200,
                         json_body = js_object [(''original'', Some (JStr t)), (''toned'', outp)]\<rparr>,
                    s1))"
    using assms by (simp add: tone_def route_try_def Let_def)
  from a show "backend_tone w req_body s =
              (case callGeminiAPI w
                      (''Rewrite this text in a '' @
                       (if md = JStr ''formal'' then ''formal'' else ''casual'') @
                       '' tone:\<newline>'' @ t) s of
                 (Inl err, s1) \<Rightarrow> backend_catch ''Tone Error:'' err s1
               | (Inr result, s1) \<Rightarrow>
                   (\<lparr>status_code = 200, json_body = js_object [(''result'', Some result)]\<rparr>, s1))"
    using assms by (simp add: backend_tone_def backend_try_def Let_def)
next
  fix tx md
  assume a: "get_prop ''text'' (Some req_body) = Some tx \<and> truthy tx \<and>
                  get_prop ''mode'' (Some req_body) = Some md \<and> truthy md \<and>
                  md \<noteq> JStr ''formal''"
  then show "tone w req_body s = tone w (JObj [(''text'', tx), (''mode'', JStr ''casual'')]) s"
    using assms by (simp add: tone_def Let_def)
  from a show "backend_tone w req_body s =
      backend_tone w (JObj [(''text'', tx), (''mode'', JStr ''casual'')]) s"
    using assms by (simp add: backend_tone_def Let_def)
qed

theorem tone_accepts_any_mode_witness:
  "tone scenario_world (JObj [(''text'', JStr ''ok''), (''mode'', JStr ''pirate'')]) initial_state =
     tone scenario_world (JObj [(''text'', JStr ''ok''), (''mode'', JStr ''casual'')]) initial_state \<and>
   (\<exists>r s'. tone scenario_world (JObj [(''text'', JStr ''ok''), (''mode'', JStr ''pirate'')])
              initial_state = (Inr r, s') \<and> status_code r \<noteq> 400)"
proof -
  let ?b = "JObj [(''text'', JStr ''ok''), (''mode'', JStr ''pirate'')]"
  have nn: "?b \<noteq> JNull" by simp
  have given: "get_prop ''text'' (Some ?b) = Some (JStr ''ok'') \<and> truthy (JStr ''ok'') \<and>
      get_prop ''mode'' (Some ?b) = Some (JStr ''pirate'') \<and> truthy (JStr ''pirate'') \<and>
      JStr ''pirate'' \<noteq> JStr ''formal''" by simp
  note T = tone_accepts_any_mode [OF nn, of scenario_world initial_state]
  from T given have "tone scenario_world ?b initial_state =
      tone scenario_world (JObj [(''text'', JStr ''ok''), (''mode'', JStr ''casual'')]) initial_state"
    by blast
  moreover from T obtain r s' where "tone scenario_world ?b initial_state = (Inr r, s')"
    "status_code r = 400 \<longleftrightarrow> \<not> truthy_opt (get_prop ''text'' (Some ?b)) \<or>
       \<not> truthy_opt (get_prop ''mode'' (Some ?b))" by blast
  moreover from this(2) have "status_code r \<noteq> 400" by simp
  ultimately show ?thesis by blast
qed

section \<open>The listing fallback is tried once\<close>

lemma find_gemini_Some:
  "find_gemini ms = Inr (Some m) \<Longrightarrow>
   \<exists>pre post. ms = pre @ m # post \<and> gemini_like m \<and> (\<forall>m'\<in>set pre. \<not> gemini_like m')"
proof (induction ms)
  case Nil
  then show ?case by simp
next
  case (Cons a ms)
  show ?case
  proof (cases "gemini_like a")
    case True
    with Cons.prems have "a = m"
      by (auto simp: gemini_like_def split: option.splits)
    with True have "a # ms = [] @ m # ms \<and> gemini_like m \<and> (\<forall>m'\<in>set []. \<not> gemini_like m')"
      by simp
    then show ?thesis by blast
  next
    case False
    with Cons.prems have "find_gemini ms = Inr (Some m)"
      by (auto simp: gemini_like_def split: option.splits if_splits)
    from Cons.IH [OF this] obtain pre post where
      "ms = pre @ m # post" "gemini_like m" "\<forall>m'\<in>set pre. \<not> gemini_like m'" by blast
    with False have "a # ms = (a # pre) @ m # post \<and> gemini_like m \<and>
        (\<forall>m'\<in>set (a # pre). \<not> gemini_like m')" by simp
    then show ?thesis by blast
  qed
qed

lemma find_gemini_None: "find_gemini ms = Inr None \<Longrightarrow> \<forall>m\<in>set ms. \<not> gemini_like m"
  by (induction ms) (auto simp: gemini_like_def split: option.splits if_splits)

lemma ensureWorkingModel_exhausted:
  assumes "\<not> truthy (cachedModel s)"
    and "\<forall>i<length CANDIDATE_MODELS. \<not> reply_success w
        (fetch w (length (sent s) + i) (Post (generate_url w (CANDIDATE_MODELS ! i)) p))"
  shows "ensureWorkingModel w p s = try_listed w p (after_candidates w p s)"
proof -
  have "try_candidates w p (CANDIDATE_MODELS @ []) s = try_candidates w p [] (after_candidates w p s)"
    unfolding after_candidates_def using assms(2) by (rule try_candidates_failures)
  then show ?thesis using assms(1) by (simp add: ensureWorkingModel_def)
qed

lemma try_listed_picked:
  assumes "listAvailableModels w s1 = (JArr (x # xs), s2)"
    and "find_gemini (x # xs) = Inr found"
    and "truthy (or_else found x)"
    and "ToString (name_model_id (or_else found x) (or_else found x)) = Some i"
  shows "try_listed w p s1 =
     (if reply_success w (fetch w (length (sent s2)) (Post (generate_url w i) p))
      then (Inr (name_model_id (or_else found x) (or_else found x)),
            log (WorkingModelFromList i)
              ((snd (tryModelGenerate w (name_model_id (or_else found x) (or_else found x)) p
                       (log (TryingListed i) s2)))
               \<lparr>cachedModel := name_model_id (or_else found x) (or_else found x)\<rparr>))
      else (Inl no_usable_model,
            snd (tryModelGenerate w (name_model_id (or_else found x) (or_else found x)) p
                   (log (TryingListed i) s2))))"
  using assms
  by (simp add: try_listed_def tryModelGenerate_Some log_def ok_attempt_of Let_def
      del: find_gemini.simps)

lemma try_listed_sent:
  "\<exists>j posts. 0 < j \<and> j \<le> 2 \<and> (posts = [] \<or> (\<exists>u. posts = [Post u p])) \<and>
     sent (snd (try_listed w p s)) = sent s @ map Get (take j endpoints) @ posts"
proof -
  from listAvailableModels_sent [of w s] obtain j where
    j: "j \<le> 2" "0 < j" "sent (snd (listAvailableModels w s)) = sent s @ map Get (take j endpoints)"
    by blast
  from try_listed_outcome [of w p s] consider
    "sent (snd (try_listed w p s)) = sent (snd (listAvailableModels w s))"
    | i where "sent (snd (try_listed w p s)) =
        sent (snd (listAvailableModels w s)) @ [Post (generate_url w i) p]"
    by blast
  then show ?thesis
  proof cases
    case 1
    with j show ?thesis by (intro exI [of _ j] exI [of _ "[]"]) simp
  next
    case 2
    with j show ?thesis by (intro exI [of _ j] exI [of _ "[Post (generate_url w i) p]"]) simp
  qed
qed

lemma gemini_like_picked: "gemini_like m \<Longrightarrow> or_else (Some m) x = m"
  by (cases m) (simp_all add: gemini_like_def name_model_id_def or_else_def)

text \<open>
  Claim C6. With no model cached and every candidate failed, \<open>ensureWorkingModel\<close> goes on
  to the listing: after the candidates' requests it queries one or both listing endpoints
  and then sends at most one more generation request before it returns or throws. When
  the listing is a non-empty array whose chosen entry is truthy and has an identifier
  that converts to a string, exactly one generation request follows, for that
  identifier; its success is returned and its failure is the thrown error. The chosen
  entry is the first one whose \<open>name\<close>, \<open>model\<close> or \<open>id\<close> contains \<open>gemini\<close>, and the first entry
  of the listing when there is none.
\<close>

theorem listing_fallback_once:
  assumes "\<not> truthy (cachedModel s)"
    and "\<forall>i<length CANDIDATE_MODELS. \<not> reply_success w
        (fetch w (length (sent s) + i) (Post (generate_url w (CANDIDATE_MODELS ! i)) p))"
  shows "ensureWorkingModel w p s = try_listed w p (after_candidates w p s) \<and>
    (\<exists>j posts. 0 < j \<and> j \<le> 2 \<and> (posts = [] \<or> (\<exists>u. posts = [Post u p])) \<and>
       sent (snd (ensureWorkingModel w p s)) =
         sent s @ map (\<lambda>m. Post (generate_url w m) p) CANDIDATE_MODELS @
         map Get (take j endpoints) @ posts) \<and>
    (\<forall>x xs s2 found i.
       listAvailableModels w (after_candidates w p s) = (JArr (x # xs), s2) \<and>
       find_gemini (x # xs) = Inr found \<and> truthy (or_else found x) \<and>
       ToString (name_model_id (or_else found x) (or_else found x)) = Some i \<longrightarrow>
         sent (snd (ensureWorkingModel w p s)) = sent s2 @ [Post (generate_url w i) p] \<and>
         (reply_success w (fetch w (length (sent s2)) (Post (generate_url w i) p)) \<longrightarrow>
            fst (ensureWorkingModel w p s) =
              Inr (name_model_id (or_else found x) (or_else found x))) \<and>
         (\<not> reply_success w (fetch w (length (sent s2)) (Post (generate_url w i) p)) \<longrightarrow>
            fst (ensureWorkingModel w p s) = Inl no_usable_model)) \<and>
    (\<forall>ms m. find_gemini ms = Inr (Some m) \<longrightarrow>
       (\<exists>pre post. ms = pre @ m # post \<and> gemini_like m \<and> (\<forall>m'\<in>set pre. \<not> gemini_like m'))) \<and>
    (\<forall>ms. find_gemini ms = Inr None \<longrightarrow> (\<forall>m\<in>set ms. \<not> gemini_like m)) \<and>
    (\<forall>m x. gemini_like m \<longrightarrow> or_else (Some m) x = m) \<and>
    (\<forall>x. or_else None x = x)"
proof -
  let ?s1 = "after_candidates w p s"
  have e: "ensureWorkingModel w p s = try_listed w p ?s1"
    using assms by (rule ensureWorkingModel_exhausted)
  have sent1: "sent ?s1 = sent s @ map (\<lambda>m. Post (generate_url w m) p) CANDIDATE_MODELS"
    by (simp add: after_candidates_def)
  from try_listed_sent [of p w ?s1]
  have a: "\<exists>j posts. 0 < j \<and> j \<le> 2 \<and> (posts = [] \<or> (\<exists>u. posts = [Post u p])) \<and>
       sent (snd (ensureWorkingModel w p s)) =
         sent s @ map (\<lambda>m. Post (generate_url w m) p) CANDIDATE_MODELS @
         map Get (take j endpoints) @ posts"
    unfolding e sent1 by simp
  have b: "sent (snd (ensureWorkingModel w p s)) = sent s2 @ [Post (generate_url w i) p] \<and>
         (reply_success w (fetch w (length (sent s2)) (Post (generate_url w i) p)) \<longrightarrow>
            fst (ensureWorkingModel w p s) =
              Inr (name_model_id (or_else found x) (or_else found x))) \<and>
         (\<not> reply_success w (fetch w (length (sent s2)) (Post (generate_url w i) p)) \<longrightarrow>
            fst (ensureWorkingModel w p s) = Inl no_usable_model)"
    if "listAvailableModels w ?s1 = (JArr (x # xs), s2) \<and>
       find_gemini (x # xs) = Inr found \<and> truthy (or_else found x) \<and>
       ToString (name_model_id (or_else found x) (or_else found x)) = Some i"
    for x xs s2 found i
  proof -
    from that have t: "listAvailableModels w ?s1 = (JArr (x # xs), s2)"
      "find_gemini (x # xs) = Inr found" "truthy (or_else found x)"
      "ToString (name_model_id (or_else found x) (or_else found x)) = Some i" by blast+
    show ?thesis
      unfolding e try_listed_picked [OF t]
      by (simp add: tryModelGenerate_Some [OF t(4)] log_def)
  qed
  have c: "or_else None x = x" for x by (simp add: or_else_def)
  from e a b c find_gemini_Some find_gemini_None gemini_like_picked show ?thesis
    by (intro conjI allI impI) blast+
qed

theorem listing_fallback_once_witness:
  "fst (ensureWorkingModel listing_world ''Say hello'' initial_state) = Inl no_usable_model \<and>
   sent (snd (ensureWorkingModel listing_world ''Say hello'' initial_state)) =
     map (\<lambda>m. Post (generate_url listing_world m) ''Say hello'') CANDIDATE_MODELS @
     [Get ''https://generativelanguage.googleapis.com/v1beta/models'',
      Post (generate_url listing_world ''models/Gemini-pro'') ''Say hello'']"
proof -
  let ?s1 = "after_candidates listing_world ''Say hello'' initial_state"
  let ?a = "JObj [(''name'', JStr ''models/text-bison'')]"
  let ?b = "JObj [(''name'', JStr ''models/Gemini-pro'')]"
  have h1: "\<not> truthy (cachedModel initial_state)" by (simp add: initial_state_def)
  have h2: "\<forall>i<length CANDIDATE_MODELS. \<not> reply_success listing_world
        (fetch listing_world (length (sent initial_state) + i)
           (Post (generate_url listing_world (CANDIDATE_MODELS ! i)) ''Say hello''))"
    by (simp add: listing_world_def reply_success_def)
  have l: "listAvailableModels listing_world ?s1 =
      (JArr [?a, ?b],
       log (ModelsListed (JArr [?a, ?b]))
         (log (ModelsResponse ''https://generativelanguage.googleapis.com/v1beta/models'')
            (?s1\<lparr>sent := sent ?s1 @
               [Get ''https://generativelanguage.googleapis.com/v1beta/models'']\<rparr>)))"
    by (simp add: listAvailableModels_def endpoints_def do_fetch_def listing_world_def or_else_def)
  have f: "find_gemini [?a, ?b] = Inr (Some ?b)"
    by code_simp
  have g: "truthy (or_else (Some ?b) ?a)" by (simp add: or_else_def)
  have i: "ToString (name_model_id (or_else (Some ?b) ?a) (or_else (Some ?b) ?a)) =
      Some ''models/Gemini-pro''"
    by (simp add: name_model_id_def or_else_def)
  note T = listing_fallback_once [OF h1 h2]
  from T l f g i have
    "sent (snd (ensureWorkingModel listing_world ''Say hello'' initial_state)) =
       sent (log (ModelsListed (JArr [?a, ?b]))
               (log (ModelsResponse ''https://generativelanguage.googleapis.com/v1beta/models'')
                  (?s1\<lparr>sent := sent ?s1 @
                     [Get ''https://generativelanguage.googleapis.com/v1beta/models'']\<rparr>))) @
       [Post (generate_url listing_world ''models/Gemini-pro'') ''Say hello'']"
    and "\<not> reply_success listing_world (fetch listing_world
           (length (sent (log (ModelsListed (JArr [?a, ?b]))
               (log (ModelsResponse ''https://generativelanguage.googleapis.com/v1beta/models'')
                  (?s1\<lparr>sent := sent ?s1 @
                     [Get ''https://generativelanguage.googleapis.com/v1beta/models'']\<rparr>)))))
           (Post (generate_url listing_world ''models/Gemini-pro'') ''Say hello'')) \<longrightarrow>
         fst (ensureWorkingModel listing_world ''Say hello'' initial_state) = Inl no_usable_model"
    by blast+
  then show ?thesis
    by (simp add: log_def after_candidates_def initial_state_def listing_world_def
        reply_success_def)
qed

section \<open>Total failure\<close>

lemma api_loop_failures:
  assumes "\<forall>i<length models. \<not> backend_success w
      (fetch w (length (sent s) + i) (Post (api_url w (models ! i)) p))"
  shows "fst (api_loop w p models s) = Inl all_models_failed"
  using assms
proof (induction models arbitrary: s)
  case Nil
  then show ?case by simp
next
  case (Cons model models)
  let ?rq = "Post (api_url w model) p"
  let ?s1 = "s\<lparr>sent := sent s @ [?rq]\<rparr>"
  have later: "fst (api_loop w p models s') = Inl all_models_failed"
    if "length (sent s') = Suc (length (sent s))" for s'
  proof (rule Cons.IH, intro allI impI)
    fix i assume "i < length models"
    then have "Suc i < length (model # models)" by simp
    with Cons.prems have "\<not> backend_success w
      (fetch w (length (sent s) + Suc i) (Post (api_url w ((model # models) ! Suc i)) p))"
      by blast
    with that show "\<not> backend_success w
      (fetch w (length (sent s') + i) (Post (api_url w (models ! i)) p))" by simp
  qed
  have l1: "fst (api_loop w p models ?s1) = Inl all_models_failed"
    by (rule later) simp
  have l2: "fst (api_loop w p models (log l ?s1)) = Inl all_models_failed" for l
    by (rule later) (simp add: log_def)
  from Cons.prems have nf: "\<not> backend_success w (fetch w (length (sent s)) ?rq)"
    by (metis add.right_neutral length_greater_0_conv list.distinct(1) nth_Cons_0)
  show ?case
    using nf l1 l2
    by (auto simp: do_fetch_def backend_success_def split: reply.splits sum.splits option.splits)
qed

lemma callGemini_exhausted:
  assumes "\<not> truthy (cachedModel s)"
    and "\<forall>i<length CANDIDATE_MODELS. \<not> reply_success w
        (fetch w (length (sent s) + i) (Post (generate_url w (CANDIDATE_MODELS ! i)) p))"
    and "\<forall>j\<in>{1, 2}. \<forall>u. \<not> reply_success w
        (fetch w (length (sent s) + length CANDIDATE_MODELS + j) (Post u p))"
  shows "\<exists>e. (e = no_usable_model \<or> e = TypeError) \<and> fst (callGemini w p s) = Inl e"
proof -
  let ?s1 = "after_candidates w p s"
  let ?s2 = "snd (listAvailableModels w ?s1)"
  have e: "ensureWorkingModel w p s = try_listed w p ?s1"
    using assms(1,2) by (rule ensureWorkingModel_exhausted)
  from listAvailableModels_sent [of w ?s1] obtain j where
    j: "j \<le> 2" "0 < j" "sent ?s2 = sent ?s1 @ map Get (take j endpoints)" by blast
  then have "length (sent ?s2) = length (sent s) + length CANDIDATE_MODELS + j"
    by (simp add: after_candidates_def endpoints_def)
  moreover from j(1,2) have "j \<in> {1, 2}" by auto
  ultimately have nf: "\<not> reply_success w (fetch w (length (sent ?s2)) (Post u p))" for u
    using assms(3) by metis
  from try_listed_outcome [of w p ?s1] nf
  have "\<exists>e. (e = no_usable_model \<or> e = TypeError) \<and> fst (try_listed w p ?s1) = Inl e"
    by auto
  then obtain err where err: "err = no_usable_model \<or> err = TypeError"
    "fst (try_listed w p ?s1) = Inl err" by blast
  then have "fst (callGemini w p s) = Inl err"
    unfolding callGemini_def e by (cases "try_listed w p ?s1") auto
  with err(1) show ?thesis by blast
qed

lemma message_nonempty: "e = no_usable_model \<or> e = TypeError \<Longrightarrow> message_or_err e = JStr (message e)"
  by (auto simp: message_or_err_def no_usable_model_def)

lemma js_object_two [simp]: "js_object [(k, Some v), (k', Some v')] = JObj [(k, v), (k', v')]"
  by (simp add: js_object_def)

lemma route_try_exhausted:
  assumes "\<not> truthy (cachedModel s)"
    and "\<forall>i<length CANDIDATE_MODELS. \<forall>q. \<not> reply_success w
        (fetch w (length (sent s) + i) (Post (generate_url w (CANDIDATE_MODELS ! i)) q))"
    and "\<forall>j\<in>{1, 2}. \<forall>u q. \<not> reply_success w
        (fetch w (length (sent s) + length CANDIDATE_MODELS + j) (Post u q))"
  shows "\<exists>e s'. (e = no_usable_model \<or> e = TypeError) \<and>
           route_try w route template key tx s =
             (Inr \<lparr>status_code = 500,
                   json_body = JObj [(''error'', JStr ''Gemini request failed''),
                                     (''details'', JStr (message e))]\<rparr>, s')"
proof (cases "ToString tx")
  case None
  then have "route_try w route template key tx s =
      (Inr \<lparr>status_code = 500,
             json_body = JObj [(''error'', JStr ''Gemini request failed''),
                               (''details'', JStr (message TypeError))]\<rparr>,
       log (RouteError route (message_or_err TypeError)) s)"
    by (simp add: route_try_def route_catch_def message_nonempty)
  then show ?thesis by blast
next
  case (Some t)
  from assms(2) have c: "\<forall>i<length CANDIDATE_MODELS. \<not> reply_success w
        (fetch w (length (sent s) + i) (Post (generate_url w (CANDIDATE_MODELS ! i)) (template @ t)))"
    by blast
  from assms(3) have l: "\<forall>j\<in>{1, 2}. \<forall>u. \<not> reply_success w
        (fetch w (length (sent s) + length CANDIDATE_MODELS + j) (Post u (template @ t)))"
    by blast
  from callGemini_exhausted [OF assms(1) c l] obtain e where
    e: "e = no_usable_model \<or> e = TypeError" "fst (callGemini w (template @ t) s) = Inl e"
    by blast
  then obtain s1 where "callGemini w (template @ t) s = (Inl e, s1)"
    by (cases "callGemini w (template @ t) s") simp
  with Some e(1) have "route_try w route template key tx s =
      (Inr \<lparr>status_code = 500,
             json_body = JObj [(''error'', JStr ''Gemini request failed''),
                               (''details'', JStr (message e))]\<rparr>,
       log (RouteError route (message_or_err e)) s1)"
    by (simp add: route_try_def route_catch_def message_nonempty)
  with e(1) show ?thesis by blast
qed

lemma backend_try_exhausted:
  assumes "\<forall>i<length GEMINI_MODELS. \<forall>q. \<not> backend_success w
      (fetch w (length (sent s) + i) (Post (api_url w (GEMINI_MODELS ! i)) q))"
  shows "\<exists>s'. backend_try w label template tx s =
           (\<lparr>status_code = 500,
             json_body = JObj [(''error'', JStr ''Error contacting Gemini API'')]\<rparr>, s')"
proof (cases "ToString tx")
  case None
  then show ?thesis by (simp add: backend_try_def backend_catch_def)
next
  case (Some t)
  from assms have "\<forall>i<length GEMINI_MODELS. \<not> backend_success w
      (fetch w (length (sent s) + i) (Post (api_url w (GEMINI_MODELS ! i)) (template @ t)))"
    by blast
  then have "fst (callGeminiAPI w (template @ t) s) = Inl all_models_failed"
    unfolding callGeminiAPI_def by (rule api_loop_failures)
  then obtain s1 where "callGeminiAPI w (template @ t) s = (Inl all_models_failed, s1)"
    by (cases "callGeminiAPI w (template @ t) s") simp
  with Some show ?thesis by (simp add: backend_try_def backend_catch_def)
qed

text \<open>
  Claim C3, as amended. In the server with model resolution, when no model is cached,
  every candidate's attempt fails and the attempt with a listed model fails too if
  listing supplies one (it is the request after the one or two listing queries),
  \<open>callGemini\<close> throws, and each route answers 500 with an \<open>error\<close> message and a \<open>details\<close>
  property holding the message of the thrown error. In the backend server, when both
  models fail, \<open>callGeminiAPI\<close> throws, and each route answers 500 with an \<open>error\<close> message
  only.
\<close>

theorem generation_failure_surfaces:
  "(\<not> truthy (cachedModel s) \<and>
    (\<forall>i<length CANDIDATE_MODELS. \<forall>q. \<not> reply_success w
        (fetch w (length (sent s) + i) (Post (generate_url w (CANDIDATE_MODELS ! i)) q))) \<and>
    (\<forall>j\<in>{1, 2}. \<forall>u q. \<not> reply_success w
        (fetch w (length (sent s) + length CANDIDATE_MODELS + j) (Post u q))) \<longrightarrow>
      (\<exists>e. (e = no_usable_model \<or> e = TypeError) \<and> fst (callGemini w prompt s) = Inl e) \<and>
      (\<forall>tx. req_body \<noteq> JNull \<and> get_prop ''text'' (Some req_body) = Some tx \<and> truthy tx \<longrightarrow>
         (\<exists>e s'. (e = no_usable_model \<or> e = TypeError) \<and>
            humanize w req_body s =
              (Inr \<lparr>status_code = 500,
                    json_body = JObj [(''error'', JStr ''Gemini request failed''),
                                      (''details'', JStr (message e))]\<rparr>, s')) \<and>
         (\<exists>e s'. (e = no_usable_model \<or> e = TypeError) \<and>
            summarize w req_body s =
              (Inr \<lparr>status_code = 500,
                    json_body = JObj [(''error'', JStr ''Gemini request failed''),
                                      (''details'', JStr (message e))]\<rparr>, s')) \<and>
         (truthy_opt (get_prop ''mode'' (Some req_body)) \<longrightarrow>
            (\<exists>e s'. (e = no_usable_model \<or> e = TypeError) \<and>
               tone w req_body s =
                 (Inr \<lparr>status_code = 500,
                       json_body = JObj [(''error'', JStr ''Gemini request failed''),
                                         (''details'', JStr (message e))]\<rparr>, s'))))) \<and>
   ((\<forall>i<length GEMINI_MODELS. \<forall>q. \<not> backend_success w
        (fetch w (length (sent s) + i) (Post (api_url w (GEMINI_MODELS ! i)) q))) \<longrightarrow>
      fst (callGeminiAPI w prompt s) = Inl all_models_failed \<and>
      (\<forall>tx. req_body \<noteq> JNull \<and> get_prop ''text'' (Some req_body) = Some tx \<and> truthy tx \<longrightarrow>
         (\<exists>s'. backend_humanize w req_body s =
              (\<lparr>status_code = 500,
                json_body = JObj [(''error'', JStr ''Error contacting Gemini API'')]\<rparr>, s')) \<and>
         (\<exists>s'. backend_summarize w req_body s =
              (\<lparr>status_code = 500,
                json_body = JObj [(''error'', JStr ''Error contacting Gemini API'')]\<rparr>, s')) \<and>
         (truthy_opt (get_prop ''mode'' (Some req_body)) \<longrightarrow>
            (\<exists>s'. backend_tone w req_body s =
                 (\<lparr>status_code = 500,
                   json_body = JObj [(''error'', JStr ''Error contacting Gemini API'')]\<rparr>, s')))))"
proof (intro conjI impI allI; (elim conjE)?)
  assume nc: "\<not> truthy (cachedModel s)"
    and c: "\<forall>i<length CANDIDATE_MODELS. \<forall>q. \<not> reply_success w
        (fetch w (length (sent s) + i) (Post (generate_url w (CANDIDATE_MODELS ! i)) q))"
    and l: "\<forall>j\<in>{1, 2}. \<forall>u q. \<not> reply_success w
        (fetch w (length (sent s) + length CANDIDATE_MODELS + j) (Post u q))"
  from c have c': "\<forall>i<length CANDIDATE_MODELS. \<not> reply_success w
        (fetch w (length (sent s) + i) (Post (generate_url w (CANDIDATE_MODELS ! i)) prompt))"
    by blast
  from l have l': "\<forall>j\<in>{1, 2}. \<forall>u. \<not> reply_success w
        (fetch w (length (sent s) + length CANDIDATE_MODELS + j) (Post u prompt))"
    by blast
  show "\<exists>e. (e = no_usable_model \<or> e = TypeError) \<and> fst (callGemini w prompt s) = Inl e"
    using nc c' l' by (rule callGemini_exhausted)
next
  fix tx
  assume nc: "\<not> truthy (cachedModel s)"
    and c: "\<forall>i<length CANDIDATE_MODELS. \<forall>q. \<not> reply_success w
        (fetch w (length (sent s) + i) (Post (generate_url w (CANDIDATE_MODELS ! i)) q))"
    and l: "\<forall>j\<in>{1, 2}. \<forall>u q. \<not> reply_success w
        (fetch w (length (sent s) + length CANDIDATE_MODELS + j) (Post u q))"
    and a: "req_body \<noteq> JNull" "get_prop ''text'' (Some req_body) = Some tx" "truthy tx"
  note rt = route_try_exhausted [OF nc c l]
  from a show "\<exists>e s'. (e = no_usable_model \<or> e = TypeError) \<and>
            humanize w req_body s =
              (Inr \<lparr>status_code = 500,
                    json_body = JObj [(''error'', JStr ''Gemini request failed''),
                                      (''details'', JStr (message e))]\<rparr>, s')"
    using rt by (simp add: humanize_def)
  from a show "\<exists>e s'. (e = no_usable_model \<or> e = TypeError) \<and>
            summarize w req_body s =
              (Inr \<lparr>status_code = 500,
                    json_body = JObj [(''error'', JStr ''Gemini request failed''),
                                      (''details'', JStr (message e))]\<rparr>, s')"
    using rt by (simp add: summarize_def)
  {
    assume "truthy_opt (get_prop ''mode'' (Some req_body))"
    with a show "\<exists>e s'. (e = no_usable_model \<or> e = TypeError) \<and>
               tone w req_body s =
                 (Inr \<lparr>status_code = 500,
                       json_body = JObj [(''error'', JStr ''Gemini request failed''),
                                         (''details'', JStr (message e))]\<rparr>, s')"
      using rt by (simp add: tone_def Let_def)
  }
next
  assume b: "\<forall>i<length GEMINI_MODELS. \<forall>q. \<not> backend_success w
        (fetch w (length (sent s) + i) (Post (api_url w (GEMINI_MODELS ! i)) q))"
  then have "\<forall>i<length GEMINI_MODELS. \<not> backend_success w
        (fetch w (length (sent s) + i) (Post (api_url w (GEMINI_MODELS ! i)) prompt))"
    by blast
  then show "fst (callGeminiAPI w prompt s) = Inl all_models_failed"
    unfolding callGeminiAPI_def by (rule api_loop_failures)
next
  fix tx
  assume b: "\<forall>i<length GEMINI_MODELS. \<forall>q. \<not> backend_success w
        (fetch w (length (sent s) + i) (Post (api_url w (GEMINI_MODELS ! i)) q))"
    and a: "req_body \<noteq> JNull" "get_prop ''text'' (Some req_body) = Some tx" "truthy tx"
  note bt = backend_try_exhausted [OF b]
  from a show "\<exists>s'. backend_humanize w req_body s =
              (\<lparr>status_code = 500,
                json_body = JObj [(''error'', JStr ''Error contacting Gemini API'')]\<rparr>, s')"
    using bt by (simp add: backend_humanize_def)
  from a show "\<exists>s'. backend_summarize w req_body s =
              (\<lparr>status_code = 500,
                json_body = JObj [(''error'', JStr ''Error contacting Gemini API'')]\<rparr>, s')"
    using bt by (simp add: backend_summarize_def)
  {
    assume "truthy_opt (get_prop ''mode'' (Some req_body))"
    with a show "\<exists>s'. backend_tone w req_body s =
                 (\<lparr>status_code = 500,
                   json_body = JObj [(''error'', JStr ''Error contacting Gemini API'')]\<rparr>, s')"
      using bt by (simp add: backend_tone_def Let_def)
  }
qed

theorem generation_failure_surfaces_witness:
  "fst (callGemini down_world ''Hello world'' initial_state) = Inl no_usable_model \<and>
   (\<exists>e s'. (e = no_usable_model \<or> e = TypeError) \<and>
      humanize down_world (JObj [(''text'', JStr ''abc'')]) initial_state =
        (Inr \<lparr>status_code = 500,
              json_body = JObj [(''error'', JStr ''Gemini request failed''),
                                (''details'', JStr (message e))]\<rparr>, s')) \<and>
   (\<exists>s'. backend_humanize down_world (JObj [(''text'', JStr ''abc'')]) initial_state =
        (\<lparr>status_code = 500,
          json_body = JObj [(''error'', JStr ''Error contacting Gemini API'')]\<rparr>, s'))"
proof -
  have h1: "\<not> truthy (cachedModel initial_state)" by (simp add: initial_state_def)
  have h2: "\<forall>i<length CANDIDATE_MODELS. \<forall>q. \<not> reply_success down_world
        (fetch down_world (length (sent initial_state) + i)
           (Post (generate_url down_world (CANDIDATE_MODELS ! i)) q))"
    by (simp add: down_world_def reply_success_def)
  have h3: "\<forall>j\<in>{1, 2}. \<forall>u q. \<not> reply_success down_world
        (fetch down_world (length (sent initial_state) + length CANDIDATE_MODELS + j) (Post u q))"
    by (simp add: down_world_def reply_success_def)
  have h4: "\<forall>i<length GEMINI_MODELS. \<forall>q. \<not> backend_success down_world
        (fetch down_world (length (sent initial_state) + i)
           (Post (api_url down_world (GEMINI_MODELS ! i)) q))"
    by (simp add: down_world_def backend_success_def)
  have b: "JObj [(''text'', JStr ''abc'')] \<noteq> JNull \<and>
      get_prop ''text'' (Some (JObj [(''text'', JStr ''abc'')])) = Some (JStr ''abc'') \<and>
      truthy (JStr ''abc'')" by simp
  note T = generation_failure_surfaces [of initial_state down_world "''Hello world''"
      "JObj [(''text'', JStr ''abc'')]"]
  have "fst (callGemini down_world ''Hello world'' initial_state) \<noteq> Inl TypeError"
    by code_simp
  with T h1 h2 h3 have "fst (callGemini down_world ''Hello world'' initial_state) = Inl no_usable_model"
    by auto
  moreover from T h1 h2 h3 b have "\<exists>e s'. (e = no_usable_model \<or> e = TypeError) \<and>
      humanize down_world (JObj [(''text'', JStr ''abc'')]) initial_state =
        (Inr \<lparr>status_code = 500,
              json_body = JObj [(''error'', JStr ''Gemini request failed''),
                                (''details'', JStr (message e))]\<rparr>, s')"
    by blast
  moreover from T h4 b have "\<exists>s'. backend_humanize down_world (JObj [(''text'', JStr ''abc'')])
      initial_state =
        (\<lparr>status_code = 500,
          json_body = JObj [(''error'', JStr ''Error contacting Gemini API'')]\<rparr>, s')"
    by blast
  ultimately show ?thesis by blast
qed

text \<open>
  Claim C3 as stated fails on the backend server: its 500 answer has no \<open>details\<close>
  property.
\<close>

theorem backend_failure_has_no_details:
  "fst (backend_humanize down_world (JObj [(''text'', JStr ''abc'')]) initial_state) =
     \<lparr>status_code = 500, json_body = JObj [(''error'', JStr ''Error contacting Gemini API'')]\<rparr> \<and>
   get_prop ''details''
     (Some (json_body (fst (backend_humanize down_world (JObj [(''text'', JStr ''abc'')])
                              initial_state)))) = None"
  by (simp add: backend_humanize_def backend_try_def backend_catch_def callGeminiAPI_def
      GEMINI_MODELS_def down_world_def do_fetch_def)

section \<open>Calls that overlap\<close>

text \<open>
  First the model cut at the awaits is compared with the model that runs a call in one
  piece: a call during which nothing else happens sends, logs, caches and returns what
  \<open>callGemini\<close> does, and a start-up listing does what \<open>startup\<close> does.
\<close>

lemma callGemini_after_model: "callGemini w p s = (case after_model w p (ensureWorkingModel w p s) of
    (Done r, s') \<Rightarrow> (r, s') | (t, s') \<Rightarrow> (Inl TypeError, s'))"
  by (simp add: callGemini_def after_model_def split: prod.splits sum.splits)

lemma finish_Done: "finish w n (Done r, s) = (Done r, s)"
  by (induction n) simp_all

lemma completes_Done: "completes w (Done r, s) (Done r, s)"
  unfolding completes_def by (rule exI [of _ 0]) simp

lemma completes_step: "completes w (resume w t s) r \<Longrightarrow> completes w (t, s) r"
  unfolding completes_def by (elim exE, rule_tac x = "Suc n" in exI) simp

lemma final_call_completes:
  "completes w (final_call w p modelId s) (after_model w p (Inr modelId, s))"
proof (cases "ToString modelId")
  case None
  then show ?thesis
    by (simp add: final_call_def after_model_def tryModelGenerate_def completes_Done)
next
  case (Some m)
  have "resume w (AwaitFinal p m (length (sent s))) (send (Post (generate_url w m) p) s) =
      after_model w p (Inr modelId, s)"
    by (simp add: after_model_def tryModelGenerate_Some [OF Some] attempt_reply_def send_def)
  moreover have "\<exists>r s'. after_model w p (Inr modelId, s) = (Done r, s')"
    by (simp add: after_model_def tryModelGenerate_Some [OF Some])
  ultimately have "completes w (resume w (AwaitFinal p m (length (sent s)))
      (send (Post (generate_url w m) p) s)) (after_model w p (Inr modelId, s))"
    using completes_Done by auto
  then show ?thesis
    using Some by (simp add: final_call_def completes_step)
qed

lemma try_listed_listed_part: "try_listed w p s = listed_part w p (listAvailableModels w s)"
  by (simp add: try_listed_def listed_part_def)

lemma after_model_callGemini:
  "after_model w p (ensureWorkingModel w p s) = (Done (fst (callGemini w p s)), snd (callGemini w p s))"
  by (simp add: callGemini_def after_model_def split: prod.splits sum.splits)

lemma after_model_Inl: "after_model w p (Inl e, s) = (Done (Inl e), s)"
  by (simp add: after_model_def)

lemma call_listed_completes:
  "completes w (call_listed w p listed s) (after_model w p (listed_part w p (listed, s)))"
proof (cases "\<exists>x xs. listed = JArr (x # xs)")
  case False
  then have "call_listed w p listed s = (Done (Inl no_usable_model), s)"
    "listed_part w p (listed, s) = (Inl no_usable_model, s)"
    by (auto simp: call_listed_def listed_part_def split: json.splits list.splits)
  then show ?thesis by (simp add: after_model_Inl completes_Done)
next
  case True
  then obtain x xs where lx: "listed = JArr (x # xs)" by blast
  show ?thesis
  proof (cases "find_gemini (x # xs)")
    case (Inl e)
    with lx have "call_listed w p listed s = (Done (Inl e), s)"
      "listed_part w p (listed, s) = (Inl e, s)"
      by (simp_all add: call_listed_def listed_part_def)
    then show ?thesis by (simp add: after_model_Inl completes_Done)
  next
    case (Inr found)
    let ?g = "or_else found x"
    let ?ident = "name_model_id ?g ?g"
    show ?thesis
    proof (cases "truthy ?g")
      case False
      with Inr lx have "call_listed w p listed s = (Done (Inl no_usable_model), s)"
        "listed_part w p (listed, s) = (Inl no_usable_model, s)"
        by (simp_all add: call_listed_def listed_part_def)
      then show ?thesis by (simp add: after_model_Inl completes_Done)
    next
      case True
      show ?thesis
      proof (cases "ToString ?ident")
        case None
        with True Inr lx have "call_listed w p listed s = (Done (Inl TypeError), s)"
          "listed_part w p (listed, s) = (Inl TypeError, s)"
          by (simp_all add: call_listed_def listed_part_def)
        then show ?thesis by (simp add: after_model_Inl completes_Done)
      next
        case (Some i)
        let ?rq = "Post (generate_url w i) p"
        let ?rep = "fetch w (length (sent s)) ?rq"
        let ?s1 = "s\<lparr>sent := sent s @ [?rq],
                     console := console s @ TryingListed i # reply_logs i ?rep\<rparr>"
        have c: "call_listed w p listed s =
            (AwaitListed p ?ident i (length (sent s)), send ?rq (log (TryingListed i) s))"
          using True Inr lx Some
          by (simp add: call_listed_def Let_def del: find_gemini.simps)
        have l: "listed_part w p (listed, s) =
            (if reply_success w ?rep
             then (Inr ?ident, log (WorkingModelFromList i) (?s1\<lparr>cachedModel := ?ident\<rparr>))
             else (Inl no_usable_model, ?s1))"
          using True Inr lx Some
          by (simp add: listed_part_def Let_def tryModelGenerate_Some log_def ok_attempt_of
              del: find_gemini.simps)
        have r: "resume w (AwaitListed p ?ident i (length (sent s)))
              (send ?rq (log (TryingListed i) s)) =
            (if reply_success w ?rep
             then final_call w p ?ident (log (WorkingModelFromList i) (?s1\<lparr>cachedModel := ?ident\<rparr>))
             else (Done (Inl no_usable_model), ?s1))"
          by (simp add: attempt_reply_def send_def log_def ok_attempt_of)
        have "completes w (resume w (AwaitListed p ?ident i (length (sent s)))
              (send ?rq (log (TryingListed i) s))) (after_model w p (listed_part w p (listed, s)))"
          unfolding r l
          by (simp add: final_call_completes after_model_Inl completes_Done)
        then show ?thesis unfolding c by (rule completes_step)
      qed
    qed
  qed
qed

lemma list_endpoints_reply:
  "list_endpoints w (url # rest) s =
     (case endpoint_reply w url (fetch w (length (sent s)) (Get url)) (send (Get url) s) of
        (Some r, s1) \<Rightarrow> (Some r, s1)
      | (None, s1) \<Rightarrow> list_endpoints w rest s1)"
  by (simp add: do_fetch_def endpoint_reply_def send_def split: reply.splits sum.splits)

lemma listAvailableModels_listing_result:
  "listAvailableModels w s = listing_result (list_endpoints w endpoints s)"
  by (simp add: listAvailableModels_def listing_result_def)

lemma next_endpoint_completes:
  "completes w (next_endpoint w p urls s)
     (after_model w p (listed_part w p (listing_result (list_endpoints w urls s))))"
proof (induction urls arbitrary: s)
  case Nil
  then show ?case
    by (simp add: next_endpoint_def listing_result_def call_listed_completes)
next
  case (Cons url rest)
  obtain r s1 where er: "endpoint_reply w url (fetch w (length (sent s)) (Get url)) (send (Get url) s) = (r, s1)"
    by (cases "endpoint_reply w url (fetch w (length (sent s)) (Get url)) (send (Get url) s)")
  have "completes w (resume w (AwaitListing p url rest (length (sent s))) (send (Get url) s))
     (after_model w p (listed_part w p (listing_result (list_endpoints w (url # rest) s))))"
  proof (cases r)
    case None
    with er show ?thesis
      unfolding list_endpoints_reply by (simp add: Cons.IH)
  next
    case (Some l)
    with er show ?thesis
      unfolding list_endpoints_reply by (simp add: listing_result_def call_listed_completes)
  qed
  then show ?case
    by (simp add: next_endpoint_def completes_step)
qed

lemma next_candidate_completes:
  "completes w (next_candidate w p cands s)
     (after_model w p
        (case try_candidates w p cands s of
           (Inl e, s1) \<Rightarrow> (Inl e, s1)
         | (Inr (Some model), s1) \<Rightarrow> (Inr model, s1)
         | (Inr None, s1) \<Rightarrow> try_listed w p s1))"
proof (induction cands arbitrary: s)
  case Nil
  then show ?case
    using next_endpoint_completes [of w p endpoints s]
    by (simp add: next_candidate_def try_listed_listed_part listAvailableModels_listing_result)
next
  case (Cons model rest)
  let ?rq = "Post (generate_url w model) p"
  let ?rep = "fetch w (length (sent s)) ?rq"
  let ?s1 = "s\<lparr>sent := sent s @ [?rq], console := console s @ reply_logs model ?rep\<rparr>"
  have t: "tryModelGenerate w (JStr model) p s = (Inr (attempt_of w ?rep), ?s1)"
    by (simp add: tryModelGenerate_Some)
  have "completes w (resume w (AwaitCandidate p model rest (length (sent s))) (send ?rq s))
     (after_model w p
        (case try_candidates w p (model # rest) s of
           (Inl e, s1) \<Rightarrow> (Inl e, s1)
         | (Inr (Some model), s1) \<Rightarrow> (Inr model, s1)
         | (Inr None, s1) \<Rightarrow> try_listed w p s1))"
  proof (cases "ok (attempt_of w ?rep)")
    case True
    then show ?thesis
      using final_call_completes [of w p "JStr model"
          "(log (WorkingModelFound model) ?s1)\<lparr>cachedModel := JStr model\<rparr>"]
      by (simp add: t attempt_reply_def send_def)
  next
    case False
    then show ?thesis
      using Cons.IH [of "log (ModelFailed model
          (or_else (error (attempt_of w ?rep)) (JStr ''no-text''))) ?s1"]
      by (simp add: t attempt_reply_def send_def)
  qed
  then show ?case
    by (simp add: next_candidate_def completes_step)
qed

lemma begin_call_completes:
  "completes w (begin_call w p s) (Done (fst (callGemini w p s)), snd (callGemini w p s))"
proof (cases "truthy (cachedModel s)")
  case True
  then show ?thesis
    using final_call_completes [of w p "cachedModel s" s]
    by (simp add: begin_call_def after_model_callGemini [symmetric] ensureWorkingModel_def)
next
  case False
  then show ?thesis
    using next_candidate_completes [of w p CANDIDATE_MODELS s]
    by (simp add: begin_call_def after_model_callGemini [symmetric] ensureWorkingModel_def)
qed

lemma startup_endpoint_completes:
  "completes w (startup_endpoint urls s) (Started, snd (listing_result (list_endpoints w urls s)))"
proof (induction urls arbitrary: s)
  case Nil
  then show ?case
    by (simp add: startup_endpoint_def listing_result_def completes_def exI [of _ 0])
next
  case (Cons url rest)
  obtain r s1 where er: "endpoint_reply w url (fetch w (length (sent s)) (Get url)) (send (Get url) s) = (r, s1)"
    by (cases "endpoint_reply w url (fetch w (length (sent s)) (Get url)) (send (Get url) s)")
  have "completes w (resume w (AwaitStartup url rest (length (sent s))) (send (Get url) s))
     (Started, snd (listing_result (list_endpoints w (url # rest) s)))"
  proof (cases r)
    case None
    with er show ?thesis
      unfolding list_endpoints_reply by (simp add: Cons.IH)
  next
    case (Some l)
    with er show ?thesis
      unfolding list_endpoints_reply
      by (simp add: listing_result_def completes_def exI [of _ 0])
  qed
  then show ?case
    by (simp add: startup_endpoint_def completes_step)
qed

lemma exec_replies:
  "exec w (replicate n (Reply (length ts))) (s, ts @ [t]) =
     (snd (finish w n (t, s)), ts @ [fst (finish w n (t, s))])"
proof (induction n arbitrary: t s)
  case 0
  then show ?case by simp
next
  case (Suc n)
  obtain t1 s1 where r: "resume w t s = (t1, s1)" by (cases "resume w t s")
  then show ?case using Suc.IH [of s1 t1] by simp
qed

lemma call_alone:
  "\<exists>n. exec w (Call p # replicate n (Reply (length ts))) (s, ts) =
     (snd (callGemini w p s), ts @ [Done (fst (callGemini w p s))])"
proof -
  obtain t s1 where b: "begin_call w p s = (t, s1)" by (cases "begin_call w p s")
  from begin_call_completes [of w p s] b obtain n where
    "finish w n (t, s1) = (Done (fst (callGemini w p s)), snd (callGemini w p s))"
    by (auto simp: completes_def)
  then have "exec w (Call p # replicate n (Reply (length ts))) (s, ts) =
     (snd (callGemini w p s), ts @ [Done (fst (callGemini w p s))])"
    using b by (simp add: exec_replies)
  then show ?thesis ..
qed

lemma listen_alone:
  "\<exists>n. exec w (Listen # replicate n (Reply (length ts))) (s, ts) = (startup w s, ts @ [Started])"
proof -
  obtain t s1 where b: "startup_endpoint endpoints s = (t, s1)"
    by (cases "startup_endpoint endpoints s")
  from startup_endpoint_completes [of w endpoints s] b obtain n where
    "finish w n (t, s1) = (Started, startup w s)"
    by (auto simp: completes_def startup_def listAvailableModels_listing_result)
  then have "exec w (Listen # replicate n (Reply (length ts))) (s, ts) = (startup w s, ts @ [Started])"
    using b by (simp add: exec_replies)
  then show ?thesis ..
qed

text \<open>
  Then the cache: only \<open>resume\<close> writes it, and only for a task that \<open>writes\<close> names.
\<close>

lemma final_call_cache [simp]: "cachedModel (snd (final_call w p m s)) = cachedModel s"
  by (simp add: final_call_def send_def split: option.splits)

lemma final_call_task [simp]:
  "wf_task (fst (final_call w p m s))" "\<not> resolving (fst (final_call w p m s))"
  by (simp_all add: final_call_def split: option.splits)

lemma call_listed_cache [simp]: "cachedModel (snd (call_listed w p l s)) = cachedModel s"
  by (simp add: call_listed_def send_def log_def Let_def
      split: json.splits list.splits sum.splits option.splits del: find_gemini.simps)

lemma call_listed_wf [simp]: "wf_task (fst (call_listed w p l s))"
  by (simp add: call_listed_def Let_def truthy_name_model_id
      split: json.splits list.splits sum.splits option.splits del: find_gemini.simps)

lemma next_endpoint_cache [simp]: "cachedModel (snd (next_endpoint w p urls s)) = cachedModel s"
  by (simp add: next_endpoint_def send_def log_def split: list.splits)

lemma next_endpoint_wf [simp]: "wf_task (fst (next_endpoint w p urls s))"
  by (simp add: next_endpoint_def split: list.splits)

lemma next_candidate_cache [simp]: "cachedModel (snd (next_candidate w p cands s)) = cachedModel s"
  by (simp add: next_candidate_def send_def split: list.splits)

lemma next_candidate_wf: "\<forall>m\<in>set cands. m \<noteq> [] \<Longrightarrow> wf_task (fst (next_candidate w p cands s))"
  by (simp add: next_candidate_def split: list.splits)

lemma candidates_nonempty: "\<forall>m\<in>set CANDIDATE_MODELS. m \<noteq> []"
  by (simp add: CANDIDATE_MODELS_def)

lemma begin_call_cache [simp]: "cachedModel (snd (begin_call w p s)) = cachedModel s"
  by (simp add: begin_call_def)

lemma begin_call_wf [simp]: "wf_task (fst (begin_call w p s))"
  by (simp add: begin_call_def next_candidate_wf candidates_nonempty)

lemma begin_call_cached:
  "truthy (cachedModel s) \<Longrightarrow> ToString (cachedModel s) = Some m \<Longrightarrow>
   begin_call w p s = (AwaitFinal p m (length (sent s)), send (Post (generate_url w m) p) s)"
  by (simp add: begin_call_def final_call_def)

lemma startup_endpoint_cache [simp]: "cachedModel (snd (startup_endpoint urls s)) = cachedModel s"
  by (simp add: startup_endpoint_def send_def log_def split: list.splits)

lemma startup_endpoint_task [simp]:
  "wf_task (fst (startup_endpoint urls s))" "\<not> resolving (fst (startup_endpoint urls s))"
  by (simp_all add: startup_endpoint_def split: list.splits)

lemma endpoint_reply_cache [simp]:
  "cachedModel (snd (endpoint_reply w url rep s)) = cachedModel s"
  by (simp add: endpoint_reply_def log_def split: reply.splits sum.splits)

lemma resume_cache:
  "cachedModel (snd (resume w t s)) = (case writes w t of Some c \<Rightarrow> c | None \<Rightarrow> cachedModel s)"
proof (cases t)
  case (AwaitListing p url rest n)
  then show ?thesis
    by (cases "endpoint_reply w url (fetch w n (Get url)) s")
       (use endpoint_reply_cache [of w url "fetch w n (Get url)" s] in
         \<open>auto split: option.splits\<close>)
next
  case (AwaitStartup url rest n)
  then show ?thesis
    by (cases "endpoint_reply w url (fetch w n (Get url)) s")
       (use endpoint_reply_cache [of w url "fetch w n (Get url)" s] in
         \<open>auto split: option.splits\<close>)
qed (simp_all add: attempt_reply_def ok_attempt_of log_def)

lemma resume_wf: "wf_task t \<Longrightarrow> wf_task (fst (resume w t s))"
  by (cases t) (simp_all add: attempt_reply_def next_candidate_wf split: prod.splits option.splits)

lemma resume_not_resolving: "\<not> resolving t \<Longrightarrow> \<not> resolving (fst (resume w t s))"
  by (cases t) (simp_all add: attempt_reply_def split: prod.splits option.splits)

lemma writes_resolving: "writes w t = Some c \<Longrightarrow> resolving t"
  by (cases t) simp_all

lemma writes_wf:
  "wf_task t \<Longrightarrow> writes w t = Some c \<Longrightarrow> truthy c \<and> (\<exists>m. ToString c = Some m)"
  by (cases t) (auto split: if_splits)

lemma handle_Call:
  "handle w (Call p) (s, ts) = (snd (begin_call w p s), ts @ [fst (begin_call w p s)])"
  by (simp split: prod.splits)

lemma handle_Listen:
  "handle w Listen (s, ts) =
     (snd (startup_endpoint endpoints s), ts @ [fst (startup_endpoint endpoints s)])"
  by (simp split: prod.splits)

lemma handle_Reply:
  "handle w (Reply k) (s, ts) =
     (if k < length ts then (snd (resume w (ts ! k) s), ts[k := fst (resume w (ts ! k) s)])
      else (s, ts))"
  by (simp split: prod.splits)

lemmas handle_eqs = handle_Call handle_Listen handle_Reply

lemma handle_cache:
  assumes "cachedModel (fst (handle w e (s, ts))) \<noteq> cachedModel s"
  shows "\<exists>k<length ts. e = Reply k \<and> writes w (ts ! k) = Some (cachedModel (fst (handle w e (s, ts))))"
proof (cases e)
  case (Call p)
  with assms show ?thesis
    by (simp add: handle_eqs del: handle.simps)
next
  case Listen
  with assms show ?thesis
    by (simp add: handle_eqs del: handle.simps)
next
  case (Reply k)
  with assms have k: "k < length ts" by (auto split: if_splits)
  with Reply have c: "cachedModel (fst (handle w e (s, ts))) = cachedModel (snd (resume w (ts ! k) s))"
    by (simp add: handle_eqs del: handle.simps)
  with assms have "writes w (ts ! k) = Some (cachedModel (fst (handle w e (s, ts))))"
    by (simp add: resume_cache split: option.splits)
  with k Reply show ?thesis by blast
qed

lemma handle_reply_cache:
  assumes "k < length ts" and "writes w (ts ! k) = Some c"
  shows "cachedModel (fst (handle w (Reply k) (s, ts))) = c"
  using assms by (simp add: handle_eqs resume_cache del: handle.simps)

lemma handle_inv:
  assumes "task_inv (s, ts)"
  shows "task_inv (handle w e (s, ts))"
proof -
  from assms have ci: "cache_inv s" and wf: "list_all wf_task ts"
    by (simp_all add: task_inv_def)
  have cache: "cache_inv (fst (handle w e (s, ts)))"
  proof (cases "cachedModel (fst (handle w e (s, ts))) = cachedModel s")
    case True
    with ci show ?thesis by (simp add: cache_inv_def)
  next
    case False
    then obtain k where k: "k < length ts"
      and wr: "writes w (ts ! k) = Some (cachedModel (fst (handle w e (s, ts))))"
      using handle_cache by blast
    from wf k have "wf_task (ts ! k)" by (simp add: list_all_length)
    from writes_wf [OF this wr] show ?thesis by (simp add: cache_inv_def)
  qed
  have tasks: "list_all wf_task (snd (handle w e (s, ts)))"
  proof (cases e)
    case (Call p)
    then show ?thesis
      using wf by (simp add: handle_eqs del: handle.simps)
  next
    case Listen
    then show ?thesis
      using wf by (simp add: handle_eqs del: handle.simps)
  next
    case (Reply k)
    show ?thesis
    proof (cases "k < length ts")
      case False
      with Reply wf show ?thesis by simp
    next
      case True
      with wf have "wf_task (ts ! k)" by (simp add: list_all_length)
      then have "wf_task (fst (resume w (ts ! k) s))" by (rule resume_wf)
      with wf True Reply show ?thesis
        by (auto simp: handle_eqs list_all_length nth_list_update simp del: handle.simps)
    qed
  qed
  from cache tasks show ?thesis by (simp add: task_inv_def)
qed

lemma exec_inv: "task_inv c \<Longrightarrow> task_inv (exec w es c)"
proof (induction es arbitrary: c)
  case Nil
  then show ?case by simp
next
  case (Cons e es)
  obtain s ts where c: "c = (s, ts)" by (cases c)
  with Cons.prems have "task_inv (handle w e c)" by (simp add: handle_inv)
  then show ?case using Cons.IH by simp
qed

lemma initial_inv: "task_inv (initial_state, [])"
  by (simp add: task_inv_def cache_inv_def initial_state_def)

lemma handle_truthy:
  assumes "task_inv (s, ts)" and "truthy (cachedModel s)"
  shows "truthy (cachedModel (fst (handle w e (s, ts))))"
proof (cases "cachedModel (fst (handle w e (s, ts))) = cachedModel s")
  case True
  with assms show ?thesis by simp
next
  case False
  then obtain k where k: "k < length ts"
    and wr: "writes w (ts ! k) = Some (cachedModel (fst (handle w e (s, ts))))"
    using handle_cache by blast
  from assms k have "wf_task (ts ! k)" by (simp add: task_inv_def list_all_length)
  from writes_wf [OF this wr] show ?thesis by simp
qed

lemma handle_quiet:
  assumes "truthy (cachedModel s)" and "quiet ts"
  shows "cachedModel (fst (handle w e (s, ts))) = cachedModel s \<and> quiet (snd (handle w e (s, ts)))"
proof (cases e)
  case (Call p)
  with assms show ?thesis
    by (simp add: handle_eqs quiet_def begin_call_def del: handle.simps)
next
  case Listen
  with assms show ?thesis
    by (simp add: handle_eqs quiet_def del: handle.simps)
next
  case (Reply k)
  show ?thesis
  proof (cases "k < length ts")
    case False
    with Reply assms show ?thesis by simp
  next
    case True
    with assms have nr: "\<not> resolving (ts ! k)" by (simp add: quiet_def list_all_length)
    then have "writes w (ts ! k) = None" using writes_resolving [of w "ts ! k"]
      by (cases "writes w (ts ! k)") auto
    then have c: "cachedModel (snd (resume w (ts ! k) s)) = cachedModel s"
      by (simp add: resume_cache)
    from nr have "\<not> resolving (fst (resume w (ts ! k) s))" by (rule resume_not_resolving)
    with c True Reply assms show ?thesis
      by (auto simp: handle_eqs quiet_def list_all_length nth_list_update simp del: handle.simps)
  qed
qed

lemma exec_quiet:
  "truthy (cachedModel s) \<Longrightarrow> quiet ts \<Longrightarrow>
   cachedModel (fst (exec w es (s, ts))) = cachedModel s \<and> quiet (snd (exec w es (s, ts)))"
proof (induction es arbitrary: s ts)
  case Nil
  then show ?case by simp
next
  case (Cons e es)
  obtain s1 ts1 where h: "handle w e (s, ts) = (s1, ts1)" by (cases "handle w e (s, ts)")
  from handle_quiet [OF Cons.prems, of w e] h
  have "cachedModel s1 = cachedModel s" "quiet ts1" by simp_all
  with Cons.IH [of s1 ts1] Cons.prems h show ?case by simp
qed

lemma handle_call_cached:
  assumes "task_inv (s, ts)" and "truthy (cachedModel s)"
  shows "\<exists>m. ToString (cachedModel s) = Some m \<and>
     handle w (Call p) (s, ts) =
       (send (Post (generate_url w m) p) s, ts @ [AwaitFinal p m (length (sent s))])"
proof -
  from assms obtain m where m: "ToString (cachedModel s) = Some m"
    by (auto simp: task_inv_def cache_inv_def)
  with assms(2) show ?thesis by (simp add: handle_eqs begin_call_cached del: handle.simps)
qed

lemma resume_final:
  "sent (snd (resume w (AwaitFinal p m n) s)) = sent s \<and>
   cachedModel (snd (resume w (AwaitFinal p m n) s)) = cachedModel s \<and>
   (\<exists>r. fst (resume w (AwaitFinal p m n) s) = Done r)"
  by (simp add: attempt_reply_def)

lemma exec_append: "exec w (es @ es') c = exec w es' (exec w es c)"
  by (induction es arbitrary: c) simp_all

text \<open>
  Claim C2, as amended. Let the process have handled any events since its start, calls
  overlapping in any way. No event clears the cache: a truthy \<open>cachedModel\<close> stays truthy.
  The cache changes only when the reply arrives to an attempt of a call that is still
  resolving its model and that reply is a success; it then holds the identifier
  attempted. Every such reply assigns the cache, whatever it holds by then. A call that
  starts while the cache is set sends one request, to the identifier cached at that
  moment, with no search through the candidates; when the reply to that request arrives
  the call ends, with no further request and the cache as it was. Once the cache is set
  and no call is still resolving a model, the cache keeps its value whatever happens
  afterwards. The cache is not write-once: calls that started while it was empty may
  each assign it.
\<close>

theorem cachedModel_assigned_by_resolving_calls:
  assumes "exec w es (initial_state, []) = (s, ts)"
  shows
    "(\<forall>e. truthy (cachedModel s) \<longrightarrow> truthy (cachedModel (fst (handle w e (s, ts))))) \<and>
     (\<forall>e. cachedModel (fst (handle w e (s, ts))) \<noteq> cachedModel s \<longrightarrow>
        (\<exists>k<length ts. e = Reply k \<and>
           writes w (ts ! k) = Some (cachedModel (fst (handle w e (s, ts)))))) \<and>
     (\<forall>k c. k < length ts \<and> writes w (ts ! k) = Some c \<longrightarrow>
        cachedModel (fst (handle w (Reply k) (s, ts))) = c) \<and>
     (\<forall>p. truthy (cachedModel s) \<longrightarrow>
        (\<exists>m. ToString (cachedModel s) = Some m \<and>
           handle w (Call p) (s, ts) =
             (send (Post (generate_url w m) p) s, ts @ [AwaitFinal p m (length (sent s))]))) \<and>
     (\<forall>p m n s'. sent (snd (resume w (AwaitFinal p m n) s')) = sent s' \<and>
        cachedModel (snd (resume w (AwaitFinal p m n) s')) = cachedModel s' \<and>
        (\<exists>r. fst (resume w (AwaitFinal p m n) s') = Done r)) \<and>
     (\<forall>es'. truthy (cachedModel s) \<and> quiet ts \<longrightarrow>
        cachedModel (fst (exec w es' (s, ts))) = cachedModel s \<and>
        quiet (snd (exec w es' (s, ts))))"
proof -
  have inv: "task_inv (s, ts)"
    using exec_inv [OF initial_inv, of w es] assms by simp
  have a: "\<forall>e. truthy (cachedModel s) \<longrightarrow> truthy (cachedModel (fst (handle w e (s, ts))))"
    using handle_truthy [OF inv] by blast
  have b: "\<forall>e. cachedModel (fst (handle w e (s, ts))) \<noteq> cachedModel s \<longrightarrow>
        (\<exists>k<length ts. e = Reply k \<and>
           writes w (ts ! k) = Some (cachedModel (fst (handle w e (s, ts)))))"
    using handle_cache by blast
  have c: "\<forall>k c. k < length ts \<and> writes w (ts ! k) = Some c \<longrightarrow>
        cachedModel (fst (handle w (Reply k) (s, ts))) = c"
    using handle_reply_cache by blast
  have d: "\<forall>p. truthy (cachedModel s) \<longrightarrow>
        (\<exists>m. ToString (cachedModel s) = Some m \<and>
           handle w (Call p) (s, ts) =
             (send (Post (generate_url w m) p) s, ts @ [AwaitFinal p m (length (sent s))]))"
    using handle_call_cached [OF inv] by blast
  have e: "\<forall>p m n s'. sent (snd (resume w (AwaitFinal p m n) s')) = sent s' \<and>
        cachedModel (snd (resume w (AwaitFinal p m n) s')) = cachedModel s' \<and>
        (\<exists>r. fst (resume w (AwaitFinal p m n) s') = Done r)"
    using resume_final by blast
  have f: "\<forall>es'. truthy (cachedModel s) \<and> quiet ts \<longrightarrow>
        cachedModel (fst (exec w es' (s, ts))) = cachedModel s \<and>
        quiet (snd (exec w es' (s, ts)))"
    using exec_quiet by blast
  from a b c d e f show ?thesis by (intro conjI)
qed

theorem cachedModel_assigned_by_resolving_calls_witness:
  "cachedModel (fst (exec overlap_world [Call ''a''] (initial_state, []))) = JNull \<and>
   writes overlap_world (snd (exec overlap_world [Call ''a''] (initial_state, [])) ! 0) =
     Some (JStr ''gemini-2.5-pro'') \<and>
   cachedModel (fst (exec overlap_world [Call ''a'', Reply 0] (initial_state, []))) =
     JStr ''gemini-2.5-pro'' \<and>
   (\<exists>k<length (snd (exec overlap_world [Call ''a''] (initial_state, []))).
      writes overlap_world (snd (exec overlap_world [Call ''a''] (initial_state, [])) ! k) =
        Some (JStr ''gemini-2.5-pro'')) \<and>
   quiet (snd (exec overlap_world [Call ''a'', Reply 0] (initial_state, []))) \<and>
   truthy (cachedModel (fst (exec overlap_world [Call ''a'', Reply 0, Call ''b'']
     (initial_state, [])))) \<and>
   snd (exec overlap_world [Call ''a'', Reply 0, Call ''b''] (initial_state, [])) =
     [AwaitFinal ''a'' ''gemini-2.5-pro'' 1, AwaitFinal ''b'' ''gemini-2.5-pro'' 2] \<and>
   (\<forall>es'. cachedModel (fst (exec overlap_world ([Call ''a'', Reply 0] @ es') (initial_state, []))) =
        JStr ''gemini-2.5-pro'' \<and>
      quiet (snd (exec overlap_world ([Call ''a'', Reply 0] @ es') (initial_state, []))))"
proof -
  let ?w = overlap_world
  let ?A = "exec ?w [Call ''a''] (initial_state, [])"
  let ?B = "exec ?w [Call ''a'', Reply 0] (initial_state, [])"
  have eA: "exec ?w [Call ''a''] (initial_state, []) = (fst ?A, snd ?A)" by simp
  have eB: "exec ?w [Call ''a'', Reply 0] (initial_state, []) = (fst ?B, snd ?B)" by simp
  note TA = cachedModel_assigned_by_resolving_calls [OF eA]
  note TB = cachedModel_assigned_by_resolving_calls [OF eB]
  have a0: "cachedModel (fst ?A) = JNull" by code_simp
  have a1: "0 < length (snd ?A)" by code_simp
  have a2: "writes ?w (snd ?A ! 0) = Some (JStr ''gemini-2.5-pro'')" by code_simp
  have ab: "handle ?w (Reply 0) (fst ?A, snd ?A) = ?B" by simp
  from TA a1 a2 have "cachedModel (fst (handle ?w (Reply 0) (fst ?A, snd ?A))) = JStr ''gemini-2.5-pro''"
    by blast
  then have b0: "cachedModel (fst ?B) = JStr ''gemini-2.5-pro''" by (simp only: ab)
  with a0 have "cachedModel (fst (handle ?w (Reply 0) (fst ?A, snd ?A))) \<noteq> cachedModel (fst ?A)"
    by (simp only: ab) simp
  with TA have "\<exists>k<length (snd ?A). Reply 0 = Reply k \<and>
      writes ?w (snd ?A ! k) = Some (cachedModel (fst (handle ?w (Reply 0) (fst ?A, snd ?A))))"
    by blast
  then have a3: "\<exists>k<length (snd ?A). writes ?w (snd ?A ! k) = Some (JStr ''gemini-2.5-pro'')"
    by (simp only: ab b0) blast
  from b0 have b1: "truthy (cachedModel (fst ?B))" by simp
  have b2: "quiet (snd ?B)" by code_simp
  have b3: "snd ?B = [AwaitFinal ''a'' ''gemini-2.5-pro'' 1]" by code_simp
  have b4: "length (sent (fst ?B)) = 2" by code_simp
  have hb: "handle ?w (Call ''b'') (fst ?B, snd ?B) =
     exec ?w [Call ''a'', Reply 0, Call ''b''] (initial_state, [])"
    by simp
  from TB b1 have "truthy (cachedModel (fst (handle ?w (Call ''b'') (fst ?B, snd ?B))))"
    by blast
  then have c1: "truthy (cachedModel (fst (exec ?w [Call ''a'', Reply 0, Call ''b'']
     (initial_state, []))))"
    by (simp only: hb)
  from TB b1 obtain m where m: "ToString (cachedModel (fst ?B)) = Some m"
    and h: "handle ?w (Call ''b'') (fst ?B, snd ?B) =
       (send (Post (generate_url ?w m) ''b'') (fst ?B),
        snd ?B @ [AwaitFinal ''b'' m (length (sent (fst ?B)))])"
    by blast
  from m b0 have mm: "m = ''gemini-2.5-pro''" by simp
  from h have "snd (exec ?w [Call ''a'', Reply 0, Call ''b''] (initial_state, [])) =
     snd ?B @ [AwaitFinal ''b'' m (length (sent (fst ?B)))]"
    by (simp only: hb snd_conv)
  then have c0: "snd (exec ?w [Call ''a'', Reply 0, Call ''b''] (initial_state, [])) =
     [AwaitFinal ''a'' ''gemini-2.5-pro'' 1, AwaitFinal ''b'' ''gemini-2.5-pro'' 2]"
    by (simp only: b3 b4 mm append.simps)
  from TB b1 b2 have "\<forall>es'. cachedModel (fst (exec ?w es' (fst ?B, snd ?B))) = cachedModel (fst ?B) \<and>
      quiet (snd (exec ?w es' (fst ?B, snd ?B)))"
    by blast
  then have d0: "\<forall>es'. cachedModel (fst (exec ?w ([Call ''a'', Reply 0] @ es') (initial_state, []))) =
        JStr ''gemini-2.5-pro'' \<and>
      quiet (snd (exec ?w ([Call ''a'', Reply 0] @ es') (initial_state, [])))"
    using b0 by (simp only: exec_append prod.collapse simp_thms)
  from a0 a2 b0 a3 b2 c1 c0 d0 show ?thesis by (intro conjI)
qed

text \<open>
  Claim C2 as stated fails: two calls start while the cache is empty and the provider is
  busy when the second asks for the first candidate. The first call sets the cache to
  \<open>gemini-2.5-pro\<close>, the second goes on to the next candidate and then sets the cache to
  \<open>gemini-2.5-flash\<close>, and a third call is sent to \<open>gemini-2.5-flash\<close>.
\<close>

theorem overlapping_calls_assign_twice:
  "cachedModel (fst (exec overlap_world [Call ''a'', Call ''b'', Reply 0] (initial_state, []))) =
     JStr ''gemini-2.5-pro'' \<and>
   cachedModel (fst (exec overlap_world [Call ''a'', Call ''b'', Reply 0, Reply 1, Reply 1]
     (initial_state, []))) = JStr ''gemini-2.5-flash'' \<and>
   snd (exec overlap_world [Call ''a'', Call ''b'', Reply 0, Reply 1, Reply 1, Call ''c'']
     (initial_state, [])) =
     [AwaitFinal ''a'' ''gemini-2.5-pro'' 2, AwaitFinal ''b'' ''gemini-2.5-flash'' 4,
      AwaitFinal ''c'' ''gemini-2.5-flash'' 5]"
  by code_simp

end
